theory Spec2Isabelle
  imports Main "HOL-Library.Word"
begin

section \<open>Race Game for Flipper Zero: the simulation core of \<^verbatim>\<open>race_game.c\<close>\<close>

text \<open>
  The C program keeps one \<^verbatim>\<open>RaceGameState\<close> and mutates it from \<^verbatim>\<open>game_tick\<close> and from
  the key handler of \<^verbatim>\<open>race_game_app\<close>. The model passes that state explicitly.

  \<^item> Unsigned fields (\<^verbatim>\<open>uint8_t\<close>, \<^verbatim>\<open>uint16_t\<close>, \<^verbatim>\<open>uint32_t\<close>) are words of that width, so
    \<open>+\<close> and \<open>-\<close> wrap as the C stores do. Signed fields (\<^verbatim>\<open>int8_t\<close>, \<^verbatim>\<open>int16_t\<close>) are words
    read through \<open>sint\<close>.
  \<^item> C computes every expression in \<^verbatim>\<open>int\<close> after integer promotion; such intermediate
    values are \<open>int\<close> here and are converted back to a word where the C stores them.
  \<^item> The fixed arrays are lists; every loop runs over the index range of its
    \<^verbatim>\<open>MAX_...\<close> constant as the C loop does.
  \<^item> \<^verbatim>\<open>rand()\<close> is an oracle: \<open>rnd :: nat \<Rightarrow> nat\<close> is the sequence of values the calls
    return and the field \<open>rand_idx\<close> counts the calls made so far.
  \<^item> The periodic timer is the field \<open>timer\<close>: \<open>None\<close> when stopped, \<open>Some p\<close> when running
    with period \<open>p\<close>.
  \<^item> The high-score file is the field \<open>hs_file\<close>; \<open>storage_ok\<close> says whether
    \<^verbatim>\<open>storage_file_open\<close> succeeds.
  \<^item> \<^verbatim>\<open>play_sound\<close> and \<^verbatim>\<open>vibrate\<close> drive the speaker and the motor and never write the
    game state; they are left out.
\<close>

subsection \<open>Layout constants\<close>

abbreviation (input) SCREEN_W :: int where "SCREEN_W \<equiv> 64"
abbreviation (input) SCREEN_H :: int where "SCREEN_H \<equiv> 128"
abbreviation (input) ROAD_LEFT :: int where "ROAD_LEFT \<equiv> 10"
abbreviation (input) ROAD_RIGHT :: int where "ROAD_RIGHT \<equiv> 53"
abbreviation (input) ROAD_WIDTH :: int where "ROAD_WIDTH \<equiv> ROAD_RIGHT - ROAD_LEFT"
abbreviation (input) LANE_COUNT :: nat where "LANE_COUNT \<equiv> 3"
abbreviation (input) LANE_WIDTH :: int where "LANE_WIDTH \<equiv> ROAD_WIDTH div int LANE_COUNT"
abbreviation (input) CAR_W :: int where "CAR_W \<equiv> 10"
abbreviation (input) CAR_H :: int where "CAR_H \<equiv> 13"
abbreviation (input) PLAYER_Y :: int where "PLAYER_Y \<equiv> 105"
abbreviation (input) MAX_OBS :: nat where "MAX_OBS \<equiv> 5"
abbreviation (input) MAX_COINS :: nat where "MAX_COINS \<equiv> 3"
abbreviation (input) MAX_POWERUPS :: nat where "MAX_POWERUPS \<equiv> 2"
abbreviation (input) MAX_SCENERY :: nat where "MAX_SCENERY \<equiv> 6"
abbreviation (input) MAX_PARTICLES :: nat where "MAX_PARTICLES \<equiv> 12"
abbreviation (input) INITIAL_LIVES :: "8 word" where "INITIAL_LIVES \<equiv> 3"
abbreviation (input) MAX_LIVES :: "8 word" where "MAX_LIVES \<equiv> 5"
abbreviation (input) DASH_TOTAL :: int where "DASH_TOTAL \<equiv> 8 + 8"

subsection \<open>Types\<close>

datatype GameState = StateMenu | StatePlaying | StateGameOver
datatype ObsType = ObsMoto | ObsSedan | ObsTruck
datatype PowerUpType = PwShield | PwMagnet | PwFuel
datatype Difficulty = DiffEasy | DiffNormal | DiffHard

record Obstacle =
  o_lane :: "8 word"
  o_y :: "16 word"
  o_alive :: bool
  o_type :: ObsType

record Coin =
  c_lane :: "8 word"
  c_y :: "16 word"
  c_alive :: bool

record PowerUp =
  p_lane :: "8 word"
  p_y :: "16 word"
  p_alive :: bool
  p_type :: PowerUpType

record Scenery =
  sc_y :: "16 word"
  sc_side :: "8 word"
  sc_type :: "8 word"

record Particle =
  pt_x :: "16 word"
  pt_y :: "16 word"
  pt_dx :: "8 word"
  pt_dy :: "8 word"
  pt_life :: "8 word"

record RaceGameState =
  state :: GameState
  player_lane :: "8 word"
  score :: "32 word"
  high_score :: "32 word"
  level :: "8 word"
  lives :: "8 word"
  speed :: "16 word"
  tick_count :: "32 word"
  road_scroll :: "8 word"
  night_mode :: bool
  sound_on :: bool
  menu_idx :: "8 word"
  difficulty :: Difficulty
  invincible_ticks :: "8 word"
  shield_ticks :: "8 word"
  magnet_ticks :: "8 word"
  combo :: "8 word"
  combo_display :: "8 word"
  obstacles :: "Obstacle list"
  coins :: "Coin list"
  powerups :: "PowerUp list"
  scenery :: "Scenery list"
  particles :: "Particle list"
  timer :: "16 word option"
  rand_idx :: nat
  hs_file :: "32 word option"
  running :: bool

text \<open>
  \<open>rand_idx\<close>, \<open>hs_file\<close> and \<open>running\<close> are not fields of the C struct: they are the
  number of \<^verbatim>\<open>rand()\<close> calls made, the content of \<^verbatim>\<open>highscore.dat\<close> and the local
  variable \<^verbatim>\<open>running\<close> of \<^verbatim>\<open>race_game_app\<close>.
\<close>

subsection \<open>Difficulty tables\<close>

fun diff_speed :: "Difficulty \<Rightarrow> int" where
  "diff_speed DiffEasy = 140"
| "diff_speed DiffNormal = 120"
| "diff_speed DiffHard = 90"

fun diff_min_speed :: "Difficulty \<Rightarrow> int" where
  "diff_min_speed DiffEasy = 70"
| "diff_min_speed DiffNormal = 50"
| "diff_min_speed DiffHard = 35"

fun diff_spawn :: "Difficulty \<Rightarrow> 8 word" where
  "diff_spawn DiffEasy = 15"
| "diff_spawn DiffNormal = 12"
| "diff_spawn DiffHard = 9"

subsection \<open>The random oracle\<close>

text \<open>The value of the \<open>k\<close>-th \<^verbatim>\<open>rand()\<close> call counted from the current position.\<close>

definition rand_at :: "(nat \<Rightarrow> nat) \<Rightarrow> RaceGameState \<Rightarrow> nat \<Rightarrow> nat" where
  "rand_at rnd s k = rnd (rand_idx s + k)"

definition rand_used :: "nat \<Rightarrow> RaceGameState \<Rightarrow> RaceGameState" where
  "rand_used k s = s\<lparr>rand_idx := rand_idx s + k\<rparr>"

subsection \<open>High score\<close>

text \<open>
  \<^verbatim>\<open>save_high_score\<close> returns at once unless the score is above the high score; otherwise it
  sets \<^verbatim>\<open>high_score\<close> and writes the file when \<^verbatim>\<open>storage_file_open\<close> succeeds.
\<close>

definition save_high_score :: "bool \<Rightarrow> RaceGameState \<Rightarrow> RaceGameState" where
  "save_high_score storage_ok s =
     (if score s \<le> high_score s then s
      else (let s1 = s\<lparr>high_score := score s\<rparr>
            in if storage_ok then s1\<lparr>hs_file := Some (high_score s1)\<rparr> else s1))"

subsection \<open>Helpers\<close>

text \<open>
  \<^verbatim>\<open>lane_cx\<close> and \<^verbatim>\<open>car_lx\<close> return \<^verbatim>\<open>int16_t\<close>; for every \<^verbatim>\<open>int8_t\<close> lane the value lies
  between \<open>-1780\<close> and \<open>1795\<close>, so the conversion to \<^verbatim>\<open>int16_t\<close> changes nothing.
\<close>

definition lane_cx :: "8 word \<Rightarrow> int" where
  "lane_cx lane = ROAD_LEFT + LANE_WIDTH div 2 + sint lane * LANE_WIDTH"

definition car_lx :: "8 word \<Rightarrow> int" where
  "car_lx lane = lane_cx lane - CAR_W div 2"

subsection \<open>Particles\<close>

definition spawn_particle :: "(nat \<Rightarrow> nat) \<Rightarrow> int \<Rightarrow> int \<Rightarrow> nat \<Rightarrow> RaceGameState \<Rightarrow> RaceGameState" where
  "spawn_particle rnd cx cy i s =
     rand_used 3 (s\<lparr>particles := (particles s)[i :=
        \<lparr>pt_x = word_of_int cx, pt_y = word_of_int cy,
         pt_dx = word_of_int (int (rand_at rnd s 0 mod 7) - 3),
         pt_dy = word_of_int (int (rand_at rnd s 1 mod 7) - 3),
         pt_life = word_of_nat (8 + rand_at rnd s 2 mod 5)\<rparr>]\<rparr>)"

definition spawn_particles :: "(nat \<Rightarrow> nat) \<Rightarrow> int \<Rightarrow> int \<Rightarrow> RaceGameState \<Rightarrow> RaceGameState" where
  "spawn_particles rnd cx cy s = fold (spawn_particle rnd cx cy) [0..<MAX_PARTICLES] s"

definition update_particle :: "Particle \<Rightarrow> Particle" where
  "update_particle p =
     (if pt_life p > 0
      then p\<lparr>pt_x := pt_x p + scast (pt_dx p), pt_y := pt_y p + scast (pt_dy p),
             pt_life := pt_life p - 1\<rparr>
      else p)"

definition update_particles :: "RaceGameState \<Rightarrow> RaceGameState" where
  "update_particles s =
     fold (\<lambda>i s. s\<lparr>particles := (particles s)[i := update_particle (particles s ! i)]\<rparr>)
          [0..<MAX_PARTICLES] s"

subsection \<open>Init\<close>

definition init_scenery_item :: "(nat \<Rightarrow> nat) \<Rightarrow> nat \<Rightarrow> RaceGameState \<Rightarrow> RaceGameState" where
  "init_scenery_item rnd i s =
     rand_used 3 (s\<lparr>scenery := (scenery s)[i :=
        \<lparr>sc_y = word_of_nat (rand_at rnd s 0 mod nat SCREEN_H),
         sc_side = word_of_nat (rand_at rnd s 1 mod 2),
         sc_type = word_of_nat (rand_at rnd s 2 mod 2)\<rparr>]\<rparr>)"

definition init_scenery :: "(nat \<Rightarrow> nat) \<Rightarrow> RaceGameState \<Rightarrow> RaceGameState" where
  "init_scenery rnd s = fold (init_scenery_item rnd) [0..<MAX_SCENERY] s"

definition game_init :: "(nat \<Rightarrow> nat) \<Rightarrow> RaceGameState \<Rightarrow> RaceGameState" where
  "game_init rnd s =
     (let s1 = s\<lparr>state := StatePlaying, player_lane := 1, score := 0, level := 0,
                  lives := INITIAL_LIVES, speed := word_of_int (diff_speed (difficulty s)),
                  tick_count := 0, road_scroll := 0, invincible_ticks := 0,
                  shield_ticks := 0, magnet_ticks := 0, combo := 0, combo_display := 0\<rparr>;
          s2 = fold (\<lambda>i s. s\<lparr>obstacles := (obstacles s)[i := (obstacles s ! i)\<lparr>o_alive := False\<rparr>]\<rparr>)
                    [0..<MAX_OBS] s1;
          s3 = fold (\<lambda>i s. s\<lparr>coins := (coins s)[i := (coins s ! i)\<lparr>c_alive := False\<rparr>]\<rparr>)
                    [0..<MAX_COINS] s2;
          s4 = fold (\<lambda>i s. s\<lparr>powerups := (powerups s)[i := (powerups s ! i)\<lparr>p_alive := False\<rparr>]\<rparr>)
                    [0..<MAX_POWERUPS] s3;
          s5 = fold (\<lambda>i s. s\<lparr>particles := (particles s)[i := (particles s ! i)\<lparr>pt_life := 0\<rparr>]\<rparr>)
                    [0..<MAX_PARTICLES] s4;
          s6 = init_scenery rnd s5
      in s6\<lparr>timer := Some (speed s6)\<rparr>)"

subsection \<open>Collision\<close>

text \<open>The locals \<^verbatim>\<open>ox\<close>, \<^verbatim>\<open>ow\<close> and \<^verbatim>\<open>oh\<close> of \<^verbatim>\<open>check_collision\<close>, per obstacle class.\<close>

definition obs_ox :: "Obstacle \<Rightarrow> int" where
  "obs_ox ob =
     (if o_type ob = ObsTruck then car_lx (o_lane ob) - 5
      else if o_type ob = ObsMoto then car_lx (o_lane ob) + 2
      else car_lx (o_lane ob))"

definition obs_ow :: "Obstacle \<Rightarrow> int" where
  "obs_ow ob =
     (if o_type ob = ObsTruck then 20
      else if o_type ob = ObsMoto then 6
      else CAR_W)"

definition obs_oh :: "Obstacle \<Rightarrow> int" where
  "obs_oh ob = (if o_type ob = ObsTruck then 16 else (if o_type ob = ObsMoto then 10 else 12))"

definition obstacle_hits :: "int \<Rightarrow> Obstacle \<Rightarrow> bool" where
  "obstacle_hits px ob =
     ((px < obs_ox ob + obs_ow ob) \<and> (px + CAR_W > obs_ox ob) \<and>
      (PLAYER_Y < sint (o_y ob) + obs_oh ob) \<and> (PLAYER_Y + CAR_H > sint (o_y ob)))"

fun check_collision_loop :: "int \<Rightarrow> Obstacle list \<Rightarrow> nat list \<Rightarrow> bool" where
  "check_collision_loop px obs [] = False"
| "check_collision_loop px obs (i # is) =
     (if \<not> o_alive (obs ! i) then check_collision_loop px obs is
      else if obstacle_hits px (obs ! i) then True
      else check_collision_loop px obs is)"

definition check_collision :: "RaceGameState \<Rightarrow> bool" where
  "check_collision s =
     check_collision_loop (car_lx (player_lane s)) (obstacles s) [0..<MAX_OBS]"

subsection \<open>Coin and power-up collection\<close>

definition coin_magnet_pull :: "RaceGameState \<Rightarrow> Coin \<Rightarrow> bool" where
  "coin_magnet_pull s c = (magnet_ticks s > 0 \<and> \<bar>sint (c_y c) - PLAYER_Y\<bar> < 30)"

definition coin_touch :: "int \<Rightarrow> Coin \<Rightarrow> bool" where
  "coin_touch px c =
     (let cx = car_lx (c_lane c)
      in (px < cx + 8) \<and> (px + CAR_W > cx) \<and>
         (PLAYER_Y < sint (c_y c) + 8) \<and> (PLAYER_Y + CAR_H > sint (c_y c)))"

text \<open>The pull branch: the two stores to \<^verbatim>\<open>coins[i].y\<close> and \<^verbatim>\<open>coins[i].lane\<close>.\<close>

definition pull_coin :: "8 word \<Rightarrow> Coin \<Rightarrow> Coin" where
  "pull_coin pl c =
     c\<lparr>c_y := c_y c + (if sint (c_y c) < PLAYER_Y then 4 else - 4),
       c_lane := (if sint (c_lane c) < sint pl then c_lane c + 1
                  else if sint (c_lane c) > sint pl then c_lane c - 1
                  else c_lane c)\<rparr>"

text \<open>The collect branch: the coin dies, the combo grows, the score gets the points.\<close>

definition coin_pts :: "8 word \<Rightarrow> 32 word" where
  "coin_pts cmb = word_of_nat (25 * (if cmb > 1 then unat cmb else 1))"

definition collect_coin :: "nat \<Rightarrow> RaceGameState \<Rightarrow> RaceGameState" where
  "collect_coin i s =
     (let s1 = s\<lparr>coins := (coins s)[i := (coins s ! i)\<lparr>c_alive := False\<rparr>]\<rparr>;
          s2 = s1\<lparr>combo := combo s1 + 1\<rparr>;
          s3 = s2\<lparr>combo_display := 15\<rparr>
      in s3\<lparr>score := score s3 + coin_pts (combo s3)\<rparr>)"

definition coin_step :: "int \<Rightarrow> nat \<Rightarrow> RaceGameState \<Rightarrow> RaceGameState" where
  "coin_step px i s =
     (if \<not> c_alive (coins s ! i) then s
      else (let magnet_pull = coin_magnet_pull s (coins s ! i);
                touch = coin_touch px (coins s ! i)
            in if touch \<or> magnet_pull
               then (if magnet_pull \<and> \<not> touch
                     then s\<lparr>coins := (coins s)[i := pull_coin (player_lane s) (coins s ! i)]\<rparr>
                     else collect_coin i s)
               else s))"

definition powerup_touch :: "int \<Rightarrow> PowerUp \<Rightarrow> bool" where
  "powerup_touch px p =
     (let ppx = car_lx (p_lane p)
      in (px < ppx + 8) \<and> (px + CAR_W > ppx) \<and>
         (PLAYER_Y < sint (p_y p) + 8) \<and> (PLAYER_Y + CAR_H > sint (p_y p)))"

definition apply_powerup :: "PowerUpType \<Rightarrow> RaceGameState \<Rightarrow> RaceGameState" where
  "apply_powerup t s =
     (case t of
        PwShield \<Rightarrow> s\<lparr>shield_ticks := 50\<rparr>
      | PwMagnet \<Rightarrow> s\<lparr>magnet_ticks := 60\<rparr>
      | PwFuel \<Rightarrow> (if lives s < MAX_LIVES then s\<lparr>lives := lives s + 1\<rparr> else s))"

definition powerup_step :: "int \<Rightarrow> nat \<Rightarrow> RaceGameState \<Rightarrow> RaceGameState" where
  "powerup_step px i s =
     (if \<not> p_alive (powerups s ! i) then s
      else if powerup_touch px (powerups s ! i)
      then (let s1 = s\<lparr>powerups := (powerups s)[i := (powerups s ! i)\<lparr>p_alive := False\<rparr>]\<rparr>
            in apply_powerup (p_type (powerups s1 ! i)) s1)
      else s)"

definition check_collections :: "RaceGameState \<Rightarrow> RaceGameState" where
  "check_collections s =
     (let px = car_lx (player_lane s);
          s1 = fold (coin_step px) [0..<MAX_COINS] s
      in fold (powerup_step px) [0..<MAX_POWERUPS] s1)"

subsection \<open>Spawning\<close>

text \<open>
  The body of the \<^verbatim>\<open>if(!alive)\<close> branch of \<^verbatim>\<open>spawn_obstacle\<close>. The first \<^verbatim>\<open>rand()\<close> picks
  the lane. The boss test calls \<^verbatim>\<open>rand()\<close> only when both level conditions hold
  (\<^verbatim>\<open>&&\<close> short-circuits); the moto test calls it only when the boss test failed.
\<close>

definition new_obstacle :: "(nat \<Rightarrow> nat) \<Rightarrow> nat \<Rightarrow> RaceGameState \<Rightarrow> RaceGameState" where
  "new_obstacle rnd i s =
     (let lane0 = word_of_nat (rand_at rnd s 0 mod LANE_COUNT) :: 8 word;
          ob = (obstacles s ! i)\<lparr>o_alive := True, o_y := - 18, o_lane := lane0\<rparr>
      in if level s > 0 \<and> unat (level s) mod 5 = 0
         then (if rand_at rnd s 1 mod 4 = 0
               then rand_used 2 (s\<lparr>obstacles := (obstacles s)[i := ob\<lparr>o_type := ObsTruck, o_lane := 1\<rparr>]\<rparr>)
               else if rand_at rnd s 2 mod 3 = 0
               then rand_used 3 (s\<lparr>obstacles := (obstacles s)[i := ob\<lparr>o_type := ObsMoto\<rparr>]\<rparr>)
               else rand_used 3 (s\<lparr>obstacles := (obstacles s)[i := ob\<lparr>o_type := ObsSedan\<rparr>]\<rparr>))
         else (if rand_at rnd s 1 mod 3 = 0
               then rand_used 2 (s\<lparr>obstacles := (obstacles s)[i := ob\<lparr>o_type := ObsMoto\<rparr>]\<rparr>)
               else rand_used 2 (s\<lparr>obstacles := (obstacles s)[i := ob\<lparr>o_type := ObsSedan\<rparr>]\<rparr>)))"

fun spawn_obstacle_loop :: "(nat \<Rightarrow> nat) \<Rightarrow> nat list \<Rightarrow> RaceGameState \<Rightarrow> RaceGameState" where
  "spawn_obstacle_loop rnd [] s = s"
| "spawn_obstacle_loop rnd (i # is) s =
     (if \<not> o_alive (obstacles s ! i) then new_obstacle rnd i s
      else spawn_obstacle_loop rnd is s)"

definition spawn_obstacle :: "(nat \<Rightarrow> nat) \<Rightarrow> RaceGameState \<Rightarrow> RaceGameState" where
  "spawn_obstacle rnd s = spawn_obstacle_loop rnd [0..<MAX_OBS] s"

definition new_coin :: "(nat \<Rightarrow> nat) \<Rightarrow> nat \<Rightarrow> RaceGameState \<Rightarrow> RaceGameState" where
  "new_coin rnd i s =
     rand_used 1 (s\<lparr>coins := (coins s)[i :=
        (coins s ! i)\<lparr>c_alive := True, c_y := - 12,
                      c_lane := word_of_nat (rand_at rnd s 0 mod LANE_COUNT)\<rparr>]\<rparr>)"

fun spawn_coin_loop :: "(nat \<Rightarrow> nat) \<Rightarrow> nat list \<Rightarrow> RaceGameState \<Rightarrow> RaceGameState" where
  "spawn_coin_loop rnd [] s = s"
| "spawn_coin_loop rnd (i # is) s =
     (if \<not> c_alive (coins s ! i) then new_coin rnd i s
      else spawn_coin_loop rnd is s)"

definition spawn_coin :: "(nat \<Rightarrow> nat) \<Rightarrow> RaceGameState \<Rightarrow> RaceGameState" where
  "spawn_coin rnd s = spawn_coin_loop rnd [0..<MAX_COINS] s"

text \<open>\<^verbatim>\<open>rand() % 3\<close> converted to \<^verbatim>\<open>PowerUpType\<close>.\<close>

definition powerup_of_nat :: "nat \<Rightarrow> PowerUpType" where
  "powerup_of_nat n = (if n = 0 then PwShield else if n = 1 then PwMagnet else PwFuel)"

definition new_powerup :: "(nat \<Rightarrow> nat) \<Rightarrow> nat \<Rightarrow> RaceGameState \<Rightarrow> RaceGameState" where
  "new_powerup rnd i s =
     rand_used 2 (s\<lparr>powerups := (powerups s)[i :=
        (powerups s ! i)\<lparr>p_alive := True, p_y := - 12,
                         p_lane := word_of_nat (rand_at rnd s 0 mod LANE_COUNT),
                         p_type := powerup_of_nat (rand_at rnd s 1 mod 3)\<rparr>]\<rparr>)"

fun spawn_powerup_loop :: "(nat \<Rightarrow> nat) \<Rightarrow> nat list \<Rightarrow> RaceGameState \<Rightarrow> RaceGameState" where
  "spawn_powerup_loop rnd [] s = s"
| "spawn_powerup_loop rnd (i # is) s =
     (if \<not> p_alive (powerups s ! i) then new_powerup rnd i s
      else spawn_powerup_loop rnd is s)"

definition spawn_powerup :: "(nat \<Rightarrow> nat) \<Rightarrow> RaceGameState \<Rightarrow> RaceGameState" where
  "spawn_powerup rnd s = spawn_powerup_loop rnd [0..<MAX_POWERUPS] s"

subsection \<open>Game tick\<close>

text \<open>
  \<^verbatim>\<open>game_tick\<close> is one C function; the model names its consecutive blocks so that
  properties of one block can be stated: \<open>tick_counters\<close> (the counter and timer updates
  at its head), \<open>update_particles\<close>, \<open>move_scenery\<close>, \<open>move_obstacles\<close>, \<open>move_coins\<close>,
  \<open>move_powerups\<close>, \<open>spawn_phase\<close>, \<open>check_collections\<close>, \<open>resolve_collision\<close> (the block
  \<^verbatim>\<open>if(s->invincible_ticks == 0 && ...)\<close>) and \<open>level_up\<close>.
\<close>

definition tick_counters :: "RaceGameState \<Rightarrow> RaceGameState" where
  "tick_counters s =
     (let s1 = s\<lparr>tick_count := tick_count s + 1\<rparr>;
          s2 = s1\<lparr>road_scroll := road_scroll s1 + 3\<rparr>;
          s3 = (if sint (road_scroll s2) \<ge> DASH_TOTAL
                then s2\<lparr>road_scroll := road_scroll s2 - 16\<rparr> else s2);
          s4 = (if invincible_ticks s3 > 0
                then s3\<lparr>invincible_ticks := invincible_ticks s3 - 1\<rparr> else s3);
          s5 = (if shield_ticks s4 > 0 then s4\<lparr>shield_ticks := shield_ticks s4 - 1\<rparr> else s4);
          s6 = (if magnet_ticks s5 > 0 then s5\<lparr>magnet_ticks := magnet_ticks s5 - 1\<rparr> else s5)
      in (if combo_display s6 > 0 then s6\<lparr>combo_display := combo_display s6 - 1\<rparr> else s6))"

definition scenery_step :: "(nat \<Rightarrow> nat) \<Rightarrow> nat \<Rightarrow> RaceGameState \<Rightarrow> RaceGameState" where
  "scenery_step rnd i s =
     (let y1 = sc_y (scenery s ! i) + 2
      in if sint y1 > SCREEN_H + 5
         then rand_used 3 (s\<lparr>scenery := (scenery s)[i :=
                \<lparr>sc_y = word_of_int (- int (rand_at rnd s 0 mod 20)),
                 sc_side = word_of_nat (rand_at rnd s 1 mod 2),
                 sc_type = word_of_nat (rand_at rnd s 2 mod 2)\<rparr>]\<rparr>)
         else s\<lparr>scenery := (scenery s)[i := (scenery s ! i)\<lparr>sc_y := y1\<rparr>]\<rparr>)"

definition move_scenery :: "(nat \<Rightarrow> nat) \<Rightarrow> RaceGameState \<Rightarrow> RaceGameState" where
  "move_scenery rnd s = fold (scenery_step rnd) [0..<MAX_SCENERY] s"

text \<open>The local \<^verbatim>\<open>spd\<close>, computed once before the three move loops.\<close>

definition base_spd :: "RaceGameState \<Rightarrow> int" where
  "base_spd s = 3 + uint (level s) div 2"

text \<open>The local \<^verbatim>\<open>move\<close> of the obstacle loop.\<close>

definition obs_move :: "int \<Rightarrow> Obstacle \<Rightarrow> int" where
  "obs_move spd ob =
     (let move = spd;
          move = (if o_type ob = ObsMoto then move + 1 else move);
          move = (if o_type ob = ObsTruck then move - 1 else move)
      in move)"

text \<open>The local \<^verbatim>\<open>oh\<close> of the obstacle move loop (not the one of \<^verbatim>\<open>check_collision\<close>).\<close>

definition retire_oh :: "Obstacle \<Rightarrow> int" where
  "retire_oh ob = (if o_type ob = ObsTruck then 16 else 12)"

definition move_obstacle_step :: "int \<Rightarrow> nat \<Rightarrow> RaceGameState \<Rightarrow> RaceGameState" where
  "move_obstacle_step spd i s =
     (if \<not> o_alive (obstacles s ! i) then s
      else (let ob = obstacles s ! i;
                ob1 = ob\<lparr>o_y := o_y ob + word_of_int (obs_move spd ob)\<rparr>
            in if sint (o_y ob1) > SCREEN_H + retire_oh ob1
               then s\<lparr>obstacles := (obstacles s)[i := ob1\<lparr>o_alive := False\<rparr>],
                      score := score s + 10\<rparr>
               else s\<lparr>obstacles := (obstacles s)[i := ob1]\<rparr>))"

definition move_obstacles :: "int \<Rightarrow> RaceGameState \<Rightarrow> RaceGameState" where
  "move_obstacles spd s = fold (move_obstacle_step spd) [0..<MAX_OBS] s"

definition move_coin :: "int \<Rightarrow> Coin \<Rightarrow> Coin" where
  "move_coin spd c =
     (if c_alive c
      then (let c1 = c\<lparr>c_y := c_y c + word_of_int spd\<rparr>
            in if sint (c_y c1) > SCREEN_H then c1\<lparr>c_alive := False\<rparr> else c1)
      else c)"

definition move_coins :: "int \<Rightarrow> RaceGameState \<Rightarrow> RaceGameState" where
  "move_coins spd s =
     fold (\<lambda>i s. s\<lparr>coins := (coins s)[i := move_coin spd (coins s ! i)]\<rparr>) [0..<MAX_COINS] s"

definition move_powerup :: "int \<Rightarrow> PowerUp \<Rightarrow> PowerUp" where
  "move_powerup spd p =
     (if p_alive p
      then (let p1 = p\<lparr>p_y := p_y p + word_of_int spd\<rparr>
            in if sint (p_y p1) > SCREEN_H then p1\<lparr>p_alive := False\<rparr> else p1)
      else p)"

definition move_powerups :: "int \<Rightarrow> RaceGameState \<Rightarrow> RaceGameState" where
  "move_powerups spd s =
     fold (\<lambda>i s. s\<lparr>powerups := (powerups s)[i := move_powerup spd (powerups s ! i)]\<rparr>)
          [0..<MAX_POWERUPS] s"

text \<open>
  \<^verbatim>\<open>s->tick_count % si\<close>: the \<^verbatim>\<open>uint8_t\<close> \<^verbatim>\<open>si\<close> is converted to the 32-bit unsigned type of
  \<^verbatim>\<open>tick_count\<close> and the remainder is taken there.
\<close>

definition spawn_phase :: "(nat \<Rightarrow> nat) \<Rightarrow> RaceGameState \<Rightarrow> RaceGameState" where
  "spawn_phase rnd s =
     (let si = diff_spawn (difficulty s);
          s1 = (if tick_count s mod ucast si = 0 then spawn_obstacle rnd s else s);
          s2 = (if tick_count s1 mod 18 = 0 then spawn_coin rnd s1 else s1)
      in (if tick_count s2 mod 60 = 0 then spawn_powerup rnd s2 else s2))"

text \<open>
  The collision block. The second component is \<open>True\<close> when the block ends in the
  \<^verbatim>\<open>return\<close> of the game-over branch, so that \<^verbatim>\<open>game_tick\<close> skips the level-up block.
\<close>

definition resolve_collision :: "(nat \<Rightarrow> nat) \<Rightarrow> bool \<Rightarrow> RaceGameState \<Rightarrow> RaceGameState \<times> bool" where
  "resolve_collision rnd storage_ok s =
     (if invincible_ticks s = 0 \<and> shield_ticks s = 0 \<and> check_collision s
      then (let s1 = s\<lparr>lives := lives s - 1\<rparr>;
                s2 = s1\<lparr>combo := 0\<rparr>;
                s3 = spawn_particles rnd (car_lx (player_lane s2) + CAR_W div 2)
                                     (PLAYER_Y + CAR_H div 2) s2
            in if lives s3 = 0
               then (save_high_score storage_ok (s3\<lparr>state := StateGameOver, timer := None\<rparr>), True)
               else (s3\<lparr>invincible_ticks := 20\<rparr>, False))
      else (s, False))"

definition level_up :: "RaceGameState \<Rightarrow> RaceGameState" where
  "level_up s =
     (let nl = (ucast (score s div 200) :: 8 word);
          nl = (if nl > 9 then 9 else nl)
      in if nl > level s
         then (let s1 = s\<lparr>level := nl\<rparr>;
                   min_spd = (word_of_int (diff_min_speed (difficulty s1)) :: 16 word);
                   s2 = s1\<lparr>speed := word_of_int (diff_speed (difficulty s1) - uint (level s1) * 8)\<rparr>;
                   s3 = (if speed s2 < min_spd then s2\<lparr>speed := min_spd\<rparr> else s2)
               in s3\<lparr>timer := Some (speed s3)\<rparr>)
         else s)"

text \<open>Everything \<^verbatim>\<open>game_tick\<close> does in the Playing state before the collision block.\<close>

definition advance :: "(nat \<Rightarrow> nat) \<Rightarrow> RaceGameState \<Rightarrow> RaceGameState" where
  "advance rnd s =
     (let s1 = tick_counters s;
          s2 = update_particles s1;
          s3 = move_scenery rnd s2;
          spd = base_spd s3;
          s4 = move_obstacles spd s3;
          s5 = move_coins spd s4;
          s6 = move_powerups spd s5;
          s7 = spawn_phase rnd s6
      in check_collections s7)"

definition game_tick :: "(nat \<Rightarrow> nat) \<Rightarrow> bool \<Rightarrow> RaceGameState \<Rightarrow> RaceGameState" where
  "game_tick rnd storage_ok s =
     (if state s \<noteq> StatePlaying then s
      else (case resolve_collision rnd storage_ok (advance rnd s) of
              (s1, returned) \<Rightarrow> if returned then s1 else level_up s1))"

subsection \<open>Main loop\<close>

text \<open>
  Modelled from the spec: the declarations of \<^verbatim>\<open>InputKey\<close> and \<^verbatim>\<open>InputType\<close> come from the
  firmware header \<^verbatim>\<open>input/input.h\<close>, which is not part of the repository. The spec lists
  the logical keys Up, Down, Left, Right, Ok, Back and the press, repeat and release
  discrimination.
\<close>

datatype InputKey = InputKeyUp | InputKeyDown | InputKeyRight | InputKeyLeft | InputKeyOk | InputKeyBack
datatype InputType = InputTypePress | InputTypeRelease | InputTypeRepeat
datatype GameEvent = EventTypeTick | EventTypeKey InputType InputKey

text \<open>C's \<^verbatim>\<open>%\<close> on \<^verbatim>\<open>int\<close> truncates towards zero.\<close>

definition c_rem :: "int \<Rightarrow> int \<Rightarrow> int" where
  "c_rem a b = sgn a * (\<bar>a\<bar> mod \<bar>b\<bar>)"

fun next_difficulty :: "Difficulty \<Rightarrow> Difficulty" where
  "next_difficulty DiffEasy = DiffNormal"
| "next_difficulty DiffNormal = DiffHard"
| "next_difficulty DiffHard = DiffEasy"

definition handle_key :: "(nat \<Rightarrow> nat) \<Rightarrow> InputKey \<Rightarrow> RaceGameState \<Rightarrow> RaceGameState" where
  "handle_key rnd k s =
     (case k of
        InputKeyBack \<Rightarrow>
          (if state s = StatePlaying then s\<lparr>timer := None, state := StateMenu\<rparr>
           else s\<lparr>running := False\<rparr>)
      | InputKeyOk \<Rightarrow>
          (if state s = StateMenu
           then (if menu_idx s = 0 then game_init rnd s
                 else if menu_idx s = 1 then s\<lparr>sound_on := \<not> sound_on s\<rparr>
                 else if menu_idx s = 2 then s\<lparr>night_mode := \<not> night_mode s\<rparr>
                 else if menu_idx s = 3 then s\<lparr>difficulty := next_difficulty (difficulty s)\<rparr>
                 else s)
           else if state s = StateGameOver then s\<lparr>state := StateMenu\<rparr>
           else s)
      | InputKeyUp \<Rightarrow>
          (if state s = StateMenu
           then (let s1 = s\<lparr>menu_idx := menu_idx s - 1\<rparr>
                 in if sint (menu_idx s1) < 0 then s1\<lparr>menu_idx := 3\<rparr> else s1)
           else s)
      | InputKeyDown \<Rightarrow>
          (if state s = StateMenu
           then s\<lparr>menu_idx := word_of_int (c_rem (sint (menu_idx s) + 1) 4)\<rparr>
           else s)
      | InputKeyLeft \<Rightarrow>
          (if state s = StatePlaying \<and> sint (player_lane s) > 0
           then s\<lparr>player_lane := player_lane s - 1\<rparr> else s)
      | InputKeyRight \<Rightarrow>
          (if state s = StatePlaying \<and> sint (player_lane s) < int LANE_COUNT - 1
           then s\<lparr>player_lane := player_lane s + 1\<rparr> else s))"

text \<open>
  One iteration of the \<^verbatim>\<open>while(running)\<close> loop of \<^verbatim>\<open>race_game_app\<close> on the event taken from
  the queue; once \<^verbatim>\<open>running\<close> is false the loop has ended and no event is handled.
\<close>

definition handle_event :: "(nat \<Rightarrow> nat) \<Rightarrow> bool \<Rightarrow> GameEvent \<Rightarrow> RaceGameState \<Rightarrow> RaceGameState" where
  "handle_event rnd storage_ok ev s =
     (if \<not> running s then s
      else (case ev of
              EventTypeKey ty k \<Rightarrow>
                (if ty = InputTypePress \<or> ty = InputTypeRepeat then handle_key rnd k s else s)
            | EventTypeTick \<Rightarrow> game_tick rnd storage_ok s))"

text \<open>
  The state \<^verbatim>\<open>race_game_app\<close> builds before its loop: \<^verbatim>\<open>memset\<close> to zero, the five
  assignments, and \<^verbatim>\<open>load_high_score\<close>, which leaves \<open>0\<close> unless the file opens. \<open>file\<close> is the
  content of the high-score file at start.
\<close>

definition load_high_score :: "bool \<Rightarrow> RaceGameState \<Rightarrow> RaceGameState" where
  "load_high_score storage_ok s =
     (let s1 = s\<lparr>high_score := 0\<rparr>
      in if storage_ok then (case hs_file s1 of Some v \<Rightarrow> s1\<lparr>high_score := v\<rparr> | None \<Rightarrow> s1)
         else s1)"

definition zero_state :: "32 word option \<Rightarrow> RaceGameState" where
  "zero_state file =
     \<lparr>state = StateMenu, player_lane = 0, score = 0, high_score = 0, level = 0, lives = 0,
      speed = 0, tick_count = 0, road_scroll = 0, night_mode = False, sound_on = False,
      menu_idx = 0, difficulty = DiffEasy, invincible_ticks = 0, shield_ticks = 0,
      magnet_ticks = 0, combo = 0, combo_display = 0,
      obstacles = replicate MAX_OBS \<lparr>o_lane = 0, o_y = 0, o_alive = False, o_type = ObsMoto\<rparr>,
      coins = replicate MAX_COINS \<lparr>c_lane = 0, c_y = 0, c_alive = False\<rparr>,
      powerups = replicate MAX_POWERUPS \<lparr>p_lane = 0, p_y = 0, p_alive = False, p_type = PwShield\<rparr>,
      scenery = replicate MAX_SCENERY \<lparr>sc_y = 0, sc_side = 0, sc_type = 0\<rparr>,
      particles = replicate MAX_PARTICLES \<lparr>pt_x = 0, pt_y = 0, pt_dx = 0, pt_dy = 0, pt_life = 0\<rparr>,
      timer = None, rand_idx = 0, hs_file = file, running = True\<rparr>"

definition app_start :: "bool \<Rightarrow> 32 word option \<Rightarrow> RaceGameState" where
  "app_start storage_ok file =
     load_high_score storage_ok
       ((zero_state file)\<lparr>state := StateMenu, sound_on := True, night_mode := False,
                          difficulty := DiffNormal, menu_idx := 0, lives := INITIAL_LIVES\<rparr>)"

text \<open>The states the program can be in: the start state and whatever events lead to.\<close>

inductive reachable :: "RaceGameState \<Rightarrow> bool" where
  start: "reachable (app_start storage_ok file)"
| event: "reachable s \<Longrightarrow> reachable (handle_event rnd storage_ok ev s)"

subsection \<open>Predicates used in the statements\<close>

text \<open>
  A particle of a burst at \<open>(cx, cy)\<close>: placed there, with the life \<^verbatim>\<open>8 + rand() % 5\<close> that
  \<^verbatim>\<open>spawn_particles\<close> gives it.
\<close>

definition burst_at :: "int \<Rightarrow> int \<Rightarrow> Particle \<Rightarrow> bool" where
  "burst_at cx cy p = (pt_x p = word_of_int cx \<and> pt_y p = word_of_int cy \<and> 8 \<le> pt_life p \<and> pt_life p \<le> 12)"

text \<open>The level index the spec asks for: \<open>min(floor(score / 200), 9)\<close>.\<close>

definition level_ok :: "RaceGameState \<Rightarrow> bool" where
  "level_ok s = (unat (level s) = min (unat (score s) div 200) 9)"

text \<open>
  The invariant behind the range of \<open>lives\<close>: at most \<^verbatim>\<open>MAX_LIVES\<close>, and at least one while
  the session is in the Playing state.
\<close>

definition lives_inv :: "RaceGameState \<Rightarrow> bool" where
  "lives_inv s = (lives s \<le> MAX_LIVES \<and> (state s = StatePlaying \<longrightarrow> 1 \<le> lives s))"

text \<open>Every Wide obstacle of a pool, active or not, has the centre lane.\<close>

definition truck_centred :: "Obstacle list \<Rightarrow> bool" where
  "truck_centred obs = (\<forall>ob \<in> set obs. o_type ob = ObsTruck \<longrightarrow> o_lane ob = 1)"

text \<open>
  The obstacle move loop retires an obstacle: it is active and, after its move, its
  vertical offset is beyond \<^verbatim>\<open>SCREEN_H + oh\<close>.
\<close>

definition obstacle_retires :: "int \<Rightarrow> Obstacle \<Rightarrow> bool" where
  "obstacle_retires spd ob =
     (o_alive ob \<and> sint (o_y ob + word_of_int (obs_move spd ob)) > SCREEN_H + retire_oh ob)"

subsection \<open>Concrete states\<close>

text \<open>A random oracle that always returns \<open>0\<close>.\<close>

definition rnd0 :: "nat \<Rightarrow> nat" where
  "rnd0 n = 0"

text \<open>A random oracle that always returns \<open>1\<close>.\<close>

definition rnd1 :: "nat \<Rightarrow> nat" where
  "rnd1 n = 1"

text \<open>
  A state in the middle of an episode at normal difficulty: player in the centre lane,
  three lives, every pool empty. Tick 291 is no spawn tick of any pool.
\<close>

definition play0 :: RaceGameState where
  "play0 = (zero_state None)\<lparr>state := StatePlaying, player_lane := 1, lives := 3, speed := 120,
              sound_on := True, difficulty := DiffNormal, timer := Some 120, tick_count := 290\<rparr>"

text \<open>One life left and a sedan in the player's lane that overlaps the player after its move.\<close>

definition c2_fatal :: RaceGameState where
  "c2_fatal = play0\<lparr>lives := 1, score := 190,
       obstacles := (obstacles play0)[0 := \<lparr>o_lane = 1, o_y = 99, o_alive = True, o_type = ObsSedan\<rparr>]\<rparr>"

text \<open>Invincible for five more ticks, with the same sedan.\<close>

definition c2_shielded :: RaceGameState where
  "c2_shielded = play0\<lparr>invincible_ticks := 5,
       obstacles := (obstacles play0)[0 := \<lparr>o_lane = 1, o_y = 99, o_alive = True, o_type = ObsSedan\<rparr>]\<rparr>"

text \<open>Three lives and a sedan that already overlaps the player.\<close>

definition c2_hit :: RaceGameState where
  "c2_hit = play0\<lparr>obstacles := (obstacles play0)[0 := \<lparr>o_lane = 1, o_y = 102, o_alive = True, o_type = ObsSedan\<rparr>]\<rparr>"

text \<open>One life and a sedan that already overlaps the player.\<close>

definition c2_last :: RaceGameState where
  "c2_last = c2_hit\<lparr>lives := 1\<rparr>"

text \<open>
  One life left, score 190 at level 0: a sedan in the player's lane that overlaps the
  player after its move, and a sedan in the left lane that leaves the track on this tick.
\<close>

definition c1_over :: RaceGameState where
  "c1_over = c2_fatal\<lparr>obstacles := (obstacles c2_fatal)[1 :=
       \<lparr>o_lane = 0, o_y = 138, o_alive = True, o_type = ObsSedan\<rparr>]\<rparr>"

text \<open>Three lives, score 190 at level 0, and only the sedan that leaves the track.\<close>

definition c1_up :: RaceGameState where
  "c1_up = play0\<lparr>score := 190, obstacles := (obstacles play0)[1 :=
       \<lparr>o_lane = 0, o_y = 138, o_alive = True, o_type = ObsSedan\<rparr>]\<rparr>"

text \<open>The start state after Ok on the menu entry START.\<close>

definition c3_started :: RaceGameState where
  "c3_started = handle_event rnd0 True (EventTypeKey InputTypePress InputKeyOk) (app_start True None)"

text \<open>Five lives and a Refuel power-up on the player.\<close>

definition c3_refuel :: RaceGameState where
  "c3_refuel = play0\<lparr>lives := 5, powerups := (powerups play0)[0 :=
       \<lparr>p_lane = 1, p_y = 100, p_alive = True, p_type = PwFuel\<rparr>]\<rparr>"

text \<open>Start of an episode (combo 0) with a coin on the player.\<close>

definition c4_first :: RaceGameState where
  "c4_first = play0\<lparr>coins := (coins play0)[0 := \<lparr>c_lane = 1, c_y = 102, c_alive = True\<rparr>]\<rparr>"

text \<open>
  The magnet is on and the coin does not touch the player (centre lane): a coin above the
  player's row in the left lane, one below it in the right lane, one above it in the
  player's own lane, and one exactly on the player's row in the left lane.
\<close>

definition c6_above :: RaceGameState where
  "c6_above = play0\<lparr>magnet_ticks := 5,
       coins := (coins play0)[0 := \<lparr>c_lane = 0, c_y = 90, c_alive = True\<rparr>]\<rparr>"

definition c6_below :: RaceGameState where
  "c6_below = play0\<lparr>magnet_ticks := 5,
       coins := (coins play0)[0 := \<lparr>c_lane = 2, c_y = 120, c_alive = True\<rparr>]\<rparr>"

definition c6_same :: RaceGameState where
  "c6_same = play0\<lparr>magnet_ticks := 5,
       coins := (coins play0)[0 := \<lparr>c_lane = 1, c_y = 90, c_alive = True\<rparr>]\<rparr>"

definition c6_row :: RaceGameState where
  "c6_row = play0\<lparr>magnet_ticks := 5,
       coins := (coins play0)[0 := \<lparr>c_lane = 0, c_y = 105, c_alive = True\<rparr>]\<rparr>"

text \<open>
  Late in an episode: combo 255 after 255 coins without a hit, level 9, and a coin in the
  player's lane that overlaps the player after its move. No obstacle is active.
\<close>

definition c8_wrap :: RaceGameState where
  "c8_wrap = play0\<lparr>combo := 255, level := 9, score := 816000, speed := 50, timer := Some 50,
       tick_count := 5000,
       coins := (coins play0)[0 := \<lparr>c_lane = 1, c_y = 95, c_alive = True\<rparr>]\<rparr>"

text \<open>Every slot of every pool active, on a tick count that is a multiple of 12, 18 and 60.\<close>

definition c9_full :: RaceGameState where
  "c9_full = play0\<lparr>tick_count := 360,
       obstacles := [\<lparr>o_lane = 0, o_y = 126, o_alive = True, o_type = ObsSedan\<rparr>,
                     \<lparr>o_lane = 2, o_y = 90, o_alive = True, o_type = ObsSedan\<rparr>,
                     \<lparr>o_lane = 0, o_y = 54, o_alive = True, o_type = ObsMoto\<rparr>,
                     \<lparr>o_lane = 2, o_y = 18, o_alive = True, o_type = ObsSedan\<rparr>,
                     \<lparr>o_lane = 0, o_y = - 18, o_alive = True, o_type = ObsSedan\<rparr>],
       coins := [\<lparr>c_lane = 0, c_y = 96, c_alive = True\<rparr>,
                 \<lparr>c_lane = 2, c_y = 42, c_alive = True\<rparr>,
                 \<lparr>c_lane = 0, c_y = - 12, c_alive = True\<rparr>],
       powerups := [\<lparr>p_lane = 2, p_y = 60, p_alive = True, p_type = PwShield\<rparr>,
                    \<lparr>p_lane = 0, p_y = - 12, p_alive = True, p_type = PwMagnet\<rparr>]\<rparr>"

text \<open>Level 5 with every pool empty, and the same with a boss truck on the track.\<close>

definition c7_boss :: RaceGameState where
  "c7_boss = play0\<lparr>level := 5, score := 1000, speed := 80, timer := Some 80, tick_count := 611\<rparr>"

definition c7_truck :: RaceGameState where
  "c7_truck = c7_boss\<lparr>obstacles := (obstacles c7_boss)[0 :=
       \<lparr>o_lane = 1, o_y = 30, o_alive = True, o_type = ObsTruck\<rparr>]\<rparr>"

text \<open>
  Level 0, player in the centre lane. In the left lane a coin at \<open>y = 127\<close> and a sedan at
  \<open>y = 130\<close>; in the right lane a power-up at \<open>y = 50\<close>.
\<close>

definition c5_exit :: RaceGameState where
  "c5_exit = play0\<lparr>
       obstacles := (obstacles play0)[0 := \<lparr>o_lane = 0, o_y = 130, o_alive = True, o_type = ObsSedan\<rparr>],
       coins := (coins play0)[0 := \<lparr>c_lane = 0, c_y = 127, c_alive = True\<rparr>],
       powerups := (powerups play0)[0 := \<lparr>p_lane = 2, p_y = 50, p_alive = True, p_type = PwShield\<rparr>]\<rparr>"

text \<open>Three lives, and a sedan and a moto that both overlap the player after their moves.\<close>

definition c10_two :: RaceGameState where
  "c10_two = play0\<lparr>obstacles := (obstacles play0)
       [0 := \<lparr>o_lane = 1, o_y = 99, o_alive = True, o_type = ObsSedan\<rparr>,
        1 := \<lparr>o_lane = 1, o_y = 104, o_alive = True, o_type = ObsMoto\<rparr>]\<rparr>"

text \<open>
  The full pools of \<open>c9_full\<close> one cadence later, after the first entity of each pool has
  retired: slot \<open>0\<close> of every pool is free on a tick count that is a multiple of 12, 18
  and 60.
\<close>

definition c9_retry :: RaceGameState where
  "c9_retry = c9_full\<lparr>tick_count := 720,
       obstacles := (obstacles c9_full)[0 := (obstacles c9_full ! 0)\<lparr>o_alive := False\<rparr>],
       coins := (coins c9_full)[0 := (coins c9_full ! 0)\<lparr>c_alive := False\<rparr>],
       powerups := (powerups c9_full)[0 := (powerups c9_full ! 0)\<lparr>p_alive := False\<rparr>]\<rparr>"

section \<open>Auxiliary lemmas\<close>

subsection \<open>Loops and words\<close>

lemma fold_preserves:
  assumes "P s" and "\<And>i s. P s \<Longrightarrow> P (f i s)"
  shows "P (fold f xs s)"
  using assms(1) by (induction xs arbitrary: s) (simp_all add: assms(2))

lemma unat_add_le: "unat (a + b) \<le> unat a + unat (b :: 'a::len word)"
  by (simp add: unat_word_ariths)

lemma fold_nth_other:
  assumes "k \<notin> set xs"
    and "\<And>j s. j \<noteq> k \<Longrightarrow> get (f j s) ! k = get s ! k"
  shows "get (fold f xs s) ! k = get s ! k"
  using assms(1) by (induction xs arbitrary: s) (auto simp: assms(2))

lemma fold_nth:
  assumes "distinct xs" "k \<in> set xs" "k < length (get s)" "R s" "get s ! k = c"
    and other: "\<And>j s. j \<noteq> k \<Longrightarrow> get (f j s) ! k = get s ! k"
    and len: "\<And>j s. length (get (f j s)) = length (get s)"
    and inv: "\<And>j s. R s \<Longrightarrow> R (f j s)"
    and hit: "\<And>s. R s \<Longrightarrow> k < length (get s) \<Longrightarrow> get s ! k = c \<Longrightarrow> get (f k s) ! k = v"
  shows "get (fold f xs s) ! k = v"
  using assms(1-5)
proof (induction xs arbitrary: s)
  case Nil
  then show ?case by simp
next
  case (Cons x xs)
  show ?case
  proof (cases "x = k")
    case True
    with Cons.prems have "k \<notin> set xs" by simp
    then have "get (fold f xs (f k s)) ! k = get (f k s) ! k"
      by (rule fold_nth_other) (rule other)
    with True hit [OF Cons.prems(4,3,5)] show ?thesis by simp
  next
    case False
    with Cons.prems have "k \<in> set xs" "distinct xs" by simp_all
    moreover have "k < length (get (f x s))" "R (f x s)" "get (f x s) ! k = c"
      using Cons.prems False by (simp_all add: len inv other)
    ultimately have "get (fold f xs (f x s)) ! k = v"
      using Cons.IH [of "f x s"] by simp
    then show ?thesis by simp
  qed
qed

lemma sint16_add:
  assumes "- 32768 \<le> sint (w :: 16 word) + k" "sint w + k < 32768"
  shows "sint (w + word_of_int k) = sint w + k"
proof -
  have "w + word_of_int k = word_of_int (sint w + k)" by simp
  then have "sint (w + word_of_int k) = signed_take_bit 15 (sint w + k)"
    by (simp only: sint_sbintrunc') simp
  also have "\<dots> = sint w + k"
    using assms by (simp add: signed_take_bit_int_eq_self)
  finally show ?thesis .
qed

lemma sint8_add:
  assumes "- 128 \<le> sint (w :: 8 word) + k" "sint w + k < 128"
  shows "sint (w + word_of_int k) = sint w + k"
proof -
  have "w + word_of_int k = word_of_int (sint w + k)" by simp
  then have "sint (w + word_of_int k) = signed_take_bit 7 (sint w + k)"
    by (simp only: sint_sbintrunc') simp
  also have "\<dots> = sint w + k"
    using assms by (simp add: signed_take_bit_int_eq_self)
  finally show ?thesis .
qed

lemma all_less_5: "(\<forall>i<5::nat. P i) \<longleftrightarrow> P 0 \<and> P 1 \<and> P 2 \<and> P 3 \<and> P 4"
proof -
  have "i < 5 \<longleftrightarrow> i = 0 \<or> i = 1 \<or> i = 2 \<or> i = 3 \<or> i = 4" for i :: nat by auto
  then show ?thesis by auto
qed

lemma all_less_3: "(\<forall>i<3::nat. P i) \<longleftrightarrow> P 0 \<and> P 1 \<and> P 2"
proof -
  have "i < 3 \<longleftrightarrow> i = 0 \<or> i = 1 \<or> i = 2" for i :: nat by auto
  then show ?thesis by auto
qed

lemma all_less_2: "(\<forall>i<2::nat. P i) \<longleftrightarrow> P 0 \<and> P 1"
proof -
  have "i < 2 \<longleftrightarrow> i = 0 \<or> i = 1" for i :: nat by auto
  then show ?thesis by auto
qed

lemma all_less_1: "(\<forall>i<1::nat. P i) \<longleftrightarrow> P 0"
  by auto

subsection \<open>What each block leaves unchanged\<close>

lemma frame_tick_counters [simp]:
  "lives (tick_counters s) = lives s" "state (tick_counters s) = state s"
  "level (tick_counters s) = level s" "high_score (tick_counters s) = high_score s"
  "score (tick_counters s) = score s" "combo (tick_counters s) = combo s"
  "obstacles (tick_counters s) = obstacles s" "difficulty (tick_counters s) = difficulty s"
  "player_lane (tick_counters s) = player_lane s" "hs_file (tick_counters s) = hs_file s"
  by (simp_all add: tick_counters_def Let_def)

lemma frame_update_particles [simp]:
  "lives (update_particles s) = lives s" "state (update_particles s) = state s"
  "level (update_particles s) = level s" "high_score (update_particles s) = high_score s"
  "score (update_particles s) = score s" "combo (update_particles s) = combo s"
  "obstacles (update_particles s) = obstacles s" "difficulty (update_particles s) = difficulty s"
  "player_lane (update_particles s) = player_lane s" "hs_file (update_particles s) = hs_file s"
  unfolding update_particles_def by (rule fold_preserves; simp)+

lemma frame_move_scenery [simp]:
  "lives (move_scenery rnd s) = lives s" "state (move_scenery rnd s) = state s"
  "level (move_scenery rnd s) = level s" "high_score (move_scenery rnd s) = high_score s"
  "score (move_scenery rnd s) = score s" "combo (move_scenery rnd s) = combo s"
  "obstacles (move_scenery rnd s) = obstacles s" "difficulty (move_scenery rnd s) = difficulty s"
  "player_lane (move_scenery rnd s) = player_lane s" "hs_file (move_scenery rnd s) = hs_file s"
  unfolding move_scenery_def
  by (rule fold_preserves; simp add: scenery_step_def Let_def rand_used_def)+

lemma frame_move_obstacles [simp]:
  "lives (move_obstacles spd s) = lives s" "state (move_obstacles spd s) = state s"
  "level (move_obstacles spd s) = level s" "high_score (move_obstacles spd s) = high_score s"
  "combo (move_obstacles spd s) = combo s" "difficulty (move_obstacles spd s) = difficulty s"
  "player_lane (move_obstacles spd s) = player_lane s" "hs_file (move_obstacles spd s) = hs_file s"
  "coins (move_obstacles spd s) = coins s" "powerups (move_obstacles spd s) = powerups s"
  unfolding move_obstacles_def
  by (rule fold_preserves; simp add: move_obstacle_step_def Let_def)+

lemma frame_move_coins [simp]:
  "lives (move_coins spd s) = lives s" "state (move_coins spd s) = state s"
  "level (move_coins spd s) = level s" "high_score (move_coins spd s) = high_score s"
  "score (move_coins spd s) = score s" "combo (move_coins spd s) = combo s"
  "obstacles (move_coins spd s) = obstacles s" "difficulty (move_coins spd s) = difficulty s"
  "player_lane (move_coins spd s) = player_lane s" "hs_file (move_coins spd s) = hs_file s"
  "powerups (move_coins spd s) = powerups s"
  unfolding move_coins_def by (rule fold_preserves; simp)+

lemma frame_move_powerups [simp]:
  "lives (move_powerups spd s) = lives s" "state (move_powerups spd s) = state s"
  "level (move_powerups spd s) = level s" "high_score (move_powerups spd s) = high_score s"
  "score (move_powerups spd s) = score s" "combo (move_powerups spd s) = combo s"
  "obstacles (move_powerups spd s) = obstacles s" "difficulty (move_powerups spd s) = difficulty s"
  "player_lane (move_powerups spd s) = player_lane s" "hs_file (move_powerups spd s) = hs_file s"
  "coins (move_powerups spd s) = coins s"
  unfolding move_powerups_def by (rule fold_preserves; simp)+

lemma frame_new_obstacle [simp]:
  "lives (new_obstacle rnd i s) = lives s" "state (new_obstacle rnd i s) = state s"
  "level (new_obstacle rnd i s) = level s" "high_score (new_obstacle rnd i s) = high_score s"
  "score (new_obstacle rnd i s) = score s" "combo (new_obstacle rnd i s) = combo s"
  "difficulty (new_obstacle rnd i s) = difficulty s" "tick_count (new_obstacle rnd i s) = tick_count s"
  "player_lane (new_obstacle rnd i s) = player_lane s" "hs_file (new_obstacle rnd i s) = hs_file s"
  "coins (new_obstacle rnd i s) = coins s" "powerups (new_obstacle rnd i s) = powerups s"
  by (simp_all add: new_obstacle_def Let_def rand_used_def)

lemma frame_spawn_obstacle_loop [simp]:
  "lives (spawn_obstacle_loop rnd xs s) = lives s" "state (spawn_obstacle_loop rnd xs s) = state s"
  "level (spawn_obstacle_loop rnd xs s) = level s" "high_score (spawn_obstacle_loop rnd xs s) = high_score s"
  "score (spawn_obstacle_loop rnd xs s) = score s" "combo (spawn_obstacle_loop rnd xs s) = combo s"
  "difficulty (spawn_obstacle_loop rnd xs s) = difficulty s" "tick_count (spawn_obstacle_loop rnd xs s) = tick_count s"
  "player_lane (spawn_obstacle_loop rnd xs s) = player_lane s" "hs_file (spawn_obstacle_loop rnd xs s) = hs_file s"
  "coins (spawn_obstacle_loop rnd xs s) = coins s" "powerups (spawn_obstacle_loop rnd xs s) = powerups s"
  by (induction xs; simp)+

lemma frame_spawn_coin_loop [simp]:
  "lives (spawn_coin_loop rnd xs s) = lives s" "state (spawn_coin_loop rnd xs s) = state s"
  "level (spawn_coin_loop rnd xs s) = level s" "high_score (spawn_coin_loop rnd xs s) = high_score s"
  "score (spawn_coin_loop rnd xs s) = score s" "combo (spawn_coin_loop rnd xs s) = combo s"
  "difficulty (spawn_coin_loop rnd xs s) = difficulty s" "tick_count (spawn_coin_loop rnd xs s) = tick_count s"
  "player_lane (spawn_coin_loop rnd xs s) = player_lane s" "hs_file (spawn_coin_loop rnd xs s) = hs_file s"
  "obstacles (spawn_coin_loop rnd xs s) = obstacles s" "powerups (spawn_coin_loop rnd xs s) = powerups s"
  by (induction xs; simp add: new_coin_def rand_used_def)+

lemma frame_spawn_powerup_loop [simp]:
  "lives (spawn_powerup_loop rnd xs s) = lives s" "state (spawn_powerup_loop rnd xs s) = state s"
  "level (spawn_powerup_loop rnd xs s) = level s" "high_score (spawn_powerup_loop rnd xs s) = high_score s"
  "score (spawn_powerup_loop rnd xs s) = score s" "combo (spawn_powerup_loop rnd xs s) = combo s"
  "difficulty (spawn_powerup_loop rnd xs s) = difficulty s" "tick_count (spawn_powerup_loop rnd xs s) = tick_count s"
  "player_lane (spawn_powerup_loop rnd xs s) = player_lane s" "hs_file (spawn_powerup_loop rnd xs s) = hs_file s"
  "obstacles (spawn_powerup_loop rnd xs s) = obstacles s" "coins (spawn_powerup_loop rnd xs s) = coins s"
  by (induction xs; simp add: new_powerup_def rand_used_def)+

lemma frame_spawn_phase [simp]:
  "lives (spawn_phase rnd s) = lives s" "state (spawn_phase rnd s) = state s"
  "level (spawn_phase rnd s) = level s" "high_score (spawn_phase rnd s) = high_score s"
  "score (spawn_phase rnd s) = score s" "combo (spawn_phase rnd s) = combo s"
  "difficulty (spawn_phase rnd s) = difficulty s" "tick_count (spawn_phase rnd s) = tick_count s"
  "player_lane (spawn_phase rnd s) = player_lane s" "hs_file (spawn_phase rnd s) = hs_file s"
  by (simp_all add: spawn_phase_def Let_def spawn_obstacle_def spawn_coin_def spawn_powerup_def)

lemma frame_spawn_particles [simp]:
  "lives (spawn_particles rnd cx cy s) = lives s" "state (spawn_particles rnd cx cy s) = state s"
  "level (spawn_particles rnd cx cy s) = level s" "high_score (spawn_particles rnd cx cy s) = high_score s"
  "score (spawn_particles rnd cx cy s) = score s" "combo (spawn_particles rnd cx cy s) = combo s"
  "obstacles (spawn_particles rnd cx cy s) = obstacles s" "difficulty (spawn_particles rnd cx cy s) = difficulty s"
  "player_lane (spawn_particles rnd cx cy s) = player_lane s" "hs_file (spawn_particles rnd cx cy s) = hs_file s"
  "timer (spawn_particles rnd cx cy s) = timer s" "invincible_ticks (spawn_particles rnd cx cy s) = invincible_ticks s"
  "shield_ticks (spawn_particles rnd cx cy s) = shield_ticks s"
  unfolding spawn_particles_def
  by (rule fold_preserves; simp add: spawn_particle_def rand_used_def)+

lemma frame_coin_step [simp]:
  "lives (coin_step px i s) = lives s" "state (coin_step px i s) = state s"
  "level (coin_step px i s) = level s" "high_score (coin_step px i s) = high_score s"
  "obstacles (coin_step px i s) = obstacles s" "difficulty (coin_step px i s) = difficulty s"
  "player_lane (coin_step px i s) = player_lane s" "hs_file (coin_step px i s) = hs_file s"
  "powerups (coin_step px i s) = powerups s" "magnet_ticks (coin_step px i s) = magnet_ticks s"
  by (simp_all add: coin_step_def collect_coin_def Let_def)

lemma frame_powerup_step [simp]:
  "state (powerup_step px i s) = state s"
  "level (powerup_step px i s) = level s" "high_score (powerup_step px i s) = high_score s"
  "obstacles (powerup_step px i s) = obstacles s" "difficulty (powerup_step px i s) = difficulty s"
  "player_lane (powerup_step px i s) = player_lane s" "hs_file (powerup_step px i s) = hs_file s"
  "score (powerup_step px i s) = score s" "combo (powerup_step px i s) = combo s"
  "coins (powerup_step px i s) = coins s"
  by (simp_all add: powerup_step_def apply_powerup_def Let_def split: PowerUpType.split)

lemma frame_check_collections [simp]:
  "state (check_collections s) = state s"
  "level (check_collections s) = level s" "high_score (check_collections s) = high_score s"
  "obstacles (check_collections s) = obstacles s" "difficulty (check_collections s) = difficulty s"
  "player_lane (check_collections s) = player_lane s" "hs_file (check_collections s) = hs_file s"
  unfolding check_collections_def Let_def
  by (rule fold_preserves, rule fold_preserves; simp)+

lemma lives_powerup_step_le: "lives s \<le> lives (powerup_step px i s)"
  by (simp add: powerup_step_def apply_powerup_def Let_def split: PowerUpType.split)
     (auto simp: word_le_nat_alt word_less_nat_alt unat_word_ariths)

lemma lives_powerup_step_cap: "lives s \<le> 5 \<Longrightarrow> lives (powerup_step px i s) \<le> 5"
  by (simp add: powerup_step_def apply_powerup_def Let_def split: PowerUpType.split)
     (auto simp: word_le_nat_alt word_less_nat_alt unat_word_ariths)

lemma lives_check_collections_le: "lives s \<le> lives (check_collections s)"
proof -
  have "lives s \<le> lives (fold (powerup_step px) xs s')" if "lives s \<le> lives s'" for px xs s'
    using that
    by (rule fold_preserves [where P = "\<lambda>t. lives s \<le> lives t"])
       (erule order_trans, rule lives_powerup_step_le)
  moreover have "lives (fold (coin_step px) xs s) = lives s" for px xs
    by (rule fold_preserves) simp_all
  ultimately show ?thesis
    by (simp add: check_collections_def Let_def)
qed

lemma lives_check_collections_cap: "lives s \<le> 5 \<Longrightarrow> lives (check_collections s) \<le> 5"
proof -
  assume a: "lives s \<le> 5"
  have c: "lives (fold (coin_step px) xs s) = lives s" for px xs
    by (rule fold_preserves) simp_all
  show ?thesis
    unfolding check_collections_def Let_def
  proof (rule fold_preserves [where P = "\<lambda>t. lives t \<le> 5"])
    show "lives (fold (coin_step (car_lx (player_lane s))) [0..<MAX_COINS] s) \<le> 5"
      by (simp add: c a)
  qed (rule lives_powerup_step_cap)
qed

lemma frame_advance [simp]:
  "state (advance rnd s) = state s" "level (advance rnd s) = level s"
  "high_score (advance rnd s) = high_score s" "difficulty (advance rnd s) = difficulty s"
  "player_lane (advance rnd s) = player_lane s" "hs_file (advance rnd s) = hs_file s"
  by (simp_all add: advance_def Let_def)

lemma lives_advance_le: "lives s \<le> lives (advance rnd s)"
  using lives_check_collections_le [of "spawn_phase rnd
     (move_powerups (base_spd (move_scenery rnd (update_particles (tick_counters s))))
       (move_coins (base_spd (move_scenery rnd (update_particles (tick_counters s))))
         (move_obstacles (base_spd (move_scenery rnd (update_particles (tick_counters s))))
           (move_scenery rnd (update_particles (tick_counters s))))))"]
  by (simp add: advance_def Let_def)

lemma lives_advance_cap: "lives s \<le> 5 \<Longrightarrow> lives (advance rnd s) \<le> 5"
  unfolding advance_def Let_def by (rule lives_check_collections_cap) simp

lemma frame_save_high_score [simp]:
  "lives (save_high_score ok s) = lives s" "state (save_high_score ok s) = state s"
  "level (save_high_score ok s) = level s" "score (save_high_score ok s) = score s"
  "combo (save_high_score ok s) = combo s" "timer (save_high_score ok s) = timer s"
  "invincible_ticks (save_high_score ok s) = invincible_ticks s"
  "particles (save_high_score ok s) = particles s"
  by (simp_all add: save_high_score_def Let_def)

lemma frame_level_up [simp]:
  "lives (level_up s) = lives s" "state (level_up s) = state s"
  "score (level_up s) = score s" "high_score (level_up s) = high_score s"
  "combo (level_up s) = combo s" "hs_file (level_up s) = hs_file s"
  "invincible_ticks (level_up s) = invincible_ticks s" "obstacles (level_up s) = obstacles s"
  by (simp_all add: level_up_def Let_def)

lemma lives_resolve_collision:
  "lives (fst (resolve_collision rnd ok s)) = lives s \<or>
   lives (fst (resolve_collision rnd ok s)) = lives s - 1"
  by (simp add: resolve_collision_def Let_def)

subsection \<open>The collision block\<close>

lemma length_spawn_particle [simp]:
  "length (particles (spawn_particle rnd cx cy j s)) = length (particles s)"
  by (simp add: spawn_particle_def rand_used_def)

lemma life_range:
  "8 \<le> (word_of_nat (8 + r mod 5) :: 8 word) \<and> (word_of_nat (8 + r mod 5) :: 8 word) \<le> 12"
proof -
  define w where "w = (word_of_nat (8 + r mod 5) :: 8 word)"
  have u: "unat (word_of_nat n :: 8 word) = n" if "n < 256" for n
    using that by (simp add: unat_of_nat)
  have r: "r mod 5 < 5" by simp
  then have "8 + r mod 5 < 256" by linarith
  then have "unat w = 8 + r mod 5"
    unfolding w_def by (rule u)
  with r have "8 \<le> w \<and> w \<le> 12"
    by (simp add: word_le_nat_alt)
  then show ?thesis
    unfolding w_def .
qed

lemma burst_step_sets:
  "i < length (particles s) \<Longrightarrow> burst_at cx cy (particles (spawn_particle rnd cx cy i s) ! i)"
  using life_range by (simp add: spawn_particle_def rand_used_def burst_at_def)

lemma burst_step_keeps:
  "i < length (particles s) \<Longrightarrow> burst_at cx cy (particles s ! i) \<Longrightarrow>
   burst_at cx cy (particles (spawn_particle rnd cx cy j s) ! i)"
  using life_range
  by (cases "i = j") (simp_all add: spawn_particle_def rand_used_def burst_at_def)

lemma burst_fold:
  "i \<in> set xs \<Longrightarrow> i < length (particles s) \<Longrightarrow>
   burst_at cx cy (particles (fold (spawn_particle rnd cx cy) xs s) ! i)"
proof (induction xs arbitrary: s)
  case Nil
  then show ?case by simp
next
  case (Cons x xs)
  show ?case
  proof (cases "i \<in> set xs")
    case True
    with Cons show ?thesis by simp
  next
    case False
    with Cons.prems have x: "x = i" by simp
    have "i < length (particles t) \<and> burst_at cx cy (particles t ! i)"
      if "t = fold (spawn_particle rnd cx cy) xs (spawn_particle rnd cx cy i s)" for t
      unfolding that
      by (rule fold_preserves) (simp_all add: Cons.prems burst_step_sets burst_step_keeps)
    then show ?thesis by (simp add: x)
  qed
qed

lemma spawn_particles_burst:
  "i < MAX_PARTICLES \<Longrightarrow> i < length (particles s) \<Longrightarrow>
   burst_at cx cy (particles (spawn_particles rnd cx cy s) ! i)"
  unfolding spawn_particles_def by (rule burst_fold) simp_all

lemma resolve_ignored:
  "invincible_ticks s > 0 \<or> shield_ticks s > 0 \<Longrightarrow> resolve_collision rnd ok s = (s, False)"
  by (auto simp: resolve_collision_def)

subsection \<open>Score gained in one tick, and the level-up block\<close>

lemma fold_gain:
  assumes "\<And>i s. unat (score (f i s) - score s) \<le> b"
  shows "unat (score (fold f xs s) - score s) \<le> b * length xs"
proof (induction xs arbitrary: s)
  case Nil
  then show ?case by simp
next
  case (Cons x xs)
  have "score (fold f xs (f x s)) - score s =
        (score (fold f xs (f x s)) - score (f x s)) + (score (f x s) - score s)"
    by simp
  then have "unat (score (fold f xs (f x s)) - score s) \<le>
        unat (score (fold f xs (f x s)) - score (f x s)) + unat (score (f x s) - score s)"
    by (metis unat_add_le)
  also have "\<dots> \<le> b * length xs + b"
    using Cons.IH [of "f x s"] assms [of x s] by linarith
  finally show ?case by simp
qed

lemma gain_move_obstacle_step: "unat (score (move_obstacle_step spd i s) - score s) \<le> 10"
  by (simp add: move_obstacle_step_def Let_def)

lemma gain_move_obstacles: "unat (score (move_obstacles spd s) - score s) \<le> 50"
  using fold_gain [of "move_obstacle_step spd" 10 "[0..<MAX_OBS]" s, OF gain_move_obstacle_step]
  by (simp add: move_obstacles_def)

lemma unat_coin_pts: "unat (coin_pts c) \<le> 6375"
proof -
  have "unat c < 2 ^ LENGTH(8)" by (rule unsigned_less)
  then have "unat c < 256" by simp
  then have "25 * (if c > 1 then unat c else 1) \<le> 6375" by simp
  moreover have "unat (word_of_nat n :: 32 word) \<le> n" for n
    by (simp add: unat_of_nat)
  ultimately show ?thesis
    unfolding coin_pts_def using order_trans by blast
qed

lemma gain_coin_step: "unat (score (coin_step px i s) - score s) \<le> 6375"
  using unat_coin_pts by (simp add: coin_step_def collect_coin_def Let_def)

lemma score_powerup_fold: "score (fold (powerup_step px) xs s) = score s"
  by (rule fold_preserves) simp_all

lemma gain_check_collections: "unat (score (check_collections s) - score s) \<le> 19125"
  using fold_gain [of "coin_step (car_lx (player_lane s))" 6375 "[0..<MAX_COINS]" s, OF gain_coin_step]
  by (simp add: check_collections_def Let_def score_powerup_fold)

lemma gain_advance: "unat (score (advance rnd s) - score s) \<le> 19175"
proof -
  define s3 where "s3 = move_scenery rnd (update_particles (tick_counters s))"
  define s4 where "s4 = move_obstacles (base_spd s3) s3"
  define s7 where "s7 = spawn_phase rnd (move_powerups (base_spd s3) (move_coins (base_spd s3) s4))"
  have a: "advance rnd s = check_collections s7"
    by (simp add: advance_def Let_def s3_def s4_def s7_def)
  have 3: "score s3 = score s" by (simp add: s3_def)
  have 7: "score s7 = score s4" by (simp add: s7_def)
  have "score (advance rnd s) - score s = (score (check_collections s7) - score s7) + (score s4 - score s3)"
    by (simp add: a 3 7)
  then have "unat (score (advance rnd s) - score s) \<le>
      unat (score (check_collections s7) - score s7) + unat (score s4 - score s3)"
    by (metis unat_add_le)
  also have "\<dots> \<le> 19125 + 50"
    using gain_check_collections [of s7] gain_move_obstacles [of "base_spd s3" s3]
    unfolding s4_def by linarith
  finally show ?thesis by simp
qed

lemma score_resolve_collision [simp]: "score (fst (resolve_collision rnd ok s)) = score s"
  by (simp add: resolve_collision_def Let_def)

lemma level_resolve_collision [simp]: "level (fst (resolve_collision rnd ok s)) = level s"
  by (simp add: resolve_collision_def Let_def)

lemma state_resolve_collision:
  "snd (resolve_collision rnd ok s) \<Longrightarrow> state (fst (resolve_collision rnd ok s)) = StateGameOver"
  by (simp add: resolve_collision_def Let_def split: if_splits)

lemma level_level_up:
  "level (level_up s) =
     (let nl = (ucast (score s div 200) :: 8 word); nl = (if nl > 9 then 9 else nl)
      in if nl > level s then nl else level s)"
  by (simp add: level_up_def Let_def)

lemma level_up_mono: "level s \<le> level (level_up s)"
  by (auto simp add: level_level_up Let_def)

lemma level_up_cap: "level s \<le> 9 \<Longrightarrow> level (level_up s) \<le> 9"
  by (auto simp add: level_level_up Let_def)

lemma game_tick_cases:
  "game_tick rnd ok s = s \<and> state s \<noteq> StatePlaying \<or>
   state s = StatePlaying \<and> game_tick rnd ok s = fst (resolve_collision rnd ok (advance rnd s)) \<and>
     state (game_tick rnd ok s) = StateGameOver \<or>
   state s = StatePlaying \<and> game_tick rnd ok s = level_up (fst (resolve_collision rnd ok (advance rnd s)))"
  using state_resolve_collision [of rnd ok "advance rnd s"]
  by (auto simp: game_tick_def split: prod.splits)

lemma level_ok_level_up:
  assumes small: "unat (score s) div 200 < 256 \<or> (level s = 9 \<and> 1800 \<le> unat (score s))"
    and lo: "unat (level s) \<le> min (unat (score s) div 200) 9"
  shows "level_ok (level_up s)"
proof -
  define q where "q = unat (score s) div 200"
  define nl0 where "nl0 = (ucast (score s div 200) :: 8 word)"
  define nl where "nl = (if nl0 > 9 then 9 else nl0)"
  have lv: "level (level_up s) = (if nl > level s then nl else level s)"
    by (simp add: level_level_up Let_def nl_def nl0_def)
  have sc: "score (level_up s) = score s" by simp
  have nl9: "unat nl \<le> 9"
    by (simp add: nl_def word_le_nat_alt word_less_nat_alt)
  from small show ?thesis
  proof
    assume "unat (score s) div 200 < 256"
    then have "unat nl0 = q"
      by (simp add: nl0_def q_def unsigned_ucast_eq take_bit_eq_mod unat_div)
    then have "unat nl = min q 9"
      by (auto simp: nl_def word_less_nat_alt)
    with lo show ?thesis
      unfolding level_ok_def lv sc q_def [symmetric]
      by (auto simp: word_less_nat_alt)
  next
    assume h: "level s = 9 \<and> 1800 \<le> unat (score s)"
    then have "9 \<le> q" unfolding q_def by linarith
    moreover from h nl9 have "\<not> nl > level s"
      by (simp add: word_less_nat_alt)
    ultimately show ?thesis
      unfolding level_ok_def lv sc q_def [symmetric] using h by simp
  qed
qed

subsection \<open>The range of lives and the game-over tick\<close>

lemma frame_init_scenery [simp]:
  "lives (init_scenery rnd s) = lives s" "state (init_scenery rnd s) = state s"
  "level (init_scenery rnd s) = level s" "score (init_scenery rnd s) = score s"
  "combo (init_scenery rnd s) = combo s" "obstacles (init_scenery rnd s) = obstacles s"
  "speed (init_scenery rnd s) = speed s" "high_score (init_scenery rnd s) = high_score s"
  unfolding init_scenery_def
  by (rule fold_preserves; simp add: init_scenery_item_def rand_used_def)+

lemma game_init_fields:
  "lives (game_init rnd s) = INITIAL_LIVES" "state (game_init rnd s) = StatePlaying"
  "level (game_init rnd s) = 0" "score (game_init rnd s) = 0" "combo (game_init rnd s) = 0"
  "high_score (game_init rnd s) = high_score s"
  unfolding game_init_def Let_def
  by (simp; (rule fold_preserves, rule fold_preserves, rule fold_preserves, rule fold_preserves; simp))+

lemma lives_inv_start: "lives_inv (app_start ok file)"
  by (simp add: lives_inv_def app_start_def load_high_score_def zero_state_def Let_def
           split: option.split)

lemma lives_inv_handle_key: "lives_inv s \<Longrightarrow> lives_inv (handle_key rnd k s)"
  by (cases k) (auto simp: lives_inv_def handle_key_def game_init_fields Let_def)

lemma lives_inv_resolve:
  assumes "1 \<le> lives s" "lives s \<le> 5"
  shows "lives_inv (fst (resolve_collision rnd ok s))"
proof -
  from assms have u: "1 \<le> unat (lives s)" "unat (lives s) \<le> 5"
    by (simp_all add: word_le_nat_alt)
  then have m: "unat (lives s - 1) = unat (lives s) - 1"
    by (simp add: unat_sub word_le_nat_alt)
  have z: "lives s - 1 \<noteq> 0 \<Longrightarrow> 1 \<le> unat (lives s - 1)"
    by (metis One_nat_def Suc_leI unat_gt_0)
  show ?thesis
    using assms u m z
    by (auto simp: lives_inv_def resolve_collision_def Let_def word_le_nat_alt)
qed

lemma lives_inv_game_tick: "lives_inv s \<Longrightarrow> lives_inv (game_tick rnd ok s)"
proof -
  assume i: "lives_inv s"
  let ?a = "advance rnd s"
  let ?r = "fst (resolve_collision rnd ok ?a)"
  show ?thesis
  proof (cases "state s = StatePlaying")
    case False
    with i show ?thesis by (simp add: game_tick_def)
  next
    case True
    with i have "1 \<le> lives s" "lives s \<le> 5" by (simp_all add: lives_inv_def)
    then have "1 \<le> lives ?a" "lives ?a \<le> 5"
      using lives_advance_le [of s rnd] lives_advance_cap [of s rnd] by auto
    then have r: "lives_inv ?r" by (rule lives_inv_resolve)
    then have "lives_inv (level_up ?r)" by (simp add: lives_inv_def)
    with r True show ?thesis
      using game_tick_cases [of rnd ok s] by auto
  qed
qed

lemma lives_inv_reachable: "reachable s \<Longrightarrow> lives_inv s"
proof (induction rule: reachable.induct)
  case (start storage_ok f)
  show ?case by (rule lives_inv_start)
next
  case (event s rnd storage_ok ev)
  then show ?case
    by (cases ev) (simp_all add: handle_event_def lives_inv_handle_key lives_inv_game_tick)
qed

lemma refuel_at_cap:
  assumes "lives s = MAX_LIVES" "p_alive (powerups s ! i)" "p_type (powerups s ! i) = PwFuel"
    "powerup_touch px (powerups s ! i)"
  shows "powerup_step px i s = s\<lparr>powerups := (powerups s)[i := (powerups s ! i)\<lparr>p_alive := False\<rparr>]\<rparr>"
proof -
  have "p_type ((powerups s)[i := (powerups s ! i)\<lparr>p_alive := False\<rparr>] ! i) = PwFuel"
    using assms(3) by (cases "i < length (powerups s)") (simp_all add: list_update_beyond)
  with assms show ?thesis
    by (simp add: powerup_step_def apply_powerup_def Let_def)
qed

lemma game_over_tick:
  assumes "state s = StatePlaying" "invincible_ticks (advance rnd s) = 0"
    "shield_ticks (advance rnd s) = 0" "check_collision (advance rnd s)" "lives (advance rnd s) = 1"
  shows "lives (game_tick rnd ok s) = 0" "state (game_tick rnd ok s) = StateGameOver"
    "timer (game_tick rnd ok s) = None" "score (game_tick rnd ok s) = score (advance rnd s)"
    "high_score (game_tick rnd ok s) =
       (if score (game_tick rnd ok s) > high_score s then score (game_tick rnd ok s) else high_score s)"
    "hs_file (game_tick rnd ok s) =
       (if score (game_tick rnd ok s) > high_score s \<and> ok then Some (score (game_tick rnd ok s))
        else hs_file s)"
  using assms
  by (auto simp: game_tick_def resolve_collision_def Let_def save_high_score_def)

subsection \<open>Coins\<close>

lemma coin_pts_max: "coin_pts c = word_of_nat (25 * max (unat c) 1)"
proof -
  have "(if c > 1 then unat c else 1) = max (unat c) 1"
    by (auto simp: word_less_nat_alt max_def)
  then show ?thesis by (simp only: coin_pts_def)
qed

lemma coin_step_collect:
  "c_alive (coins s ! i) \<Longrightarrow> coin_touch px (coins s ! i) \<Longrightarrow> coin_step px i s = collect_coin i s"
  by (simp add: coin_step_def Let_def)

lemma collect_coin_fields:
  "combo (collect_coin i s) = combo s + 1" "combo_display (collect_coin i s) = 15"
  "score (collect_coin i s) = score s + coin_pts (combo s + 1)"
  "coins (collect_coin i s) = (coins s)[i := (coins s ! i)\<lparr>c_alive := False\<rparr>]"
  by (simp_all add: collect_coin_def Let_def)

lemma coin_step_not_collected:
  "\<not> (c_alive (coins s ! i) \<and> coin_touch px (coins s ! i)) \<Longrightarrow>
   combo (coin_step px i s) = combo s \<and> combo_display (coin_step px i s) = combo_display s \<and>
   score (coin_step px i s) = score s"
  by (auto simp: coin_step_def Let_def)

subsection \<open>The magnet pull\<close>

lemma coin_step_pull:
  "c_alive (coins s ! i) \<Longrightarrow> coin_magnet_pull s (coins s ! i) \<Longrightarrow> \<not> coin_touch px (coins s ! i) \<Longrightarrow>
   coin_step px i s = s\<lparr>coins := (coins s)[i := pull_coin (player_lane s) (coins s ! i)]\<rparr>"
  by (simp add: coin_step_def Let_def)

lemma pull_coin_alive [simp]: "c_alive (pull_coin pl c) = c_alive c"
  by (simp add: pull_coin_def)

lemma pull_coin_y:
  assumes "\<bar>sint (c_y c) - PLAYER_Y\<bar> < 30"
  shows "sint (c_y c) < PLAYER_Y \<Longrightarrow> sint (c_y (pull_coin pl c)) = sint (c_y c) + 4"
    and "\<not> sint (c_y c) < PLAYER_Y \<Longrightarrow> sint (c_y (pull_coin pl c)) = sint (c_y c) - 4"
  using assms sint16_add [of "c_y c" 4] sint16_add [of "c_y c" "- 4"]
  by (simp_all add: pull_coin_def)

lemma sint8_range: "- 128 \<le> sint (w :: 8 word) \<and> sint w < 128"
  using sint_ge [of w] sint_lt [of w] by simp

lemma pull_coin_lane:
  "sint (c_lane c) < sint pl \<Longrightarrow> sint (c_lane (pull_coin pl c)) = sint (c_lane c) + 1"
  "sint (c_lane c) > sint pl \<Longrightarrow> sint (c_lane (pull_coin pl c)) = sint (c_lane c) - 1"
  "c_lane c = pl \<Longrightarrow> c_lane (pull_coin pl c) = c_lane c"
  using sint8_add [of "c_lane c" 1] sint8_add [of "c_lane c" "- 1"]
    sint8_range [of "c_lane c"] sint8_range [of pl]
  by (simp_all add: pull_coin_def)

lemma coin_step_other: "j \<noteq> k \<Longrightarrow> coins (coin_step px j s) ! k = coins s ! k"
  by (simp add: coin_step_def collect_coin_def Let_def)

lemma length_coin_step [simp]: "length (coins (coin_step px j s)) = length (coins s)"
  by (simp add: coin_step_def collect_coin_def Let_def)

lemma coins_powerup_fold: "coins (fold (powerup_step px) xs s) = coins s"
  by (rule fold_preserves) simp_all

lemma check_collections_pulled:
  assumes "i < MAX_COINS" "i < length (coins s)" "c_alive (coins s ! i)"
    "coin_magnet_pull s (coins s ! i)" "\<not> coin_touch (car_lx (player_lane s)) (coins s ! i)"
  shows "coins (check_collections s) ! i = pull_coin (player_lane s) (coins s ! i)"
proof -
  let ?px = "car_lx (player_lane s)"
  let ?R = "\<lambda>t. magnet_ticks t = magnet_ticks s \<and> player_lane t = player_lane s"
  have "coins (fold (coin_step ?px) [0..<MAX_COINS] s) ! i = pull_coin (player_lane s) (coins s ! i)"
  proof (rule fold_nth [where R = ?R and c = "coins s ! i"])
    show "distinct [0..<MAX_COINS]" "i \<in> set [0..<MAX_COINS]" using assms(1) by simp_all
    show "i < length (coins s)" by fact
    show "?R s" by simp
    show "coins s ! i = coins s ! i" by simp
    show "coins (coin_step ?px j t) ! i = coins t ! i" if "j \<noteq> i" for j t
      using that by (rule coin_step_other)
    show "length (coins (coin_step ?px j t)) = length (coins t)" for j t by simp
    show "?R (coin_step ?px j t)" if "?R t" for j t using that by simp
    show "coins (coin_step ?px i t) ! i = pull_coin (player_lane s) (coins s ! i)"
      if "?R t" "i < length (coins t)" "coins t ! i = coins s ! i" for t
    proof -
      from that assms have "coin_magnet_pull t (coins t ! i)"
        by (simp add: coin_magnet_pull_def)
      with that assms show ?thesis by (simp add: coin_step_pull)
    qed
  qed
  then show ?thesis
    by (simp add: check_collections_def Let_def coins_powerup_fold)
qed

subsection \<open>The combo counter\<close>

text \<open>
  Away from the wrap-around of the 8-bit counter the combo behaves as a counter of
  consecutive coins: a resolved collision sets it to \<open>0\<close>, a tick without one does not
  decrease it as long as the three coins of the pool cannot take it past \<open>255\<close>, and a key
  changes it only by starting a new episode.
\<close>

lemma combo_coin_step:
  "combo (coin_step px i s) = combo s \<or> combo (coin_step px i s) = combo s + 1"
  by (simp add: coin_step_def collect_coin_def Let_def)

lemma combo_coin_fold:
  "unat (combo s) + length xs \<le> 255 \<Longrightarrow>
   unat (combo s) \<le> unat (combo (fold (coin_step px) xs s)) \<and>
   unat (combo (fold (coin_step px) xs s)) \<le> unat (combo s) + length xs"
proof (induction xs arbitrary: s)
  case Nil
  then show ?case by simp
next
  case (Cons x xs)
  let ?t = "coin_step px x s"
  from Cons.prems have lt: "unat (combo s) < 255" by simp
  have "unat (combo s + 1) = unat (combo s) + 1"
    using lt by (simp add: unat_word_ariths)
  with combo_coin_step [of px x s]
  have st: "unat (combo s) \<le> unat (combo ?t) \<and> unat (combo ?t) \<le> unat (combo s) + 1"
    by auto
  with Cons.prems have "unat (combo ?t) + length xs \<le> 255" by simp
  from Cons.IH [OF this] st show ?case by simp
qed

lemma combo_powerup_fold: "combo (fold (powerup_step px) xs s) = combo s"
  by (rule fold_preserves) simp_all

lemma combo_advance_mono:
  assumes "unat (combo s) + MAX_COINS \<le> 255"
  shows "unat (combo s) \<le> unat (combo (advance rnd s))"
proof -
  define s7 where "s7 = spawn_phase rnd
     (move_powerups (base_spd (move_scenery rnd (update_particles (tick_counters s))))
       (move_coins (base_spd (move_scenery rnd (update_particles (tick_counters s))))
         (move_obstacles (base_spd (move_scenery rnd (update_particles (tick_counters s))))
           (move_scenery rnd (update_particles (tick_counters s))))))"
  have c: "combo s7 = combo s" by (simp add: s7_def)
  have a: "advance rnd s = check_collections s7" by (simp add: advance_def Let_def s7_def)
  have "unat (combo s7) + length [0..<MAX_COINS] \<le> 255" using assms by (simp add: c)
  from combo_coin_fold [OF this, of "car_lx (player_lane s7)"] show ?thesis
    by (simp add: a c check_collections_def Let_def combo_powerup_fold)
qed

lemma combo_resolve_collision:
  "combo (fst (resolve_collision rnd ok s)) =
     (if invincible_ticks s = 0 \<and> shield_ticks s = 0 \<and> check_collision s then 0 else combo s)"
  by (simp add: resolve_collision_def Let_def)

lemma combo_game_tick:
  assumes "state s = StatePlaying"
  shows "invincible_ticks (advance rnd s) = 0 \<and> shield_ticks (advance rnd s) = 0 \<and>
         check_collision (advance rnd s) \<Longrightarrow> combo (game_tick rnd ok s) = 0"
    and "\<not> (invincible_ticks (advance rnd s) = 0 \<and> shield_ticks (advance rnd s) = 0 \<and>
         check_collision (advance rnd s)) \<Longrightarrow> unat (combo s) + MAX_COINS \<le> 255 \<Longrightarrow>
         unat (combo s) \<le> unat (combo (game_tick rnd ok s))"
proof -
  have g: "combo (game_tick rnd ok s) = combo (fst (resolve_collision rnd ok (advance rnd s)))"
    using assms by (simp add: game_tick_def split: prod.split)
  show "combo (game_tick rnd ok s) = 0"
    if "invincible_ticks (advance rnd s) = 0 \<and> shield_ticks (advance rnd s) = 0 \<and>
         check_collision (advance rnd s)"
    using that by (simp add: g combo_resolve_collision)
  show "unat (combo s) \<le> unat (combo (game_tick rnd ok s))"
    if "\<not> (invincible_ticks (advance rnd s) = 0 \<and> shield_ticks (advance rnd s) = 0 \<and>
         check_collision (advance rnd s))" "unat (combo s) + MAX_COINS \<le> 255"
    using that combo_advance_mono [of s rnd] by (auto simp add: g combo_resolve_collision)
qed

lemma combo_handle_key:
  "combo (handle_key rnd k s) = combo s \<or>
   (k = InputKeyOk \<and> state s = StateMenu \<and> handle_key rnd k s = game_init rnd s)"
  by (cases k) (auto simp: handle_key_def Let_def)

subsection \<open>Spawning into the first free slot\<close>

lemma upt_split: "i < n \<Longrightarrow> [0..<n] = [0..<i] @ i # [Suc i..<n]"
  by (metis less_imp_le_nat upt_add_eq_append upt_conv_Cons le_add_diff_inverse plus_nat.add_0 zero_le)

lemma spawn_obstacle_loop_full:
  "\<forall>i \<in> set xs. o_alive (obstacles s ! i) \<Longrightarrow> spawn_obstacle_loop rnd xs s = s"
  by (induction xs) simp_all

lemma spawn_obstacle_loop_first:
  "\<forall>j \<in> set pre. o_alive (obstacles s ! j) \<Longrightarrow> \<not> o_alive (obstacles s ! i) \<Longrightarrow>
   spawn_obstacle_loop rnd (pre @ i # rest) s = new_obstacle rnd i s"
  by (induction pre) simp_all

lemma spawn_coin_loop_full:
  "\<forall>i \<in> set xs. c_alive (coins s ! i) \<Longrightarrow> spawn_coin_loop rnd xs s = s"
  by (induction xs) simp_all

lemma spawn_coin_loop_first:
  "\<forall>j \<in> set pre. c_alive (coins s ! j) \<Longrightarrow> \<not> c_alive (coins s ! i) \<Longrightarrow>
   spawn_coin_loop rnd (pre @ i # rest) s = new_coin rnd i s"
  by (induction pre) simp_all

lemma spawn_powerup_loop_full:
  "\<forall>i \<in> set xs. p_alive (powerups s ! i) \<Longrightarrow> spawn_powerup_loop rnd xs s = s"
  by (induction xs) simp_all

lemma spawn_powerup_loop_first:
  "\<forall>j \<in> set pre. p_alive (powerups s ! j) \<Longrightarrow> \<not> p_alive (powerups s ! i) \<Longrightarrow>
   spawn_powerup_loop rnd (pre @ i # rest) s = new_powerup rnd i s"
  by (induction pre) simp_all

lemma spawn_obstacle_full:
  "\<forall>i<MAX_OBS. o_alive (obstacles s ! i) \<Longrightarrow> spawn_obstacle rnd s = s"
  unfolding spawn_obstacle_def by (rule spawn_obstacle_loop_full) simp

lemma spawn_coin_full:
  "\<forall>i<MAX_COINS. c_alive (coins s ! i) \<Longrightarrow> spawn_coin rnd s = s"
  unfolding spawn_coin_def by (rule spawn_coin_loop_full) simp

lemma spawn_powerup_full:
  "\<forall>i<MAX_POWERUPS. p_alive (powerups s ! i) \<Longrightarrow> spawn_powerup rnd s = s"
  unfolding spawn_powerup_def by (rule spawn_powerup_loop_full) simp

lemma spawn_obstacle_first:
  assumes "i < MAX_OBS" "\<not> o_alive (obstacles s ! i)" "\<forall>j<i. o_alive (obstacles s ! j)"
  shows "spawn_obstacle rnd s = new_obstacle rnd i s"
  unfolding spawn_obstacle_def upt_split [OF assms(1)]
  using assms(2,3) by (intro spawn_obstacle_loop_first) simp_all

lemma spawn_coin_first:
  assumes "i < MAX_COINS" "\<not> c_alive (coins s ! i)" "\<forall>j<i. c_alive (coins s ! j)"
  shows "spawn_coin rnd s = new_coin rnd i s"
  unfolding spawn_coin_def upt_split [OF assms(1)]
  using assms(2,3) by (intro spawn_coin_loop_first) simp_all

lemma spawn_powerup_first:
  assumes "i < MAX_POWERUPS" "\<not> p_alive (powerups s ! i)" "\<forall>j<i. p_alive (powerups s ! j)"
  shows "spawn_powerup rnd s = new_powerup rnd i s"
  unfolding spawn_powerup_def upt_split [OF assms(1)]
  using assms(2,3) by (intro spawn_powerup_loop_first) simp_all

lemma new_obstacle_slot:
  "length (obstacles (new_obstacle rnd i s)) = length (obstacles s)"
  "j \<noteq> i \<Longrightarrow> obstacles (new_obstacle rnd i s) ! j = obstacles s ! j"
  "i < length (obstacles s) \<Longrightarrow> o_alive (obstacles (new_obstacle rnd i s) ! i)"
  "i < length (obstacles s) \<Longrightarrow> o_y (obstacles (new_obstacle rnd i s) ! i) = - 18"
  by (simp_all add: new_obstacle_def Let_def rand_used_def)

lemma new_coin_slot:
  "length (coins (new_coin rnd i s)) = length (coins s)"
  "j \<noteq> i \<Longrightarrow> coins (new_coin rnd i s) ! j = coins s ! j"
  "i < length (coins s) \<Longrightarrow> c_alive (coins (new_coin rnd i s) ! i)"
  "i < length (coins s) \<Longrightarrow> c_y (coins (new_coin rnd i s) ! i) = - 12"
  by (simp_all add: new_coin_def rand_used_def)

lemma new_powerup_slot:
  "length (powerups (new_powerup rnd i s)) = length (powerups s)"
  "j \<noteq> i \<Longrightarrow> powerups (new_powerup rnd i s) ! j = powerups s ! j"
  "i < length (powerups s) \<Longrightarrow> p_alive (powerups (new_powerup rnd i s) ! i)"
  "i < length (powerups s) \<Longrightarrow> p_y (powerups (new_powerup rnd i s) ! i) = - 12"
  by (simp_all add: new_powerup_def rand_used_def)

lemma spawn_phase_full:
  assumes "\<forall>i<MAX_OBS. o_alive (obstacles s ! i)" "\<forall>i<MAX_COINS. c_alive (coins s ! i)"
    "\<forall>i<MAX_POWERUPS. p_alive (powerups s ! i)"
  shows "spawn_phase rnd s = s"
  using assms by (simp add: spawn_phase_def Let_def spawn_obstacle_full spawn_coin_full spawn_powerup_full)

subsection \<open>The boss truck\<close>

lemma truck_centred_update:
  assumes "truck_centred xs" "i < length xs \<Longrightarrow> o_type v = ObsTruck \<Longrightarrow> o_lane v = 1"
  shows "truck_centred (xs[i := v])"
proof (cases "i < length xs")
  case True
  with assms show ?thesis
    using set_update_subset_insert [of xs i v] by (auto simp: truck_centred_def)
next
  case False
  with assms(1) show ?thesis by (simp add: list_update_beyond)
qed

lemma truck_centred_nth: "truck_centred xs \<Longrightarrow> i < length xs \<Longrightarrow> o_type (xs ! i) = ObsTruck \<Longrightarrow> o_lane (xs ! i) = 1"
  by (simp add: truck_centred_def)

lemma truck_centred_move_obstacles:
  "truck_centred (obstacles s) \<Longrightarrow> truck_centred (obstacles (move_obstacles spd s))"
  unfolding move_obstacles_def
  by (rule fold_preserves [where P = "\<lambda>s. truck_centred (obstacles s)"])
     (auto simp: move_obstacle_step_def Let_def intro!: truck_centred_update dest: truck_centred_nth)

lemma truck_centred_new_obstacle:
  "truck_centred (obstacles s) \<Longrightarrow> truck_centred (obstacles (new_obstacle rnd i s))"
  by (auto simp: new_obstacle_def Let_def rand_used_def intro!: truck_centred_update)

lemma truck_centred_spawn_obstacle_loop:
  "truck_centred (obstacles s) \<Longrightarrow> truck_centred (obstacles (spawn_obstacle_loop rnd xs s))"
  by (induction xs) (simp_all add: truck_centred_new_obstacle)

lemma obstacles_spawn_phase:
  "truck_centred (obstacles s) \<Longrightarrow> truck_centred (obstacles (spawn_phase rnd s))"
  by (simp add: spawn_phase_def Let_def spawn_obstacle_def spawn_coin_def spawn_powerup_def
        truck_centred_spawn_obstacle_loop)

lemma truck_centred_advance:
  "truck_centred (obstacles s) \<Longrightarrow> truck_centred (obstacles (advance rnd s))"
  by (simp add: advance_def Let_def obstacles_spawn_phase truck_centred_move_obstacles)

lemma obstacles_resolve_collision [simp]:
  "obstacles (fst (resolve_collision rnd ok s)) = obstacles s"
  by (simp add: resolve_collision_def Let_def save_high_score_def)

lemma truck_centred_game_tick:
  "truck_centred (obstacles s) \<Longrightarrow> truck_centred (obstacles (game_tick rnd ok s))"
  using game_tick_cases [of rnd ok s] truck_centred_advance [of s rnd] by auto

lemma truck_centred_game_init:
  "truck_centred (obstacles s) \<Longrightarrow> truck_centred (obstacles (game_init rnd s))"
proof -
  assume a: "truck_centred (obstacles s)"
  let ?f = "\<lambda>i s. s\<lparr>obstacles := (obstacles s)[i := (obstacles s ! i)\<lparr>o_alive := False\<rparr>]\<rparr>"
  have 1: "truck_centred (obstacles (fold ?f xs t))" if "truck_centred (obstacles t)" for xs t
    using that
    by (rule fold_preserves [where P = "\<lambda>s. truck_centred (obstacles s)"])
       (auto intro!: truck_centred_update dest: truck_centred_nth)
  have 2: "obstacles (fold (\<lambda>i s. s\<lparr>coins := (coins s)[i := (coins s ! i)\<lparr>c_alive := False\<rparr>]\<rparr>) xs t) = obstacles t" for xs t
    by (rule fold_preserves) simp_all
  have 3: "obstacles (fold (\<lambda>i s. s\<lparr>powerups := (powerups s)[i := (powerups s ! i)\<lparr>p_alive := False\<rparr>]\<rparr>) xs t) = obstacles t" for xs t
    by (rule fold_preserves) simp_all
  have 4: "obstacles (fold (\<lambda>i s. s\<lparr>particles := (particles s)[i := (particles s ! i)\<lparr>pt_life := 0\<rparr>]\<rparr>) xs t) = obstacles t" for xs t
    by (rule fold_preserves) simp_all
  show ?thesis
    using a by (simp add: game_init_def Let_def 1 2 3 4)
qed

lemma truck_centred_handle_key:
  "truck_centred (obstacles s) \<Longrightarrow> truck_centred (obstacles (handle_key rnd k s))"
  by (cases k) (auto simp: handle_key_def Let_def truck_centred_game_init)

lemma truck_centred_reachable: "reachable s \<Longrightarrow> truck_centred (obstacles s)"
proof (induction rule: reachable.induct)
  case (start storage_ok f)
  show ?case
    by (simp add: app_start_def load_high_score_def zero_state_def Let_def truck_centred_def
          split: option.split)
next
  case (event s rnd storage_ok ev)
  then show ?case
    by (cases ev) (simp_all add: handle_event_def truck_centred_handle_key truck_centred_game_tick)
qed

lemma car_lx_lanes: "car_lx 0 = 12" "car_lx 1 = 26" "car_lx 2 = 40"
  by (simp_all add: car_lx_def lane_cx_def)

lemma truck_hitbox:
  assumes "o_type ob = ObsTruck" "o_lane ob = 1"
  shows "obs_ox ob = 21" "obs_ow ob = 20" "obs_oh ob = 16"
    "\<forall>l \<in> {0, 1, 2}. car_lx l < obs_ox ob + obs_ow ob \<and> car_lx l + CAR_W > obs_ox ob"
  using assms by (simp_all add: obs_ox_def obs_ow_def obs_oh_def car_lx_lanes)

lemma new_obstacle_type:
  assumes "i < length (obstacles s)"
  shows "o_type (obstacles (new_obstacle rnd i s) ! i) =
     (if level s > 0 \<and> unat (level s) mod 5 = 0 \<and> rand_at rnd s 1 mod 4 = 0 then ObsTruck
      else if rand_at rnd s (if level s > 0 \<and> unat (level s) mod 5 = 0 then 2 else 1) mod 3 = 0
      then ObsMoto else ObsSedan)"
    and "o_lane (obstacles (new_obstacle rnd i s) ! i) =
     (if level s > 0 \<and> unat (level s) mod 5 = 0 \<and> rand_at rnd s 1 mod 4 = 0 then 1
      else word_of_nat (rand_at rnd s 0 mod LANE_COUNT))"
  using assms by (simp_all add: new_obstacle_def Let_def rand_used_def)

subsection \<open>The move loops\<close>

lemma move_obstacle_step_other:
  "j \<noteq> k \<Longrightarrow> obstacles (move_obstacle_step spd j s) ! k = obstacles s ! k"
  by (simp add: move_obstacle_step_def Let_def)

lemma length_move_obstacle_step [simp]:
  "length (obstacles (move_obstacle_step spd j s)) = length (obstacles s)"
  by (simp add: move_obstacle_step_def Let_def)

lemma move_obstacle_step_hit:
  "k < length (obstacles s) \<Longrightarrow>
   obstacles (move_obstacle_step spd k s) ! k =
     (if o_alive (obstacles s ! k)
      then (obstacles s ! k)\<lparr>o_y := o_y (obstacles s ! k) + word_of_int (obs_move spd (obstacles s ! k)),
                              o_alive := \<not> obstacle_retires spd (obstacles s ! k)\<rparr>
      else obstacles s ! k)"
  by (simp add: move_obstacle_step_def Let_def obstacle_retires_def retire_oh_def)

lemma move_obstacles_nth:
  assumes "k < MAX_OBS" "k < length (obstacles s)"
  shows "obstacles (move_obstacles spd s) ! k =
     (if o_alive (obstacles s ! k)
      then (obstacles s ! k)\<lparr>o_y := o_y (obstacles s ! k) + word_of_int (obs_move spd (obstacles s ! k)),
                              o_alive := \<not> obstacle_retires spd (obstacles s ! k)\<rparr>
      else obstacles s ! k)"
  unfolding move_obstacles_def
proof (rule fold_nth [where R = "\<lambda>_. True" and c = "obstacles s ! k"])
  show "distinct [0..<MAX_OBS]" "k \<in> set [0..<MAX_OBS]" using assms(1) by simp_all
  show "k < length (obstacles s)" by fact
  show "obstacles (move_obstacle_step spd j t) ! k = obstacles t ! k" if "j \<noteq> k" for j t
    using that by (rule move_obstacle_step_other)
  show "obstacles (move_obstacle_step spd k t) ! k =
     (if o_alive (obstacles s ! k)
      then (obstacles s ! k)\<lparr>o_y := o_y (obstacles s ! k) + word_of_int (obs_move spd (obstacles s ! k)),
                              o_alive := \<not> obstacle_retires spd (obstacles s ! k)\<rparr>
      else obstacles s ! k)"
    if "k < length (obstacles t)" "obstacles t ! k = obstacles s ! k" for t
    using that by (simp add: move_obstacle_step_hit)
qed simp_all

lemma score_move_obstacle_step:
  "score (move_obstacle_step spd x s) =
     score s + (if obstacle_retires spd (obstacles s ! x) then 10 else 0)"
  by (simp add: move_obstacle_step_def Let_def obstacle_retires_def retire_oh_def)

lemma score_move_fold:
  "distinct xs \<Longrightarrow>
   score (fold (move_obstacle_step spd) xs s) =
     score s + 10 * word_of_nat (length (filter (\<lambda>k. obstacle_retires spd (obstacles s ! k)) xs))"
proof (induction xs arbitrary: s)
  case Nil
  then show ?case by simp
next
  case (Cons x xs)
  let ?t = "move_obstacle_step spd x s"
  have same: "filter (\<lambda>k. obstacle_retires spd (obstacles ?t ! k)) xs =
      filter (\<lambda>k. obstacle_retires spd (obstacles s ! k)) xs"
  proof (rule filter_cong [OF refl])
    fix k assume "k \<in> set xs"
    with Cons.prems have "x \<noteq> k" by auto
    then show "obstacle_retires spd (obstacles ?t ! k) = obstacle_retires spd (obstacles s ! k)"
      by (simp add: move_obstacle_step_other)
  qed
  from Cons.prems have "distinct xs" by simp
  from Cons.IH [OF this, of ?t] show ?case
    by (simp add: same score_move_obstacle_step)
qed

lemma score_move_obstacles:
  "score (move_obstacles spd s) =
     score s + 10 * word_of_nat (length (filter (\<lambda>k. obstacle_retires spd (obstacles s ! k)) [0..<MAX_OBS]))"
  unfolding move_obstacles_def by (rule score_move_fold) simp

lemma move_coins_nth:
  assumes "k < MAX_COINS" "k < length (coins s)"
  shows "coins (move_coins spd s) ! k = move_coin spd (coins s ! k)"
  unfolding move_coins_def
proof (rule fold_nth [where R = "\<lambda>_. True" and c = "coins s ! k"])
  show "distinct [0..<MAX_COINS]" "k \<in> set [0..<MAX_COINS]" using assms(1) by simp_all
  show "k < length (coins s)" by fact
qed simp_all

lemma move_powerups_nth:
  assumes "k < MAX_POWERUPS" "k < length (powerups s)"
  shows "powerups (move_powerups spd s) ! k = move_powerup spd (powerups s ! k)"
  unfolding move_powerups_def
proof (rule fold_nth [where R = "\<lambda>_. True" and c = "powerups s ! k"])
  show "distinct [0..<MAX_POWERUPS]" "k \<in> set [0..<MAX_POWERUPS]" using assms(1) by simp_all
  show "k < length (powerups s)" by fact
qed simp_all

lemma obs_move_cases:
  "obs_move spd ob = (case o_type ob of ObsMoto \<Rightarrow> spd + 1 | ObsSedan \<Rightarrow> spd | ObsTruck \<Rightarrow> spd - 1)"
  by (simp add: obs_move_def Let_def split: ObsType.split)

lemma base_spd_range: "3 \<le> base_spd s \<and> base_spd s \<le> 130"
proof -
  have "0 \<le> uint (level s)" "uint (level s) < 256"
    using uint_lt2p [of "level s"] by simp_all
  then show ?thesis unfolding base_spd_def by linarith
qed

lemma obs_move_pos: "0 < obs_move (base_spd s) ob \<and> obs_move (base_spd s) ob \<le> 131"
  using base_spd_range [of s] by (simp add: obs_move_cases split: ObsType.split)

lemma base_spd_advance:
  "base_spd (move_scenery rnd (update_particles (tick_counters s))) = base_spd s"
  by (simp add: base_spd_def)

subsection \<open>The level index over an episode\<close>

lemma level_handle_key:
  "level (handle_key rnd k s) = level s \<or> level (handle_key rnd k s) = 0"
  by (cases k) (auto simp: handle_key_def Let_def game_init_fields)

lemma level_cap_game_tick: "level s \<le> 9 \<Longrightarrow> level (game_tick rnd ok s) \<le> 9"
  using game_tick_cases [of rnd ok s]
    level_up_cap [of "fst (resolve_collision rnd ok (advance rnd s))"]
  by auto

lemma level_cap_reachable: "reachable s \<Longrightarrow> level s \<le> 9"
proof (induction rule: reachable.induct)
  case (start storage_ok f)
  show ?case
    by (simp add: app_start_def load_high_score_def zero_state_def Let_def split: option.split)
next
  case (event s rnd storage_ok ev)
  show ?case
  proof (cases ev)
    case EventTypeTick
    with event.IH show ?thesis
      by (simp add: handle_event_def level_cap_game_tick)
  next
    case (EventTypeKey ty k)
    with event.IH level_handle_key [of rnd k s] show ?thesis
      by (auto simp: handle_event_def)
  qed
qed

lemma level_ok_game_init: "level_ok (game_init rnd s)"
  by (simp add: level_ok_def game_init_fields)

subsection \<open>Two obstacles on the player at once\<close>

lemma two_overlaps_one_life:
  "obstacle_hits (car_lx (player_lane (advance rnd0 c10_two))) (obstacles (advance rnd0 c10_two) ! 0) \<and>
   obstacle_hits (car_lx (player_lane (advance rnd0 c10_two))) (obstacles (advance rnd0 c10_two) ! 1) \<and>
   lives c10_two = 3 \<and> lives (game_tick rnd0 True c10_two) = 2"
  by code_simp

subsection \<open>The blocks of a tick and the spawn cadence\<close>

lemma frame_pools_head [simp]:
  "coins (tick_counters s) = coins s" "powerups (tick_counters s) = powerups s"
  "coins (update_particles s) = coins s" "powerups (update_particles s) = powerups s"
  "coins (move_scenery rnd s) = coins s" "powerups (move_scenery rnd s) = powerups s"
  "tick_count (tick_counters s) = tick_count s + 1"
  "tick_count (update_particles s) = tick_count s"
  "tick_count (move_scenery rnd s) = tick_count s"
  "tick_count (move_obstacles spd s) = tick_count s"
  "tick_count (move_coins spd s) = tick_count s"
  "tick_count (move_powerups spd s) = tick_count s"
proof -
  show "coins (tick_counters s) = coins s" "powerups (tick_counters s) = powerups s"
    "tick_count (tick_counters s) = tick_count s + 1"
    by (simp_all add: tick_counters_def Let_def)
  show "coins (update_particles s) = coins s" "powerups (update_particles s) = powerups s"
    "tick_count (update_particles s) = tick_count s"
    unfolding update_particles_def by (rule fold_preserves; simp)+
  show "coins (move_scenery rnd s) = coins s" "powerups (move_scenery rnd s) = powerups s"
    "tick_count (move_scenery rnd s) = tick_count s"
    unfolding move_scenery_def
    by (rule fold_preserves; simp add: scenery_step_def Let_def rand_used_def)+
  show "tick_count (move_obstacles spd s) = tick_count s"
    unfolding move_obstacles_def
    by (rule fold_preserves; simp add: move_obstacle_step_def Let_def)
  show "tick_count (move_coins spd s) = tick_count s"
    unfolding move_coins_def by (rule fold_preserves; simp)
  show "tick_count (move_powerups spd s) = tick_count s"
    unfolding move_powerups_def by (rule fold_preserves; simp)
qed

lemma advance_blocks:
  "advance rnd s =
     check_collections (spawn_phase rnd
       (move_powerups (base_spd s) (move_coins (base_spd s) (move_obstacles (base_spd s)
          (move_scenery rnd (update_particles (tick_counters s)))))))"
  by (simp add: advance_def Let_def base_spd_advance)

lemma game_tick_playing:
  "state s = StatePlaying \<Longrightarrow>
   game_tick rnd ok s =
     (case resolve_collision rnd ok
        (check_collections (spawn_phase rnd
          (move_powerups (base_spd s) (move_coins (base_spd s) (move_obstacles (base_spd s)
             (move_scenery rnd (update_particles (tick_counters s)))))))) of
        (s1, returned) \<Rightarrow> if returned then s1 else level_up s1)"
  by (simp add: game_tick_def advance_blocks)

lemma spawn_phase_cadence:
  "spawn_phase rnd s =
     (let s1 = (if tick_count s mod ucast (diff_spawn (difficulty s)) = 0 then spawn_obstacle rnd s else s);
          s2 = (if tick_count s mod 18 = 0 then spawn_coin rnd s1 else s1)
      in (if tick_count s mod 60 = 0 then spawn_powerup rnd s2 else s2))"
  by (simp add: spawn_phase_def Let_def spawn_obstacle_def spawn_coin_def)

lemma spawn_phase_obstacle_slot:
  assumes "tick_count s mod ucast (diff_spawn (difficulty s)) = 0"
    "i < MAX_OBS" "i < length (obstacles s)" "\<not> o_alive (obstacles s ! i)"
    "\<forall>j<i. o_alive (obstacles s ! j)"
  shows "o_alive (obstacles (spawn_phase rnd s) ! i)"
    and "\<forall>j. j \<noteq> i \<longrightarrow> obstacles (spawn_phase rnd s) ! j = obstacles s ! j"
proof -
  have "obstacles (spawn_phase rnd s) = obstacles (spawn_obstacle rnd s)"
    using assms(1)
    by (simp add: spawn_phase_def Let_def spawn_obstacle_def spawn_coin_def spawn_powerup_def)
  then have e: "obstacles (spawn_phase rnd s) = obstacles (new_obstacle rnd i s)"
    using assms by (simp add: spawn_obstacle_first)
  show "o_alive (obstacles (spawn_phase rnd s) ! i)"
    "\<forall>j. j \<noteq> i \<longrightarrow> obstacles (spawn_phase rnd s) ! j = obstacles s ! j"
    using assms(3) by (simp_all add: e new_obstacle_slot)
qed

lemma spawn_phase_obstacle_skip:
  "tick_count s mod ucast (diff_spawn (difficulty s)) \<noteq> 0 \<Longrightarrow>
   obstacles (spawn_phase rnd s) = obstacles s"
  by (simp add: spawn_phase_def Let_def spawn_coin_def spawn_powerup_def)

lemma spawn_phase_coin_slot:
  assumes "tick_count s mod 18 = 0"
    "i < MAX_COINS" "i < length (coins s)" "\<not> c_alive (coins s ! i)"
    "\<forall>j<i. c_alive (coins s ! j)"
  shows "c_alive (coins (spawn_phase rnd s) ! i)"
    and "\<forall>j. j \<noteq> i \<longrightarrow> coins (spawn_phase rnd s) ! j = coins s ! j"
proof -
  define s1 where
    "s1 = (if tick_count s mod ucast (diff_spawn (difficulty s)) = 0 then spawn_obstacle rnd s else s)"
  have c1: "coins s1 = coins s" and t1: "tick_count s1 = tick_count s"
    by (simp_all add: s1_def spawn_obstacle_def)
  have "coins (spawn_phase rnd s) = coins (spawn_coin rnd s1)"
    using assms(1) by (simp add: spawn_phase_def Let_def s1_def [symmetric] t1 spawn_powerup_def)
  moreover have "spawn_coin rnd s1 = new_coin rnd i s1"
    using assms by (intro spawn_coin_first) (simp_all add: c1)
  ultimately have e: "coins (spawn_phase rnd s) = coins (new_coin rnd i s1)" by simp
  show "c_alive (coins (spawn_phase rnd s) ! i)"
    "\<forall>j. j \<noteq> i \<longrightarrow> coins (spawn_phase rnd s) ! j = coins s ! j"
    using assms(3) by (simp_all add: e new_coin_slot c1)
qed

lemma spawn_phase_coin_skip:
  "tick_count s mod 18 \<noteq> 0 \<Longrightarrow> coins (spawn_phase rnd s) = coins s"
  by (simp add: spawn_phase_def Let_def spawn_obstacle_def spawn_powerup_def)

lemma spawn_phase_powerup_slot:
  assumes "tick_count s mod 60 = 0"
    "i < MAX_POWERUPS" "i < length (powerups s)" "\<not> p_alive (powerups s ! i)"
    "\<forall>j<i. p_alive (powerups s ! j)"
  shows "p_alive (powerups (spawn_phase rnd s) ! i)"
    and "\<forall>j. j \<noteq> i \<longrightarrow> powerups (spawn_phase rnd s) ! j = powerups s ! j"
proof -
  define s2 where
    "s2 = (let s1 = (if tick_count s mod ucast (diff_spawn (difficulty s)) = 0
                     then spawn_obstacle rnd s else s)
           in (if tick_count s1 mod 18 = 0 then spawn_coin rnd s1 else s1))"
  have p2: "powerups s2 = powerups s" and t2: "tick_count s2 = tick_count s"
    by (simp_all add: s2_def Let_def spawn_obstacle_def spawn_coin_def)
  have "spawn_phase rnd s = (if tick_count s2 mod 60 = 0 then spawn_powerup rnd s2 else s2)"
    by (simp add: spawn_phase_def s2_def Let_def)
  then have "spawn_phase rnd s = spawn_powerup rnd s2"
    using assms(1) by (simp add: t2)
  moreover have "spawn_powerup rnd s2 = new_powerup rnd i s2"
    using assms by (intro spawn_powerup_first) (simp_all add: p2)
  ultimately have e: "powerups (spawn_phase rnd s) = powerups (new_powerup rnd i s2)" by simp
  show "p_alive (powerups (spawn_phase rnd s) ! i)"
    "\<forall>j. j \<noteq> i \<longrightarrow> powerups (spawn_phase rnd s) ! j = powerups s ! j"
    using assms(3) by (simp_all add: e new_powerup_slot p2)
qed

lemma spawn_phase_powerup_skip:
  "tick_count s mod 60 \<noteq> 0 \<Longrightarrow> powerups (spawn_phase rnd s) = powerups s"
  by (simp add: spawn_phase_def Let_def spawn_obstacle_def spawn_coin_def)

lemma before_spawn_fields:
  "tick_count (move_powerups spd (move_coins spd (move_obstacles spd
      (move_scenery rnd (update_particles (tick_counters s)))))) = tick_count s + 1"
  "difficulty (move_powerups spd (move_coins spd (move_obstacles spd
      (move_scenery rnd (update_particles (tick_counters s)))))) = difficulty s"
  by simp_all

subsection \<open>The coin award below the wrap-around of the combo\<close>

text \<open>
  While the 8-bit combo is below \<open>255\<close> a collected coin increments it, sets the display
  countdown to \<open>15\<close> and adds \<open>25\<close> times the new combo to the score.
\<close>

lemma coin_award_below_wrap:
  assumes "c_alive (coins s ! i)" "coin_touch px (coins s ! i)" "unat (combo s) < 255"
  shows "unat (combo (coin_step px i s)) = unat (combo s) + 1"
    and "combo_display (coin_step px i s) = 15"
    and "score (coin_step px i s) = score s + word_of_nat (25 * (unat (combo s) + 1))"
proof -
  have e: "coin_step px i s = collect_coin i s" using assms by (simp add: coin_step_collect)
  have u: "unat (combo s + 1) = unat (combo s) + 1"
    using assms(3) by (simp add: unat_word_ariths)
  show "unat (combo (coin_step px i s)) = unat (combo s) + 1"
    by (simp add: e collect_coin_fields u)
  show "combo_display (coin_step px i s) = 15" by (simp add: e collect_coin_fields)
  have "max (unat (combo s + 1)) 1 = unat (combo s) + 1" by (simp add: u)
  then show "score (coin_step px i s) = score s + word_of_nat (25 * (unat (combo s) + 1))"
    by (simp only: e collect_coin_fields coin_pts_max)
qed

section \<open>The claims\<close>

text \<open>
  C1, as amended. Over any tick the level index never decreases and, once at most \<open>9\<close>,
  stays at most \<open>9\<close>; it is at most \<open>9\<close> in every reachable state. An episode starts with
  the level index equal to \<open>min(floor(score / 200), 9)\<close>. When a tick is processed in the
  Playing state and leaves the session in the Playing state, the 32-bit score did not wrap
  on it, and the level index was \<open>min(floor(score / 200), 9)\<close> before the tick, then it is
  \<open>min(floor(score / 200), 9)\<close> after the tick.
\<close>

theorem C1_level_index:
  "level s \<le> level (game_tick rnd ok s) \<and>
   (level s \<le> 9 \<longrightarrow> level (game_tick rnd ok s) \<le> 9) \<and>
   (reachable s \<longrightarrow> level s \<le> 9) \<and>
   level_ok (game_init rnd s) \<and>
   (state s = StatePlaying \<and> level_ok s \<and> state (game_tick rnd ok s) = StatePlaying \<and>
    score s \<le> score (game_tick rnd ok s) \<longrightarrow> level_ok (game_tick rnd ok s))"
proof (intro conjI impI)
  show "level s \<le> 9" if "reachable s" using that by (rule level_cap_reachable)
  show "level_ok (game_init rnd s)" by (rule level_ok_game_init)
  let ?r = "fst (resolve_collision rnd ok (advance rnd s))"
  have lr: "level ?r = level s" by simp
  show "level s \<le> level (game_tick rnd ok s)"
    using game_tick_cases [of rnd ok s] level_up_mono [of ?r] by (auto simp: lr)
  show "level (game_tick rnd ok s) \<le> 9" if "level s \<le> 9"
    using game_tick_cases [of rnd ok s] level_up_cap [of ?r] that by (auto simp: lr)
  assume h: "state s = StatePlaying \<and> level_ok s \<and> state (game_tick rnd ok s) = StatePlaying \<and>
    score s \<le> score (game_tick rnd ok s)"
  with game_tick_cases [of rnd ok s] have gt: "game_tick rnd ok s = level_up ?r"
    by auto
  have sr: "score ?r = score (advance rnd s)" by simp
  from h have le: "unat (score s) \<le> unat (score ?r)"
    by (simp add: gt word_le_nat_alt)
  from h have ok: "unat (level s) = min (unat (score s) div 200) 9"
    by (simp add: level_ok_def)
  have lo: "unat (level ?r) \<le> min (unat (score ?r) div 200) 9"
    using le ok div_le_mono [OF le, of 200] by (simp add: lr)
  have "unat (score ?r) div 200 < 256 \<or> (level ?r = 9 \<and> 1800 \<le> unat (score ?r))"
  proof (cases "level s = 9")
    case True
    with ok have "1800 \<le> unat (score s)" by (simp add: min_def split: if_splits)
    with le True show ?thesis by (simp add: lr)
  next
    case False
    then have "unat (level s) \<noteq> 9" by (simp add: word_unat_eq_iff)
    with ok have "unat (score s) < 1800" by (simp add: min_def split: if_splits)
    moreover have "unat (score ?r) \<le> unat (score s) + unat (score ?r - score s)"
      by (metis unat_add_le add.commute diff_add_cancel)
    ultimately have "unat (score ?r) < 51200"
      using gain_advance [of rnd s] by (simp add: sr)
    then have "unat (score ?r) div 200 < 256" by linarith
    then show ?thesis by blast
  qed
  then show "level_ok (game_tick rnd ok s)"
    unfolding gt using lo by (rule level_ok_level_up)
qed

theorem C1_level_index_witness:
  "reachable c3_started \<and> level c3_started \<le> 9 \<and>
   level c1_up \<le> 9 \<and> level (game_tick rnd0 True c1_up) \<le> 9 \<and>
   state c1_up = StatePlaying \<and> level_ok c1_up \<and>
   state (game_tick rnd0 True c1_up) = StatePlaying \<and>
   score c1_up \<le> score (game_tick rnd0 True c1_up) \<and>
   level_ok (game_tick rnd0 True c1_up)"
proof -
  have a: "level c1_up \<le> 9"
    and b: "state c1_up = StatePlaying \<and> level_ok c1_up \<and>
      state (game_tick rnd0 True c1_up) = StatePlaying \<and>
      score c1_up \<le> score (game_tick rnd0 True c1_up)"
    by code_simp+
  have r: "reachable c3_started"
    unfolding c3_started_def by (intro reachable.intros)
  with C1_level_index [of c3_started rnd0 True] have "level c3_started \<le> 9" by blast
  with a b r C1_level_index [of c1_up rnd0 True] show ?thesis by blast
qed

text \<open>
  C1 as stated fails on the tick that ends the game: \<^verbatim>\<open>game_tick\<close> returns from the
  game-over branch before the level-up block, so the score of 200 reached on that tick
  leaves the level index at 0.
\<close>

theorem C1_counterexample:
  "state c1_over = StatePlaying \<and> level_ok c1_over \<and>
   score (game_tick rnd0 True c1_over) = 200 \<and> level (game_tick rnd0 True c1_over) = 0 \<and>
   \<not> level_ok (game_tick rnd0 True c1_over)"
  by code_simp

text \<open>
  C2, as amended. While the invincibility timer or the shield timer is above \<open>0\<close> the
  collision block leaves the whole state as it is, whatever obstacles are active, and the
  tick goes on to the level-up block. On a collision that is not ignored the block
  decrements \<open>lives\<close>, sets \<open>combo\<close> to \<open>0\<close> and places every particle at the centre of the
  player's box. It then sets the invincibility timer to \<open>20\<close>, except when the collision took
  the last life: the game-over branch returns before that store, so the timer stays \<open>0\<close>
  and the state is GameOver.
\<close>

theorem C2_collision_block:
  "(invincible_ticks s > 0 \<or> shield_ticks s > 0 \<longrightarrow> resolve_collision rnd ok s = (s, False)) \<and>
   (state s = StatePlaying \<and>
      (invincible_ticks (advance rnd s) > 0 \<or> shield_ticks (advance rnd s) > 0) \<longrightarrow>
      game_tick rnd ok s = level_up (advance rnd s)) \<and>
   (invincible_ticks s = 0 \<and> shield_ticks s = 0 \<and> check_collision s \<longrightarrow>
      lives (fst (resolve_collision rnd ok s)) = lives s - 1 \<and>
      combo (fst (resolve_collision rnd ok s)) = 0 \<and>
      (\<forall>i < MAX_PARTICLES. i < length (particles s) \<longrightarrow>
         burst_at (car_lx (player_lane s) + CAR_W div 2) (PLAYER_Y + CAR_H div 2)
           (particles (fst (resolve_collision rnd ok s)) ! i)) \<and>
      (lives s \<noteq> 1 \<longrightarrow> invincible_ticks (fst (resolve_collision rnd ok s)) = 20 \<and>
          state (fst (resolve_collision rnd ok s)) = state s) \<and>
      (lives s = 1 \<longrightarrow> invincible_ticks (fst (resolve_collision rnd ok s)) = 0 \<and>
          state (fst (resolve_collision rnd ok s)) = StateGameOver))"
proof (intro conjI impI)
  assume "invincible_ticks s > 0 \<or> shield_ticks s > 0"
  then show "resolve_collision rnd ok s = (s, False)" by (rule resolve_ignored)
next
  assume "state s = StatePlaying \<and>
      (invincible_ticks (advance rnd s) > 0 \<or> shield_ticks (advance rnd s) > 0)"
  then show "game_tick rnd ok s = level_up (advance rnd s)"
    by (simp add: game_tick_def resolve_ignored)
next
  assume h: "invincible_ticks s = 0 \<and> shield_ticks s = 0 \<and> check_collision s"
  then show "lives (fst (resolve_collision rnd ok s)) = lives s - 1"
    and "combo (fst (resolve_collision rnd ok s)) = 0"
    by (simp_all add: resolve_collision_def Let_def)
  show "\<forall>i < MAX_PARTICLES. i < length (particles s) \<longrightarrow>
         burst_at (car_lx (player_lane s) + CAR_W div 2) (PLAYER_Y + CAR_H div 2)
           (particles (fst (resolve_collision rnd ok s)) ! i)"
    using h by (simp add: resolve_collision_def Let_def spawn_particles_burst)
  {
    assume "lives s \<noteq> 1"
    then have "lives s - 1 \<noteq> 0" by simp
    with h show "invincible_ticks (fst (resolve_collision rnd ok s)) = 20"
      and "state (fst (resolve_collision rnd ok s)) = state s"
      by (simp_all add: resolve_collision_def Let_def)
  }
  {
    assume "lives s = 1"
    with h show "invincible_ticks (fst (resolve_collision rnd ok s)) = 0"
      and "state (fst (resolve_collision rnd ok s)) = StateGameOver"
      by (simp_all add: resolve_collision_def Let_def)
  }
qed

theorem C2_collision_block_witness:
  "(invincible_ticks c2_shielded > 0 \<or> shield_ticks c2_shielded > 0) \<and>
   resolve_collision rnd0 True c2_shielded = (c2_shielded, False) \<and>
   state c2_shielded = StatePlaying \<and>
   (invincible_ticks (advance rnd0 c2_shielded) > 0 \<or> shield_ticks (advance rnd0 c2_shielded) > 0) \<and>
   game_tick rnd0 True c2_shielded = level_up (advance rnd0 c2_shielded) \<and>
   invincible_ticks c2_hit = 0 \<and> shield_ticks c2_hit = 0 \<and> check_collision c2_hit \<and>
   (3 :: nat) < MAX_PARTICLES \<and> 3 < length (particles c2_hit) \<and>
   lives (fst (resolve_collision rnd0 True c2_hit)) = lives c2_hit - 1 \<and>
   burst_at (car_lx (player_lane c2_hit) + CAR_W div 2) (PLAYER_Y + CAR_H div 2)
     (particles (fst (resolve_collision rnd0 True c2_hit)) ! 3) \<and>
   lives c2_hit \<noteq> 1 \<and>
   invincible_ticks (fst (resolve_collision rnd0 True c2_hit)) = 20 \<and>
   invincible_ticks c2_last = 0 \<and> shield_ticks c2_last = 0 \<and> check_collision c2_last \<and>
   lives c2_last = 1 \<and>
   invincible_ticks (fst (resolve_collision rnd0 True c2_last)) = 0 \<and>
   state (fst (resolve_collision rnd0 True c2_last)) = StateGameOver"
proof -
  have a: "invincible_ticks c2_shielded > 0 \<or> shield_ticks c2_shielded > 0"
    and b: "state c2_shielded = StatePlaying \<and>
      (invincible_ticks (advance rnd0 c2_shielded) > 0 \<or> shield_ticks (advance rnd0 c2_shielded) > 0)"
    and c: "invincible_ticks c2_hit = 0 \<and> shield_ticks c2_hit = 0 \<and> check_collision c2_hit"
    and d: "lives c2_hit \<noteq> 1" "(3 :: nat) < MAX_PARTICLES" "3 < length (particles c2_hit)"
    and e: "invincible_ticks c2_last = 0 \<and> shield_ticks c2_last = 0 \<and> check_collision c2_last"
    and f: "lives c2_last = 1"
    by code_simp+
  note t1 = C2_collision_block [of c2_shielded rnd0 True]
  note t2 = C2_collision_block [of c2_hit rnd0 True]
  note t3 = C2_collision_block [of c2_last rnd0 True]
  from a b t1 have 1: "resolve_collision rnd0 True c2_shielded = (c2_shielded, False)"
    "game_tick rnd0 True c2_shielded = level_up (advance rnd0 c2_shielded)"
    by blast+
  from c d t2 have 2: "lives (fst (resolve_collision rnd0 True c2_hit)) = lives c2_hit - 1"
    "burst_at (car_lx (player_lane c2_hit) + CAR_W div 2) (PLAYER_Y + CAR_H div 2)
       (particles (fst (resolve_collision rnd0 True c2_hit)) ! 3)"
    "invincible_ticks (fst (resolve_collision rnd0 True c2_hit)) = 20"
    by blast+
  from e f t3 have 3: "invincible_ticks (fst (resolve_collision rnd0 True c2_last)) = 0"
    "state (fst (resolve_collision rnd0 True c2_last)) = StateGameOver"
    by blast+
  from a b c d e f 1 2 3 show ?thesis by blast
qed

text \<open>
  C2 as stated fails on the collision that takes the last life: the collision is not
  ignored, and after the tick the invincibility timer is not \<open>20\<close>.
\<close>

theorem C2_counterexample:
  "state c2_fatal = StatePlaying \<and>
   invincible_ticks (advance rnd0 c2_fatal) = 0 \<and> shield_ticks (advance rnd0 c2_fatal) = 0 \<and>
   check_collision (advance rnd0 c2_fatal) \<and>
   lives (game_tick rnd0 True c2_fatal) = lives c2_fatal - 1 \<and>
   invincible_ticks (game_tick rnd0 True c2_fatal) \<noteq> 20"
  by code_simp

text \<open>
  C3. In every reachable state \<open>lives\<close> is at least \<open>0\<close> and at most \<open>5\<close> (and at least \<open>1\<close>
  while Playing, so the decrement never wraps). A Refuel pickup at \<open>5\<close> lives clears the
  power-up's active flag and changes nothing else. On the tick whose collision takes
  \<open>lives\<close> from \<open>1\<close> to \<open>0\<close> the session is in GameOver after that same tick, the timer is
  stopped, and the high score becomes the current score exactly when the current score is
  above the stored one; the file is written in that case when the storage opens.
\<close>

theorem C3_lives_range_and_game_over:
  "(reachable s \<longrightarrow>
      0 \<le> unat (lives s) \<and> unat (lives s) \<le> 5 \<and>
      (state s = StatePlaying \<longrightarrow> 1 \<le> unat (lives s))) \<and>
   (lives s = MAX_LIVES \<and> p_alive (powerups s ! i) \<and> p_type (powerups s ! i) = PwFuel \<and>
    powerup_touch px (powerups s ! i) \<longrightarrow>
      powerup_step px i s = s\<lparr>powerups := (powerups s)[i := (powerups s ! i)\<lparr>p_alive := False\<rparr>]\<rparr> \<and>
      lives (powerup_step px i s) = MAX_LIVES) \<and>
   (state s = StatePlaying \<and> invincible_ticks (advance rnd s) = 0 \<and>
    shield_ticks (advance rnd s) = 0 \<and> check_collision (advance rnd s) \<and>
    lives (advance rnd s) = 1 \<longrightarrow>
      lives (game_tick rnd ok s) = 0 \<and> state (game_tick rnd ok s) = StateGameOver \<and>
      timer (game_tick rnd ok s) = None \<and>
      high_score (game_tick rnd ok s) =
        (if score (game_tick rnd ok s) > high_score s then score (game_tick rnd ok s)
         else high_score s) \<and>
      hs_file (game_tick rnd ok s) =
        (if score (game_tick rnd ok s) > high_score s \<and> ok then Some (score (game_tick rnd ok s))
         else hs_file s))"
proof (intro conjI impI)
  assume "reachable s"
  then have i: "lives_inv s" by (rule lives_inv_reachable)
  show "0 \<le> unat (lives s)" by simp
  from i show "unat (lives s) \<le> 5"
    by (simp add: lives_inv_def word_le_nat_alt)
  show "1 \<le> unat (lives s)" if "state s = StatePlaying"
    using i that by (simp add: lives_inv_def word_le_nat_alt)
next
  assume h: "lives s = MAX_LIVES \<and> p_alive (powerups s ! i) \<and> p_type (powerups s ! i) = PwFuel \<and>
    powerup_touch px (powerups s ! i)"
  then show "powerup_step px i s =
      s\<lparr>powerups := (powerups s)[i := (powerups s ! i)\<lparr>p_alive := False\<rparr>]\<rparr>"
    by (simp add: refuel_at_cap)
  with h show "lives (powerup_step px i s) = MAX_LIVES" by simp
next
  assume h: "state s = StatePlaying \<and> invincible_ticks (advance rnd s) = 0 \<and>
    shield_ticks (advance rnd s) = 0 \<and> check_collision (advance rnd s) \<and>
    lives (advance rnd s) = 1"
  then show "lives (game_tick rnd ok s) = 0" "state (game_tick rnd ok s) = StateGameOver"
    "timer (game_tick rnd ok s) = None"
    "high_score (game_tick rnd ok s) =
        (if score (game_tick rnd ok s) > high_score s then score (game_tick rnd ok s)
         else high_score s)"
    "hs_file (game_tick rnd ok s) =
        (if score (game_tick rnd ok s) > high_score s \<and> ok then Some (score (game_tick rnd ok s))
         else hs_file s)"
    by (simp_all only: game_over_tick)
qed

theorem C3_lives_range_and_game_over_witness:
  "reachable c3_started \<and> state c3_started = StatePlaying \<and>
   unat (lives c3_started) \<le> 5 \<and> 1 \<le> unat (lives c3_started) \<and>
   lives c3_refuel = MAX_LIVES \<and> p_alive (powerups c3_refuel ! 0) \<and>
   p_type (powerups c3_refuel ! 0) = PwFuel \<and>
   powerup_touch (car_lx (player_lane c3_refuel)) (powerups c3_refuel ! 0) \<and>
   lives (powerup_step (car_lx (player_lane c3_refuel)) 0 c3_refuel) = MAX_LIVES \<and>
   state c2_fatal = StatePlaying \<and> invincible_ticks (advance rnd0 c2_fatal) = 0 \<and>
   shield_ticks (advance rnd0 c2_fatal) = 0 \<and> check_collision (advance rnd0 c2_fatal) \<and>
   lives (advance rnd0 c2_fatal) = 1 \<and>
   lives (game_tick rnd0 True c2_fatal) = 0 \<and> state (game_tick rnd0 True c2_fatal) = StateGameOver \<and>
   timer (game_tick rnd0 True c2_fatal) = None \<and>
   high_score c2_fatal < score (game_tick rnd0 True c2_fatal) \<and>
   high_score (game_tick rnd0 True c2_fatal) = score (game_tick rnd0 True c2_fatal) \<and>
   hs_file (game_tick rnd0 True c2_fatal) = Some (score (game_tick rnd0 True c2_fatal))"
proof -
  have r: "reachable c3_started"
    unfolding c3_started_def by (intro reachable.intros)
  have p: "state c3_started = StatePlaying"
    and f: "lives c3_refuel = MAX_LIVES \<and> p_alive (powerups c3_refuel ! 0) \<and>
      p_type (powerups c3_refuel ! 0) = PwFuel \<and>
      powerup_touch (car_lx (player_lane c3_refuel)) (powerups c3_refuel ! 0)"
    and g: "state c2_fatal = StatePlaying \<and> invincible_ticks (advance rnd0 c2_fatal) = 0 \<and>
      shield_ticks (advance rnd0 c2_fatal) = 0 \<and> check_collision (advance rnd0 c2_fatal) \<and>
      lives (advance rnd0 c2_fatal) = 1"
    and h: "high_score c2_fatal < score (game_tick rnd0 True c2_fatal)"
    by code_simp+
  note t1 = C3_lives_range_and_game_over [of c3_started 0 0 rnd0 True]
  note t2 = C3_lives_range_and_game_over [of c3_refuel 0 "car_lx (player_lane c3_refuel)" rnd0 True]
  note t3 = C3_lives_range_and_game_over [of c2_fatal 0 0 rnd0 True]
  from r p t1 have 1: "unat (lives c3_started) \<le> 5 \<and> 1 \<le> unat (lives c3_started)"
    by blast
  from f t2 have 2: "lives (powerup_step (car_lx (player_lane c3_refuel)) 0 c3_refuel) = MAX_LIVES"
    by blast
  from g t3 have 3: "lives (game_tick rnd0 True c2_fatal) = 0 \<and>
      state (game_tick rnd0 True c2_fatal) = StateGameOver \<and>
      timer (game_tick rnd0 True c2_fatal) = None \<and>
      high_score (game_tick rnd0 True c2_fatal) =
        (if score (game_tick rnd0 True c2_fatal) > high_score c2_fatal
         then score (game_tick rnd0 True c2_fatal) else high_score c2_fatal) \<and>
      hs_file (game_tick rnd0 True c2_fatal) =
        (if score (game_tick rnd0 True c2_fatal) > high_score c2_fatal \<and> True
         then Some (score (game_tick rnd0 True c2_fatal)) else hs_file c2_fatal)"
    by blast
  with h have 4: "high_score (game_tick rnd0 True c2_fatal) = score (game_tick rnd0 True c2_fatal)"
    "hs_file (game_tick rnd0 True c2_fatal) = Some (score (game_tick rnd0 True c2_fatal))"
    by simp_all
  from r p f g h 1 2 3 4 show ?thesis by blast
qed

text \<open>
  C4. A collected coin is to increment the combo counter, set the combo-display countdown
  to \<open>15\<close> and add \<open>25 * max(combo after the increment, 1)\<close> to the score. Below a combo of
  \<open>255\<close> the coin loop does so (lemma \<open>coin_award_below_wrap\<close>). At combo \<open>255\<close> the
  increment of the 8-bit counter wraps: on the tick below the coin moves onto the player
  and is collected, the combo after the collection is \<open>0\<close> and not \<open>256\<close>, and the score
  grows by \<open>25\<close> and not by \<open>25 * 256 = 6400\<close>.
\<close>

theorem C4_increment_wraps:
  "state c8_wrap = StatePlaying \<and> unat (combo c8_wrap) = 255 \<and>
   c_alive (coins c8_wrap ! 0) \<and>
   coin_touch (car_lx (player_lane c8_wrap)) (move_coin (base_spd c8_wrap) (coins c8_wrap ! 0)) \<and>
   \<not> c_alive (coins (game_tick rnd0 True c8_wrap) ! 0) \<and>
   combo_display (game_tick rnd0 True c8_wrap) = 15 \<and>
   unat (combo (game_tick rnd0 True c8_wrap)) = 0 \<and>
   unat (combo (game_tick rnd0 True c8_wrap)) \<noteq> unat (combo c8_wrap) + 1 \<and>
   score (game_tick rnd0 True c8_wrap) = score c8_wrap + 25 \<and>
   score (game_tick rnd0 True c8_wrap) \<noteq> score c8_wrap + 6400"
  by code_simp

text \<open>
  C5, as amended. A tick in the Playing state runs the three move loops, on the pools as
  they were at its start, with \<open>spd = 3 + floor(level / 2)\<close> for the level at its start,
  before it spawns, collects and tests for a collision. Each
  active obstacle moves down by \<open>spd + 1\<close> when Narrow, \<open>spd - 1\<close> when Wide and \<open>spd\<close> when
  Standard, and keeps its lane and class; it retires exactly when its vertical offset
  after the move is beyond \<^verbatim>\<open>SCREEN_H\<close> plus \<open>16\<close> for Wide and plus \<open>12\<close> for Narrow and
  Standard, and the score grows by \<open>10\<close> for each obstacle that retires. Each active coin
  and power-up moves down by \<open>spd\<close> and retires exactly when its vertical offset after the
  move is beyond \<^verbatim>\<open>SCREEN_H\<close>, with no score. Inactive slots are not touched.
\<close>

theorem C5_motion_and_retirement:
  "base_spd s = 3 + uint (level s) div 2 \<and>
   base_spd (move_scenery rnd (update_particles (tick_counters s))) = base_spd s \<and>
   obs_move spd ob = (case o_type ob of ObsMoto \<Rightarrow> spd + 1 | ObsSedan \<Rightarrow> spd | ObsTruck \<Rightarrow> spd - 1) \<and>
   0 < obs_move (base_spd s) ob \<and>
   (k < MAX_OBS \<and> k < length (obstacles s) \<and> o_alive (obstacles s ! k) \<longrightarrow>
      o_y (obstacles (move_obstacles spd s) ! k) =
        o_y (obstacles s ! k) + word_of_int (obs_move spd (obstacles s ! k)) \<and>
      (- 32768 \<le> sint (o_y (obstacles s ! k)) + obs_move spd (obstacles s ! k) \<and>
       sint (o_y (obstacles s ! k)) + obs_move spd (obstacles s ! k) < 32768 \<longrightarrow>
         sint (o_y (obstacles (move_obstacles spd s) ! k)) =
           sint (o_y (obstacles s ! k)) + obs_move spd (obstacles s ! k)) \<and>
      o_lane (obstacles (move_obstacles spd s) ! k) = o_lane (obstacles s ! k) \<and>
      o_type (obstacles (move_obstacles spd s) ! k) = o_type (obstacles s ! k) \<and>
      (\<not> o_alive (obstacles (move_obstacles spd s) ! k) \<longleftrightarrow>
         sint (o_y (obstacles (move_obstacles spd s) ! k)) >
           SCREEN_H + (if o_type (obstacles s ! k) = ObsTruck then 16 else 12))) \<and>
   (k < MAX_OBS \<and> k < length (obstacles s) \<and> \<not> o_alive (obstacles s ! k) \<longrightarrow>
      obstacles (move_obstacles spd s) ! k = obstacles s ! k) \<and>
   score (move_obstacles spd s) =
     score s + 10 * word_of_nat (length (filter (\<lambda>k. obstacle_retires spd (obstacles s ! k)) [0..<MAX_OBS])) \<and>
   (k < MAX_COINS \<and> k < length (coins s) \<and> c_alive (coins s ! k) \<longrightarrow>
      c_y (coins (move_coins spd s) ! k) = c_y (coins s ! k) + word_of_int spd \<and>
      (- 32768 \<le> sint (c_y (coins s ! k)) + spd \<and> sint (c_y (coins s ! k)) + spd < 32768 \<longrightarrow>
         sint (c_y (coins (move_coins spd s) ! k)) = sint (c_y (coins s ! k)) + spd) \<and>
      c_lane (coins (move_coins spd s) ! k) = c_lane (coins s ! k) \<and>
      (\<not> c_alive (coins (move_coins spd s) ! k) \<longleftrightarrow>
         sint (c_y (coins (move_coins spd s) ! k)) > SCREEN_H)) \<and>
   (k < MAX_COINS \<and> k < length (coins s) \<and> \<not> c_alive (coins s ! k) \<longrightarrow>
      coins (move_coins spd s) ! k = coins s ! k) \<and>
   score (move_coins spd s) = score s \<and>
   (k < MAX_POWERUPS \<and> k < length (powerups s) \<and> p_alive (powerups s ! k) \<longrightarrow>
      p_y (powerups (move_powerups spd s) ! k) = p_y (powerups s ! k) + word_of_int spd \<and>
      (- 32768 \<le> sint (p_y (powerups s ! k)) + spd \<and> sint (p_y (powerups s ! k)) + spd < 32768 \<longrightarrow>
         sint (p_y (powerups (move_powerups spd s) ! k)) = sint (p_y (powerups s ! k)) + spd) \<and>
      p_lane (powerups (move_powerups spd s) ! k) = p_lane (powerups s ! k) \<and>
      p_type (powerups (move_powerups spd s) ! k) = p_type (powerups s ! k) \<and>
      (\<not> p_alive (powerups (move_powerups spd s) ! k) \<longleftrightarrow>
         sint (p_y (powerups (move_powerups spd s) ! k)) > SCREEN_H)) \<and>
   (k < MAX_POWERUPS \<and> k < length (powerups s) \<and> \<not> p_alive (powerups s ! k) \<longrightarrow>
      powerups (move_powerups spd s) ! k = powerups s ! k) \<and>
   score (move_powerups spd s) = score s \<and>
   obstacles (move_scenery rnd (update_particles (tick_counters s))) = obstacles s \<and>
   coins (move_scenery rnd (update_particles (tick_counters s))) = coins s \<and>
   powerups (move_scenery rnd (update_particles (tick_counters s))) = powerups s \<and>
   score (move_scenery rnd (update_particles (tick_counters s))) = score s \<and>
   advance rnd s =
     check_collections (spawn_phase rnd
       (move_powerups (base_spd s) (move_coins (base_spd s) (move_obstacles (base_spd s)
          (move_scenery rnd (update_particles (tick_counters s))))))) \<and>
   (state s = StatePlaying \<longrightarrow>
      game_tick rnd ok s =
        (case resolve_collision rnd ok
           (check_collections (spawn_phase rnd
             (move_powerups (base_spd s) (move_coins (base_spd s) (move_obstacles (base_spd s)
                (move_scenery rnd (update_particles (tick_counters s)))))))) of
           (s1, returned) \<Rightarrow> if returned then s1 else level_up s1))"
proof (intro conjI impI)
  show "obstacles (move_scenery rnd (update_particles (tick_counters s))) = obstacles s"
    "coins (move_scenery rnd (update_particles (tick_counters s))) = coins s"
    "powerups (move_scenery rnd (update_particles (tick_counters s))) = powerups s"
    "score (move_scenery rnd (update_particles (tick_counters s))) = score s"
    by simp_all
  show "advance rnd s =
     check_collections (spawn_phase rnd
       (move_powerups (base_spd s) (move_coins (base_spd s) (move_obstacles (base_spd s)
          (move_scenery rnd (update_particles (tick_counters s)))))))"
    by (rule advance_blocks)
  show "game_tick rnd ok s =
        (case resolve_collision rnd ok
           (check_collections (spawn_phase rnd
             (move_powerups (base_spd s) (move_coins (base_spd s) (move_obstacles (base_spd s)
                (move_scenery rnd (update_particles (tick_counters s)))))))) of
           (s1, returned) \<Rightarrow> if returned then s1 else level_up s1)"
    if "state s = StatePlaying" using that by (rule game_tick_playing)
  show "base_spd s = 3 + uint (level s) div 2" by (simp add: base_spd_def)
  show "base_spd (move_scenery rnd (update_particles (tick_counters s))) = base_spd s"
    by (rule base_spd_advance)
  show "obs_move spd ob = (case o_type ob of ObsMoto \<Rightarrow> spd + 1 | ObsSedan \<Rightarrow> spd | ObsTruck \<Rightarrow> spd - 1)"
    by (rule obs_move_cases)
  show "0 < obs_move (base_spd s) ob" using obs_move_pos [of s ob] by simp
  show "score (move_obstacles spd s) =
     score s + 10 * word_of_nat (length (filter (\<lambda>k. obstacle_retires spd (obstacles s ! k)) [0..<MAX_OBS]))"
    by (rule score_move_obstacles)
  show "score (move_coins spd s) = score s" "score (move_powerups spd s) = score s"
    by simp_all
next
  assume h: "k < MAX_OBS \<and> k < length (obstacles s) \<and> o_alive (obstacles s ! k)"
  then have n: "obstacles (move_obstacles spd s) ! k =
      (obstacles s ! k)\<lparr>o_y := o_y (obstacles s ! k) + word_of_int (obs_move spd (obstacles s ! k)),
                         o_alive := \<not> obstacle_retires spd (obstacles s ! k)\<rparr>"
    by (simp add: move_obstacles_nth)
  show "o_y (obstacles (move_obstacles spd s) ! k) =
        o_y (obstacles s ! k) + word_of_int (obs_move spd (obstacles s ! k))"
    "o_lane (obstacles (move_obstacles spd s) ! k) = o_lane (obstacles s ! k)"
    "o_type (obstacles (move_obstacles spd s) ! k) = o_type (obstacles s ! k)"
    by (simp_all add: n)
  show "\<not> o_alive (obstacles (move_obstacles spd s) ! k) \<longleftrightarrow>
         sint (o_y (obstacles (move_obstacles spd s) ! k)) >
           SCREEN_H + (if o_type (obstacles s ! k) = ObsTruck then 16 else 12)"
    using h by (simp add: n obstacle_retires_def retire_oh_def)
  show "sint (o_y (obstacles (move_obstacles spd s) ! k)) =
           sint (o_y (obstacles s ! k)) + obs_move spd (obstacles s ! k)"
    if "- 32768 \<le> sint (o_y (obstacles s ! k)) + obs_move spd (obstacles s ! k) \<and>
       sint (o_y (obstacles s ! k)) + obs_move spd (obstacles s ! k) < 32768"
    using that by (simp add: n sint16_add)
next
  assume "k < MAX_OBS \<and> k < length (obstacles s) \<and> \<not> o_alive (obstacles s ! k)"
  then show "obstacles (move_obstacles spd s) ! k = obstacles s ! k"
    by (simp add: move_obstacles_nth)
next
  assume h: "k < MAX_COINS \<and> k < length (coins s) \<and> c_alive (coins s ! k)"
  then have n: "coins (move_coins spd s) ! k = move_coin spd (coins s ! k)"
    by (simp add: move_coins_nth)
  from h show "c_y (coins (move_coins spd s) ! k) = c_y (coins s ! k) + word_of_int spd"
    "c_lane (coins (move_coins spd s) ! k) = c_lane (coins s ! k)"
    "\<not> c_alive (coins (move_coins spd s) ! k) \<longleftrightarrow>
         sint (c_y (coins (move_coins spd s) ! k)) > SCREEN_H"
    by (simp_all add: n move_coin_def Let_def)
  then show "sint (c_y (coins (move_coins spd s) ! k)) = sint (c_y (coins s ! k)) + spd"
    if "- 32768 \<le> sint (c_y (coins s ! k)) + spd \<and> sint (c_y (coins s ! k)) + spd < 32768"
    using that by (simp add: sint16_add)
next
  assume "k < MAX_COINS \<and> k < length (coins s) \<and> \<not> c_alive (coins s ! k)"
  then show "coins (move_coins spd s) ! k = coins s ! k"
    by (simp add: move_coins_nth move_coin_def)
next
  assume h: "k < MAX_POWERUPS \<and> k < length (powerups s) \<and> p_alive (powerups s ! k)"
  then have n: "powerups (move_powerups spd s) ! k = move_powerup spd (powerups s ! k)"
    by (simp add: move_powerups_nth)
  from h show "p_y (powerups (move_powerups spd s) ! k) = p_y (powerups s ! k) + word_of_int spd"
    "p_lane (powerups (move_powerups spd s) ! k) = p_lane (powerups s ! k)"
    "p_type (powerups (move_powerups spd s) ! k) = p_type (powerups s ! k)"
    "\<not> p_alive (powerups (move_powerups spd s) ! k) \<longleftrightarrow>
         sint (p_y (powerups (move_powerups spd s) ! k)) > SCREEN_H"
    by (simp_all add: n move_powerup_def Let_def)
  then show "sint (p_y (powerups (move_powerups spd s) ! k)) = sint (p_y (powerups s ! k)) + spd"
    if "- 32768 \<le> sint (p_y (powerups s ! k)) + spd \<and> sint (p_y (powerups s ! k)) + spd < 32768"
    using that by (simp add: sint16_add)
next
  assume "k < MAX_POWERUPS \<and> k < length (powerups s) \<and> \<not> p_alive (powerups s ! k)"
  then show "powerups (move_powerups spd s) ! k = powerups s ! k"
    by (simp add: move_powerups_nth move_powerup_def)
qed

theorem C5_motion_and_retirement_witness:
  "(0 :: nat) < MAX_OBS \<and> 0 < length (obstacles c5_exit) \<and> o_alive (obstacles c5_exit ! 0) \<and>
   - 32768 \<le> sint (o_y (obstacles c5_exit ! 0)) + obs_move 3 (obstacles c5_exit ! 0) \<and>
   sint (o_y (obstacles c5_exit ! 0)) + obs_move 3 (obstacles c5_exit ! 0) < 32768 \<and>
   sint (o_y (obstacles (move_obstacles 3 c5_exit) ! 0)) =
     sint (o_y (obstacles c5_exit ! 0)) + obs_move 3 (obstacles c5_exit ! 0) \<and>
   o_lane (obstacles (move_obstacles 3 c5_exit) ! 0) = o_lane (obstacles c5_exit ! 0) \<and>
   (1 :: nat) < MAX_OBS \<and> 1 < length (obstacles c5_exit) \<and> \<not> o_alive (obstacles c5_exit ! 1) \<and>
   obstacles (move_obstacles 3 c5_exit) ! 1 = obstacles c5_exit ! 1 \<and>
   (0 :: nat) < MAX_COINS \<and> 0 < length (coins c5_exit) \<and> c_alive (coins c5_exit ! 0) \<and>
   - 32768 \<le> sint (c_y (coins c5_exit ! 0)) + 3 \<and> sint (c_y (coins c5_exit ! 0)) + 3 < 32768 \<and>
   sint (c_y (coins (move_coins 3 c5_exit) ! 0)) = sint (c_y (coins c5_exit ! 0)) + 3 \<and>
   (1 :: nat) < MAX_COINS \<and> 1 < length (coins c5_exit) \<and> \<not> c_alive (coins c5_exit ! 1) \<and>
   coins (move_coins 3 c5_exit) ! 1 = coins c5_exit ! 1 \<and>
   (0 :: nat) < MAX_POWERUPS \<and> 0 < length (powerups c5_exit) \<and> p_alive (powerups c5_exit ! 0) \<and>
   - 32768 \<le> sint (p_y (powerups c5_exit ! 0)) + 3 \<and> sint (p_y (powerups c5_exit ! 0)) + 3 < 32768 \<and>
   sint (p_y (powerups (move_powerups 3 c5_exit) ! 0)) = sint (p_y (powerups c5_exit ! 0)) + 3 \<and>
   (1 :: nat) < MAX_POWERUPS \<and> 1 < length (powerups c5_exit) \<and> \<not> p_alive (powerups c5_exit ! 1) \<and>
   powerups (move_powerups 3 c5_exit) ! 1 = powerups c5_exit ! 1 \<and>
   state c5_exit = StatePlaying \<and> base_spd c5_exit = 3 \<and>
   game_tick rnd0 True c5_exit =
     (case resolve_collision rnd0 True
        (check_collections (spawn_phase rnd0
          (move_powerups (base_spd c5_exit) (move_coins (base_spd c5_exit)
            (move_obstacles (base_spd c5_exit)
               (move_scenery rnd0 (update_particles (tick_counters c5_exit)))))))) of
        (s1, returned) \<Rightarrow> if returned then s1 else level_up s1)"
proof -
  let ?ob = "obstacles c5_exit ! 0"
  have o0: "(0 :: nat) < MAX_OBS \<and> 0 < length (obstacles c5_exit) \<and> o_alive (obstacles c5_exit ! 0)"
    and o0r: "- 32768 \<le> sint (o_y (obstacles c5_exit ! 0)) + obs_move 3 (obstacles c5_exit ! 0) \<and>
      sint (o_y (obstacles c5_exit ! 0)) + obs_move 3 (obstacles c5_exit ! 0) < 32768"
    and o1: "(1 :: nat) < MAX_OBS \<and> 1 < length (obstacles c5_exit) \<and> \<not> o_alive (obstacles c5_exit ! 1)"
    and c0: "(0 :: nat) < MAX_COINS \<and> 0 < length (coins c5_exit) \<and> c_alive (coins c5_exit ! 0)"
    and c0r: "- 32768 \<le> sint (c_y (coins c5_exit ! 0)) + 3 \<and> sint (c_y (coins c5_exit ! 0)) + 3 < 32768"
    and c1: "(1 :: nat) < MAX_COINS \<and> 1 < length (coins c5_exit) \<and> \<not> c_alive (coins c5_exit ! 1)"
    and p0: "(0 :: nat) < MAX_POWERUPS \<and> 0 < length (powerups c5_exit) \<and> p_alive (powerups c5_exit ! 0)"
    and p0r: "- 32768 \<le> sint (p_y (powerups c5_exit ! 0)) + 3 \<and> sint (p_y (powerups c5_exit ! 0)) + 3 < 32768"
    and p1: "(1 :: nat) < MAX_POWERUPS \<and> 1 < length (powerups c5_exit) \<and> \<not> p_alive (powerups c5_exit ! 1)"
    and pl: "state c5_exit = StatePlaying" "base_spd c5_exit = 3"
    by code_simp+
  note t0 = C5_motion_and_retirement [of c5_exit rnd0 3 ?ob 0 True]
  note t1 = C5_motion_and_retirement [of c5_exit rnd0 3 ?ob 1 True]
  note a0 = t0 [THEN conjunct2, THEN conjunct2, THEN conjunct2, THEN conjunct2, THEN conjunct1, THEN mp, OF o0]
  note b0 = t0 [THEN conjunct2, THEN conjunct2, THEN conjunct2, THEN conjunct2, THEN conjunct2, THEN conjunct2, THEN conjunct2, THEN conjunct1, THEN mp, OF c0]
  note d0 = t0 [THEN conjunct2, THEN conjunct2, THEN conjunct2, THEN conjunct2, THEN conjunct2, THEN conjunct2, THEN conjunct2, THEN conjunct2, THEN conjunct2, THEN conjunct2, THEN conjunct1, THEN mp, OF p0]
  have 1:
    "sint (o_y (obstacles (move_obstacles 3 c5_exit) ! 0)) =
       sint (o_y (obstacles c5_exit ! 0)) + obs_move 3 (obstacles c5_exit ! 0)"
    "o_lane (obstacles (move_obstacles 3 c5_exit) ! 0) = o_lane (obstacles c5_exit ! 0)"
    using o0r apply (rule a0 [THEN conjunct2, THEN conjunct1, THEN mp])
    apply (rule a0 [THEN conjunct2, THEN conjunct2, THEN conjunct1])
    done
  have 2: "obstacles (move_obstacles 3 c5_exit) ! 1 = obstacles c5_exit ! 1"
    using o1 by (rule t1 [THEN conjunct2, THEN conjunct2, THEN conjunct2, THEN conjunct2, THEN conjunct2, THEN conjunct1, THEN mp])
  have 3:
    "sint (c_y (coins (move_coins 3 c5_exit) ! 0)) = sint (c_y (coins c5_exit ! 0)) + 3"
    using c0r by (rule b0 [THEN conjunct2, THEN conjunct1, THEN mp])
  have 4: "coins (move_coins 3 c5_exit) ! 1 = coins c5_exit ! 1"
    using c1 by (rule t1 [THEN conjunct2, THEN conjunct2, THEN conjunct2, THEN conjunct2, THEN conjunct2, THEN conjunct2, THEN conjunct2, THEN conjunct2, THEN conjunct1, THEN mp])
  have 5:
    "sint (p_y (powerups (move_powerups 3 c5_exit) ! 0)) = sint (p_y (powerups c5_exit ! 0)) + 3"
    using p0r by (rule d0 [THEN conjunct2, THEN conjunct1, THEN mp])
  have 6: "powerups (move_powerups 3 c5_exit) ! 1 = powerups c5_exit ! 1"
    using p1 by (rule t1 [THEN conjunct2, THEN conjunct2, THEN conjunct2, THEN conjunct2, THEN conjunct2, THEN conjunct2, THEN conjunct2, THEN conjunct2, THEN conjunct2, THEN conjunct2, THEN conjunct2, THEN conjunct1, THEN mp])
  have 7: "game_tick rnd0 True c5_exit =
     (case resolve_collision rnd0 True
        (check_collections (spawn_phase rnd0
          (move_powerups (base_spd c5_exit) (move_coins (base_spd c5_exit)
            (move_obstacles (base_spd c5_exit)
               (move_scenery rnd0 (update_particles (tick_counters c5_exit)))))))) of
        (s1, returned) \<Rightarrow> if returned then s1 else level_up s1)"
    using pl(1) by (rule t0 [THEN conjunct2, THEN conjunct2, THEN conjunct2, THEN conjunct2, THEN conjunct2, THEN conjunct2, THEN conjunct2, THEN conjunct2, THEN conjunct2, THEN conjunct2, THEN conjunct2, THEN conjunct2, THEN conjunct2, THEN conjunct2, THEN conjunct2, THEN conjunct2, THEN conjunct2, THEN conjunct2, THEN mp])
  show ?thesis
    using o0 o0r o1 c0 c0r c1 p0 p0r p1 pl 1 2 3 4 5 6 7
    by (intro conjI) simp_all
qed

text \<open>
  C5 as stated fails on the rule of retirement. On one tick at level 0 the coin (8 pixels
  high) goes from \<open>127\<close> to \<open>130\<close> and retires, though \<open>130\<close> is not beyond
  \<^verbatim>\<open>SCREEN_H\<close> plus its height, while the sedan (12 pixels high) goes from \<open>130\<close> to \<open>133\<close> and
  stays active: coins and power-ups retire at \<^verbatim>\<open>SCREEN_H\<close>, obstacles at \<^verbatim>\<open>SCREEN_H\<close> plus a
  height.
\<close>

theorem C5_counterexample:
  "state c5_exit = StatePlaying \<and> c_alive (coins c5_exit ! 0) \<and> o_alive (obstacles c5_exit ! 0) \<and>
   sint (c_y (coins (game_tick rnd0 True c5_exit) ! 0)) = 130 \<and>
   \<not> c_alive (coins (game_tick rnd0 True c5_exit) ! 0) \<and>
   \<not> (sint (c_y (coins (game_tick rnd0 True c5_exit) ! 0)) > SCREEN_H + 8) \<and>
   sint (o_y (obstacles (game_tick rnd0 True c5_exit) ! 0)) = 133 \<and>
   o_alive (obstacles (game_tick rnd0 True c5_exit) ! 0) \<and>
   sint (o_y (obstacles (game_tick rnd0 True c5_exit) ! 0)) > SCREEN_H \<and>
   score (game_tick rnd0 True c5_exit) = score c5_exit \<and>
   combo (game_tick rnd0 True c5_exit) = combo c5_exit"
  by code_simp

text \<open>
  C6, as amended. While the magnet timer is above \<open>0\<close>, an active coin whose vertical
  distance to the player's row is less than \<open>30\<close> and whose box does not overlap the
  player's box is pulled and not collected: combo and score stay, and after the whole of
  \<^verbatim>\<open>check_collections\<close> the coin is still active at the pulled position. Its vertical
  offset grows by \<open>4\<close> when it is above the player's row and shrinks by \<open>4\<close> when it is below
  it. Its lane index steps by one towards the player's lane when the lanes differ and
  stays when the coin is already in the player's lane.
\<close>

theorem C6_magnet_pull:
  "c_alive (coins s ! i) \<and> coin_magnet_pull s (coins s ! i) \<and>
   \<not> coin_touch (car_lx (player_lane s)) (coins s ! i) \<longrightarrow>
     coin_step (car_lx (player_lane s)) i s =
       s\<lparr>coins := (coins s)[i := pull_coin (player_lane s) (coins s ! i)]\<rparr> \<and>
     combo (coin_step (car_lx (player_lane s)) i s) = combo s \<and>
     score (coin_step (car_lx (player_lane s)) i s) = score s \<and>
     c_alive (pull_coin (player_lane s) (coins s ! i)) \<and>
     (sint (c_y (coins s ! i)) < PLAYER_Y \<longrightarrow>
        sint (c_y (pull_coin (player_lane s) (coins s ! i))) = sint (c_y (coins s ! i)) + 4) \<and>
     (sint (c_y (coins s ! i)) > PLAYER_Y \<longrightarrow>
        sint (c_y (pull_coin (player_lane s) (coins s ! i))) = sint (c_y (coins s ! i)) - 4) \<and>
     (sint (c_lane (coins s ! i)) < sint (player_lane s) \<longrightarrow>
        sint (c_lane (pull_coin (player_lane s) (coins s ! i))) = sint (c_lane (coins s ! i)) + 1) \<and>
     (sint (c_lane (coins s ! i)) > sint (player_lane s) \<longrightarrow>
        sint (c_lane (pull_coin (player_lane s) (coins s ! i))) = sint (c_lane (coins s ! i)) - 1) \<and>
     (c_lane (coins s ! i) = player_lane s \<longrightarrow>
        c_lane (pull_coin (player_lane s) (coins s ! i)) = c_lane (coins s ! i)) \<and>
     (i < MAX_COINS \<and> i < length (coins s) \<longrightarrow>
        coins (check_collections s) ! i = pull_coin (player_lane s) (coins s ! i) \<and>
        c_alive (coins (check_collections s) ! i))"
proof (intro impI)
  let ?c = "coins s ! i"
  assume h: "c_alive ?c \<and> coin_magnet_pull s ?c \<and> \<not> coin_touch (car_lx (player_lane s)) ?c"
  then have e: "coin_step (car_lx (player_lane s)) i s =
       s\<lparr>coins := (coins s)[i := pull_coin (player_lane s) ?c]\<rparr>"
    by (simp add: coin_step_pull)
  from h have y: "\<bar>sint (c_y ?c) - PLAYER_Y\<bar> < 30"
    by (simp add: coin_magnet_pull_def)
  have cc: "coins (check_collections s) ! i = pull_coin (player_lane s) ?c"
    if "i < MAX_COINS \<and> i < length (coins s)"
    using that h by (simp add: check_collections_pulled)
  show "coin_step (car_lx (player_lane s)) i s =
       s\<lparr>coins := (coins s)[i := pull_coin (player_lane s) ?c]\<rparr> \<and>
     combo (coin_step (car_lx (player_lane s)) i s) = combo s \<and>
     score (coin_step (car_lx (player_lane s)) i s) = score s \<and>
     c_alive (pull_coin (player_lane s) ?c) \<and>
     (sint (c_y ?c) < PLAYER_Y \<longrightarrow>
        sint (c_y (pull_coin (player_lane s) ?c)) = sint (c_y ?c) + 4) \<and>
     (sint (c_y ?c) > PLAYER_Y \<longrightarrow>
        sint (c_y (pull_coin (player_lane s) ?c)) = sint (c_y ?c) - 4) \<and>
     (sint (c_lane ?c) < sint (player_lane s) \<longrightarrow>
        sint (c_lane (pull_coin (player_lane s) ?c)) = sint (c_lane ?c) + 1) \<and>
     (sint (c_lane ?c) > sint (player_lane s) \<longrightarrow>
        sint (c_lane (pull_coin (player_lane s) ?c)) = sint (c_lane ?c) - 1) \<and>
     (c_lane ?c = player_lane s \<longrightarrow>
        c_lane (pull_coin (player_lane s) ?c) = c_lane ?c) \<and>
     (i < MAX_COINS \<and> i < length (coins s) \<longrightarrow>
        coins (check_collections s) ! i = pull_coin (player_lane s) ?c \<and>
        c_alive (coins (check_collections s) ! i))"
  proof (intro conjI impI)
    show "coin_step (car_lx (player_lane s)) i s =
       s\<lparr>coins := (coins s)[i := pull_coin (player_lane s) ?c]\<rparr>" by (rule e)
    show "combo (coin_step (car_lx (player_lane s)) i s) = combo s"
      "score (coin_step (car_lx (player_lane s)) i s) = score s"
      by (simp_all add: e)
    show "c_alive (pull_coin (player_lane s) ?c)" using h by simp
    show "sint (c_y (pull_coin (player_lane s) ?c)) = sint (c_y ?c) + 4"
      if "sint (c_y ?c) < PLAYER_Y" using that y by (rule pull_coin_y(1) [rotated])
    show "sint (c_y (pull_coin (player_lane s) ?c)) = sint (c_y ?c) - 4"
      if "sint (c_y ?c) > PLAYER_Y" using pull_coin_y(2) [OF y, of "player_lane s"] that by simp
    show "sint (c_lane (pull_coin (player_lane s) ?c)) = sint (c_lane ?c) + 1"
      if "sint (c_lane ?c) < sint (player_lane s)" using that by (rule pull_coin_lane)
    show "sint (c_lane (pull_coin (player_lane s) ?c)) = sint (c_lane ?c) - 1"
      if "sint (c_lane ?c) > sint (player_lane s)" using that by (rule pull_coin_lane)
    show "c_lane (pull_coin (player_lane s) ?c) = c_lane ?c"
      if "c_lane ?c = player_lane s" using that by (rule pull_coin_lane)
    show "coins (check_collections s) ! i = pull_coin (player_lane s) ?c"
      if "i < MAX_COINS \<and> i < length (coins s)" using that by (rule cc)
    show "c_alive (coins (check_collections s) ! i)"
      if "i < MAX_COINS \<and> i < length (coins s)" using cc [OF that] h by simp
  qed
qed

theorem C6_magnet_pull_witness:
  "c_alive (coins c6_above ! 0) \<and> coin_magnet_pull c6_above (coins c6_above ! 0) \<and>
   \<not> coin_touch (car_lx (player_lane c6_above)) (coins c6_above ! 0) \<and>
   sint (c_y (coins c6_above ! 0)) < PLAYER_Y \<and>
   sint (c_lane (coins c6_above ! 0)) < sint (player_lane c6_above) \<and>
   (0 :: nat) < MAX_COINS \<and> 0 < length (coins c6_above) \<and>
   sint (c_y (pull_coin (player_lane c6_above) (coins c6_above ! 0))) =
     sint (c_y (coins c6_above ! 0)) + 4 \<and>
   sint (c_lane (pull_coin (player_lane c6_above) (coins c6_above ! 0))) =
     sint (c_lane (coins c6_above ! 0)) + 1 \<and>
   c_alive (coins (check_collections c6_above) ! 0) \<and>
   score (coin_step (car_lx (player_lane c6_above)) 0 c6_above) = score c6_above \<and>
   c_alive (coins c6_below ! 0) \<and> coin_magnet_pull c6_below (coins c6_below ! 0) \<and>
   \<not> coin_touch (car_lx (player_lane c6_below)) (coins c6_below ! 0) \<and>
   sint (c_y (coins c6_below ! 0)) > PLAYER_Y \<and>
   sint (c_lane (coins c6_below ! 0)) > sint (player_lane c6_below) \<and>
   sint (c_y (pull_coin (player_lane c6_below) (coins c6_below ! 0))) =
     sint (c_y (coins c6_below ! 0)) - 4 \<and>
   sint (c_lane (pull_coin (player_lane c6_below) (coins c6_below ! 0))) =
     sint (c_lane (coins c6_below ! 0)) - 1 \<and>
   c_alive (coins c6_same ! 0) \<and> coin_magnet_pull c6_same (coins c6_same ! 0) \<and>
   \<not> coin_touch (car_lx (player_lane c6_same)) (coins c6_same ! 0) \<and>
   c_lane (coins c6_same ! 0) = player_lane c6_same \<and>
   c_lane (pull_coin (player_lane c6_same) (coins c6_same ! 0)) = c_lane (coins c6_same ! 0)"
proof -
  have a: "c_alive (coins c6_above ! 0) \<and> coin_magnet_pull c6_above (coins c6_above ! 0) \<and>
      \<not> coin_touch (car_lx (player_lane c6_above)) (coins c6_above ! 0)"
    and a': "sint (c_y (coins c6_above ! 0)) < PLAYER_Y"
      "sint (c_lane (coins c6_above ! 0)) < sint (player_lane c6_above)"
      "(0 :: nat) < MAX_COINS \<and> 0 < length (coins c6_above)"
    and b: "c_alive (coins c6_below ! 0) \<and> coin_magnet_pull c6_below (coins c6_below ! 0) \<and>
      \<not> coin_touch (car_lx (player_lane c6_below)) (coins c6_below ! 0)"
    and b': "sint (c_y (coins c6_below ! 0)) > PLAYER_Y"
      "sint (c_lane (coins c6_below ! 0)) > sint (player_lane c6_below)"
    and c: "c_alive (coins c6_same ! 0) \<and> coin_magnet_pull c6_same (coins c6_same ! 0) \<and>
      \<not> coin_touch (car_lx (player_lane c6_same)) (coins c6_same ! 0)"
    and c': "c_lane (coins c6_same ! 0) = player_lane c6_same"
    by code_simp+
  note t1 = C6_magnet_pull [of c6_above 0, rule_format, OF a]
  note t2 = C6_magnet_pull [of c6_below 0, rule_format, OF b]
  note t3 = C6_magnet_pull [of c6_same 0, rule_format, OF c]
  from t1 a' have 1:
    "sint (c_y (pull_coin (player_lane c6_above) (coins c6_above ! 0))) =
       sint (c_y (coins c6_above ! 0)) + 4"
    "sint (c_lane (pull_coin (player_lane c6_above) (coins c6_above ! 0))) =
       sint (c_lane (coins c6_above ! 0)) + 1"
    "c_alive (coins (check_collections c6_above) ! 0)"
    "score (coin_step (car_lx (player_lane c6_above)) 0 c6_above) = score c6_above"
    by blast+
  from t2 b' have 2:
    "sint (c_y (pull_coin (player_lane c6_below) (coins c6_below ! 0))) =
       sint (c_y (coins c6_below ! 0)) - 4"
    "sint (c_lane (pull_coin (player_lane c6_below) (coins c6_below ! 0))) =
       sint (c_lane (coins c6_below ! 0)) - 1"
    by blast+
  from t3 c' have 3:
    "c_lane (pull_coin (player_lane c6_same) (coins c6_same ! 0)) = c_lane (coins c6_same ! 0)"
    by blast
  from a a' b b' c c' 1 2 3 show ?thesis by blast
qed

text \<open>
  C6 as stated fails for a coin exactly on the player's row: it is pulled, and its
  vertical offset goes from \<open>105\<close> to \<open>101\<close>, four pixels away from the row.
\<close>

theorem C6_counterexample:
  "c_alive (coins c6_row ! 0) \<and> coin_magnet_pull c6_row (coins c6_row ! 0) \<and>
   \<not> coin_touch (car_lx (player_lane c6_row)) (coins c6_row ! 0) \<and>
   sint (c_y (coins c6_row ! 0)) = PLAYER_Y \<and>
   c_alive (coins (check_collections c6_row) ! 0) \<and>
   sint (c_y (coins (check_collections c6_row) ! 0)) = 101"
  by code_simp

text \<open>
  C7, as amended. The obstacle written by a spawn is Wide exactly when \<open>level > 0\<close>,
  \<open>level % 5 = 0\<close> and the draw \<^verbatim>\<open>rand() % 4\<close> gives \<open>0\<close>; it then has the centre lane,
  whatever lane was drawn first. Otherwise it keeps the drawn lane and is Narrow exactly
  when the next draw \<^verbatim>\<open>rand() % 3\<close> gives \<open>0\<close>, and Standard if not. Every Wide obstacle of
  every reachable state has the centre lane, and a tick keeps it so. The hitbox of a Wide
  obstacle in the centre lane is \<open>20\<close> pixels wide, twice the car width, from \<open>x = 21\<close> to
  \<open>x = 41\<close>; it overlaps the player's box in each of the three lanes.
\<close>

theorem C7_boss_spawn:
  "(i < length (obstacles s) \<longrightarrow>
      (o_type (obstacles (new_obstacle rnd i s) ! i) = ObsTruck \<longleftrightarrow>
         level s > 0 \<and> unat (level s) mod 5 = 0 \<and> rand_at rnd s 1 mod 4 = 0) \<and>
      (o_type (obstacles (new_obstacle rnd i s) ! i) = ObsTruck \<longrightarrow>
         o_lane (obstacles (new_obstacle rnd i s) ! i) = 1) \<and>
      (o_type (obstacles (new_obstacle rnd i s) ! i) \<noteq> ObsTruck \<longrightarrow>
         o_lane (obstacles (new_obstacle rnd i s) ! i) = word_of_nat (rand_at rnd s 0 mod LANE_COUNT) \<and>
         (o_type (obstacles (new_obstacle rnd i s) ! i) = ObsMoto \<longleftrightarrow>
            rand_at rnd s (if level s > 0 \<and> unat (level s) mod 5 = 0 then 2 else 1) mod 3 = 0) \<and>
         (o_type (obstacles (new_obstacle rnd i s) ! i) = ObsMoto \<or>
          o_type (obstacles (new_obstacle rnd i s) ! i) = ObsSedan))) \<and>
   (o_type ob = ObsTruck \<and> o_lane ob = 1 \<longrightarrow>
      obs_ox ob = 21 \<and> obs_ow ob = 20 \<and> obs_ow ob = 2 * CAR_W \<and>
      (\<forall>l \<in> {0, 1, 2}. car_lx l < obs_ox ob + obs_ow ob \<and> car_lx l + CAR_W > obs_ox ob)) \<and>
   (reachable s \<longrightarrow> truck_centred (obstacles s)) \<and>
   (truck_centred (obstacles s) \<longrightarrow> truck_centred (obstacles (game_tick rnd ok s)))"
proof (intro conjI impI)
  assume i: "i < length (obstacles s)"
  note ty = new_obstacle_type [OF i, of rnd]
  show "o_type (obstacles (new_obstacle rnd i s) ! i) = ObsTruck \<longleftrightarrow>
         level s > 0 \<and> unat (level s) mod 5 = 0 \<and> rand_at rnd s 1 mod 4 = 0"
    by (simp add: ty)
  show "o_lane (obstacles (new_obstacle rnd i s) ! i) = 1"
    if "o_type (obstacles (new_obstacle rnd i s) ! i) = ObsTruck"
    using that by (simp add: ty split: if_splits)
  assume n: "o_type (obstacles (new_obstacle rnd i s) ! i) \<noteq> ObsTruck"
  then have nb: "\<not> (level s > 0 \<and> unat (level s) mod 5 = 0 \<and> rand_at rnd s 1 mod 4 = 0)"
    unfolding ty by (auto split: if_splits)
  from nb show "o_lane (obstacles (new_obstacle rnd i s) ! i) =
      word_of_nat (rand_at rnd s 0 mod LANE_COUNT)"
    unfolding ty by (rule if_not_P)
  from nb show "o_type (obstacles (new_obstacle rnd i s) ! i) = ObsMoto \<longleftrightarrow>
      rand_at rnd s (if level s > 0 \<and> unat (level s) mod 5 = 0 then 2 else 1) mod 3 = 0"
    unfolding ty by (simp only: if_not_P) simp
  from nb show "o_type (obstacles (new_obstacle rnd i s) ! i) = ObsMoto \<or>
      o_type (obstacles (new_obstacle rnd i s) ! i) = ObsSedan"
    unfolding ty by (simp only: if_not_P) simp
next
  assume t: "o_type ob = ObsTruck \<and> o_lane ob = 1"
  then have a1: "o_type ob = ObsTruck" and a2: "o_lane ob = 1" by simp_all
  show "obs_ox ob = 21" "obs_ow ob = 20"
    "\<forall>l \<in> {0, 1, 2}. car_lx l < obs_ox ob + obs_ow ob \<and> car_lx l + CAR_W > obs_ox ob"
    by (rule truck_hitbox [OF a1 a2])+
  show "obs_ow ob = 2 * CAR_W"
    using truck_hitbox(2) [OF a1 a2] by simp
next
  show "truck_centred (obstacles s)" if "reachable s"
    using that by (rule truck_centred_reachable)
  show "truck_centred (obstacles (game_tick rnd ok s))" if "truck_centred (obstacles s)"
    using that by (rule truck_centred_game_tick)
qed

theorem C7_boss_spawn_witness:
  "(0 :: nat) < length (obstacles c7_boss) \<and>
   level c7_boss > 0 \<and> unat (level c7_boss) mod 5 = 0 \<and> rand_at rnd0 c7_boss 1 mod 4 = 0 \<and>
   o_type (obstacles (new_obstacle rnd0 0 c7_boss) ! 0) = ObsTruck \<and>
   o_lane (obstacles (new_obstacle rnd0 0 c7_boss) ! 0) = 1 \<and>
   obs_ox (obstacles (new_obstacle rnd0 0 c7_boss) ! 0) = 21 \<and>
   obs_ow (obstacles (new_obstacle rnd0 0 c7_boss) ! 0) = 20 \<and>
   (0 :: nat) < length (obstacles play0) \<and>
   o_type (obstacles (new_obstacle rnd1 0 play0) ! 0) \<noteq> ObsTruck \<and>
   o_lane (obstacles (new_obstacle rnd1 0 play0) ! 0) = 1 \<and>
   o_type (obstacles (new_obstacle rnd1 0 play0) ! 0) = ObsSedan \<and>
   rand_at rnd0 play0 1 mod 3 = 0 \<and>
   o_type (obstacles (new_obstacle rnd0 0 play0) ! 0) = ObsMoto \<and>
   reachable c3_started \<and> truck_centred (obstacles c3_started) \<and>
   truck_centred (obstacles c7_truck) \<and>
   truck_centred (obstacles (game_tick rnd0 True c7_truck))"
proof -
  have a: "(0 :: nat) < length (obstacles c7_boss)"
    and b: "level c7_boss > 0 \<and> unat (level c7_boss) mod 5 = 0 \<and> rand_at rnd0 c7_boss 1 mod 4 = 0"
    and c: "(0 :: nat) < length (obstacles play0)"
    and d: "\<not> (level play0 > 0 \<and> unat (level play0) mod 5 = 0 \<and> rand_at rnd1 play0 1 mod 4 = 0)"
      "\<not> (level play0 > 0 \<and> unat (level play0) mod 5 = 0 \<and> rand_at rnd0 play0 1 mod 4 = 0)"
    and e: "rand_at rnd0 play0 1 mod 3 = 0" "rand_at rnd1 play0 1 mod 3 \<noteq> 0"
      "\<not> (level play0 > 0 \<and> unat (level play0) mod 5 = 0)"
      "word_of_nat (rand_at rnd1 play0 0 mod LANE_COUNT) = (1 :: 8 word)"
    and f: "truck_centred (obstacles c7_truck)"
    by code_simp+
  have r: "reachable c3_started"
    unfolding c3_started_def by (intro reachable.intros)
  note t1 = C7_boss_spawn [of 0 c7_boss rnd0 "obstacles (new_obstacle rnd0 0 c7_boss) ! 0" True]
  note t2 = C7_boss_spawn [of 0 play0 rnd1 "obstacles (new_obstacle rnd1 0 play0) ! 0" True]
  note t3 = C7_boss_spawn [of 0 play0 rnd0 "obstacles (new_obstacle rnd0 0 play0) ! 0" True]
  note t4 = C7_boss_spawn [of 0 c3_started rnd0 "obstacles c3_started ! 0" True]
  note t5 = C7_boss_spawn [of 0 c7_truck rnd0 "obstacles c7_truck ! 0" True]
  note n1 = t1 [THEN conjunct1, rule_format, OF a]
  note n2 = t2 [THEN conjunct1, rule_format, OF c]
  note n3 = t3 [THEN conjunct1, rule_format, OF c]
  from n1 [THEN conjunct1] b have 1: "o_type (obstacles (new_obstacle rnd0 0 c7_boss) ! 0) = ObsTruck"
    by (rule iffD2)
  from n1 [THEN conjunct2, THEN conjunct1, rule_format, OF 1]
  have 2: "o_lane (obstacles (new_obstacle rnd0 0 c7_boss) ! 0) = 1" .
  from t1 [THEN conjunct2, THEN conjunct1, rule_format, OF conjI [OF 1 2]]
  have 3: "obs_ox (obstacles (new_obstacle rnd0 0 c7_boss) ! 0) = 21"
    "obs_ow (obstacles (new_obstacle rnd0 0 c7_boss) ! 0) = 20"
    by simp_all
  from n2 [THEN conjunct1] d(1)
  have 4: "o_type (obstacles (new_obstacle rnd1 0 play0) ! 0) \<noteq> ObsTruck"
    by simp
  note m2 = n2 [THEN conjunct2, THEN conjunct2, rule_format, OF 4]
  from m2 [THEN conjunct1] e(4) have 5: "o_lane (obstacles (new_obstacle rnd1 0 play0) ! 0) = 1"
    by simp
  from m2 [THEN conjunct2, THEN conjunct1] e(2,3)
  have "o_type (obstacles (new_obstacle rnd1 0 play0) ! 0) \<noteq> ObsMoto"
    by simp
  with m2 [THEN conjunct2, THEN conjunct2]
  have 6: "o_type (obstacles (new_obstacle rnd1 0 play0) ! 0) = ObsSedan"
    by simp
  from n3 [THEN conjunct1] d(2)
  have "o_type (obstacles (new_obstacle rnd0 0 play0) ! 0) \<noteq> ObsTruck"
    by simp
  note m3 = n3 [THEN conjunct2, THEN conjunct2, rule_format, OF this]
  from m3 [THEN conjunct2, THEN conjunct1] e(1,3)
  have 7: "o_type (obstacles (new_obstacle rnd0 0 play0) ! 0) = ObsMoto"
    by simp
  from t4 [THEN conjunct2, THEN conjunct2, THEN conjunct1, rule_format, OF r]
  have 8: "truck_centred (obstacles c3_started)" .
  from t5 [THEN conjunct2, THEN conjunct2, THEN conjunct2, rule_format, OF f]
  have 9: "truck_centred (obstacles (game_tick rnd0 True c7_truck))" .
  from a b c e(1) f r 1 2 3 4 5 6 7 8 9 show ?thesis by blast
qed

text \<open>
  C7 as stated fails on the width of the hitbox: the truck spawned at level 5 has a
  hitbox of \<open>20\<close> pixels, and two lane widths are \<open>28\<close>.
\<close>

theorem C7_counterexample:
  "o_alive (obstacles (spawn_obstacle rnd0 c7_boss) ! 0) \<and>
   o_type (obstacles (spawn_obstacle rnd0 c7_boss) ! 0) = ObsTruck \<and>
   o_lane (obstacles (spawn_obstacle rnd0 c7_boss) ! 0) = 1 \<and>
   obs_ow (obstacles (spawn_obstacle rnd0 c7_boss) ! 0) = 20 \<and>
   2 * LANE_WIDTH = 28 \<and>
   obs_ow (obstacles (spawn_obstacle rnd0 c7_boss) ! 0) \<noteq> 2 * LANE_WIDTH"
  by code_simp

text \<open>
  C8. The combo counter is to fall only by a resolved collision. At combo \<open>255\<close> the
  increment of the 8-bit counter wraps: the tick below collects one coin, resolves no
  collision and leaves the session Playing with all lives, and the combo goes from \<open>255\<close>
  to \<open>0\<close> (the award drops to \<open>25\<close>).
\<close>

theorem C8_combo_wraps:
  "state c8_wrap = StatePlaying \<and> level_ok c8_wrap \<and> combo c8_wrap = 255 \<and>
   \<not> check_collision (advance rnd0 c8_wrap) \<and>
   state (game_tick rnd0 True c8_wrap) = StatePlaying \<and>
   lives (game_tick rnd0 True c8_wrap) = lives c8_wrap \<and>
   score (game_tick rnd0 True c8_wrap) = score c8_wrap + 25 \<and>
   combo (game_tick rnd0 True c8_wrap) = 0"
proof -
  have "level_ok c8_wrap"
    by (simp add: level_ok_def c8_wrap_def play0_def zero_state_def)
  moreover have "state c8_wrap = StatePlaying \<and> combo c8_wrap = 255 \<and>
    \<not> check_collision (advance rnd0 c8_wrap) \<and>
    state (game_tick rnd0 True c8_wrap) = StatePlaying \<and>
    lives (game_tick rnd0 True c8_wrap) = lives c8_wrap \<and>
    score (game_tick rnd0 True c8_wrap) = score c8_wrap + 25 \<and>
    combo (game_tick rnd0 True c8_wrap) = 0"
    by code_simp
  ultimately show ?thesis by blast
qed

text \<open>
  C9. For each of the three pools: when every slot is active the spawn function returns
  the state it was given, with no error value in its type and no \<^verbatim>\<open>rand()\<close> call made (and
  so does the whole spawn block when all three pools are full); otherwise it writes the
  new entity, active and at its start height, into the first slot whose active flag is
  clear and leaves every other slot and the other pools as they were. Whether a spawn is
  attempted depends on the tick counter alone: a tick in the Playing state runs the spawn
  block on the counter it has just incremented, and the spawn block calls the spawn
  function of a pool exactly when that counter is a multiple of the pool's cadence. So a
  pool that was full is tried again on the next cadence tick, and the spawn then fills
  its first free slot.
\<close>

theorem C9_spawn_first_free_slot:
  "((\<forall>i<MAX_OBS. o_alive (obstacles s ! i)) \<longrightarrow> spawn_obstacle rnd s = s) \<and>
   ((\<forall>i<MAX_COINS. c_alive (coins s ! i)) \<longrightarrow> spawn_coin rnd s = s) \<and>
   ((\<forall>i<MAX_POWERUPS. p_alive (powerups s ! i)) \<longrightarrow> spawn_powerup rnd s = s) \<and>
   ((\<forall>i<MAX_OBS. o_alive (obstacles s ! i)) \<and> (\<forall>i<MAX_COINS. c_alive (coins s ! i)) \<and>
    (\<forall>i<MAX_POWERUPS. p_alive (powerups s ! i)) \<longrightarrow> spawn_phase rnd s = s) \<and>
   (i < MAX_OBS \<and> i < length (obstacles s) \<and> \<not> o_alive (obstacles s ! i) \<and>
    (\<forall>j<i. o_alive (obstacles s ! j)) \<longrightarrow>
      spawn_obstacle rnd s = new_obstacle rnd i s \<and>
      o_alive (obstacles (spawn_obstacle rnd s) ! i) \<and>
      o_y (obstacles (spawn_obstacle rnd s) ! i) = - 18 \<and>
      (\<forall>j. j \<noteq> i \<longrightarrow> obstacles (spawn_obstacle rnd s) ! j = obstacles s ! j) \<and>
      coins (spawn_obstacle rnd s) = coins s \<and> powerups (spawn_obstacle rnd s) = powerups s) \<and>
   (i < MAX_COINS \<and> i < length (coins s) \<and> \<not> c_alive (coins s ! i) \<and>
    (\<forall>j<i. c_alive (coins s ! j)) \<longrightarrow>
      spawn_coin rnd s = new_coin rnd i s \<and>
      c_alive (coins (spawn_coin rnd s) ! i) \<and>
      c_y (coins (spawn_coin rnd s) ! i) = - 12 \<and>
      (\<forall>j. j \<noteq> i \<longrightarrow> coins (spawn_coin rnd s) ! j = coins s ! j) \<and>
      obstacles (spawn_coin rnd s) = obstacles s \<and> powerups (spawn_coin rnd s) = powerups s) \<and>
   (i < MAX_POWERUPS \<and> i < length (powerups s) \<and> \<not> p_alive (powerups s ! i) \<and>
    (\<forall>j<i. p_alive (powerups s ! j)) \<longrightarrow>
      spawn_powerup rnd s = new_powerup rnd i s \<and>
      p_alive (powerups (spawn_powerup rnd s) ! i) \<and>
      p_y (powerups (spawn_powerup rnd s) ! i) = - 12 \<and>
      (\<forall>j. j \<noteq> i \<longrightarrow> powerups (spawn_powerup rnd s) ! j = powerups s ! j) \<and>
      obstacles (spawn_powerup rnd s) = obstacles s \<and> coins (spawn_powerup rnd s) = coins s) \<and>
   tick_count (spawn_phase rnd s) = tick_count s \<and> difficulty (spawn_phase rnd s) = difficulty s \<and>
   spawn_phase rnd s =
     (let s1 = (if tick_count s mod ucast (diff_spawn (difficulty s)) = 0
                then spawn_obstacle rnd s else s);
          s2 = (if tick_count s mod 18 = 0 then spawn_coin rnd s1 else s1)
      in (if tick_count s mod 60 = 0 then spawn_powerup rnd s2 else s2)) \<and>
   (tick_count s mod ucast (diff_spawn (difficulty s)) = 0 \<and>
    i < MAX_OBS \<and> i < length (obstacles s) \<and> \<not> o_alive (obstacles s ! i) \<and>
    (\<forall>j<i. o_alive (obstacles s ! j)) \<longrightarrow>
      o_alive (obstacles (spawn_phase rnd s) ! i) \<and>
      (\<forall>j. j \<noteq> i \<longrightarrow> obstacles (spawn_phase rnd s) ! j = obstacles s ! j)) \<and>
   (tick_count s mod ucast (diff_spawn (difficulty s)) \<noteq> 0 \<longrightarrow>
      obstacles (spawn_phase rnd s) = obstacles s) \<and>
   (tick_count s mod 18 = 0 \<and>
    i < MAX_COINS \<and> i < length (coins s) \<and> \<not> c_alive (coins s ! i) \<and>
    (\<forall>j<i. c_alive (coins s ! j)) \<longrightarrow>
      c_alive (coins (spawn_phase rnd s) ! i) \<and>
      (\<forall>j. j \<noteq> i \<longrightarrow> coins (spawn_phase rnd s) ! j = coins s ! j)) \<and>
   (tick_count s mod 18 \<noteq> 0 \<longrightarrow> coins (spawn_phase rnd s) = coins s) \<and>
   (tick_count s mod 60 = 0 \<and>
    i < MAX_POWERUPS \<and> i < length (powerups s) \<and> \<not> p_alive (powerups s ! i) \<and>
    (\<forall>j<i. p_alive (powerups s ! j)) \<longrightarrow>
      p_alive (powerups (spawn_phase rnd s) ! i) \<and>
      (\<forall>j. j \<noteq> i \<longrightarrow> powerups (spawn_phase rnd s) ! j = powerups s ! j)) \<and>
   (tick_count s mod 60 \<noteq> 0 \<longrightarrow> powerups (spawn_phase rnd s) = powerups s) \<and>
   tick_count (move_powerups (base_spd s) (move_coins (base_spd s) (move_obstacles (base_spd s)
      (move_scenery rnd (update_particles (tick_counters s)))))) = tick_count s + 1 \<and>
   difficulty (move_powerups (base_spd s) (move_coins (base_spd s) (move_obstacles (base_spd s)
      (move_scenery rnd (update_particles (tick_counters s)))))) = difficulty s \<and>
   (state s = StatePlaying \<longrightarrow>
      game_tick rnd ok s =
        (case resolve_collision rnd ok
           (check_collections (spawn_phase rnd
             (move_powerups (base_spd s) (move_coins (base_spd s) (move_obstacles (base_spd s)
                (move_scenery rnd (update_particles (tick_counters s)))))))) of
           (s1, returned) \<Rightarrow> if returned then s1 else level_up s1))"
proof (intro conjI impI)
  show "spawn_phase rnd s =
     (let s1 = (if tick_count s mod ucast (diff_spawn (difficulty s)) = 0
                then spawn_obstacle rnd s else s);
          s2 = (if tick_count s mod 18 = 0 then spawn_coin rnd s1 else s1)
      in (if tick_count s mod 60 = 0 then spawn_powerup rnd s2 else s2))"
    by (rule spawn_phase_cadence)
  show "tick_count (move_powerups (base_spd s) (move_coins (base_spd s) (move_obstacles (base_spd s)
      (move_scenery rnd (update_particles (tick_counters s)))))) = tick_count s + 1"
    "difficulty (move_powerups (base_spd s) (move_coins (base_spd s) (move_obstacles (base_spd s)
      (move_scenery rnd (update_particles (tick_counters s)))))) = difficulty s"
    by (rule before_spawn_fields)+
  show "game_tick rnd ok s =
        (case resolve_collision rnd ok
           (check_collections (spawn_phase rnd
             (move_powerups (base_spd s) (move_coins (base_spd s) (move_obstacles (base_spd s)
                (move_scenery rnd (update_particles (tick_counters s)))))))) of
           (s1, returned) \<Rightarrow> if returned then s1 else level_up s1)"
    if "state s = StatePlaying" using that by (rule game_tick_playing)
  show "obstacles (spawn_phase rnd s) = obstacles s"
    if "tick_count s mod ucast (diff_spawn (difficulty s)) \<noteq> 0"
    using that by (rule spawn_phase_obstacle_skip)
  show "coins (spawn_phase rnd s) = coins s" if "tick_count s mod 18 \<noteq> 0"
    using that by (rule spawn_phase_coin_skip)
  show "powerups (spawn_phase rnd s) = powerups s" if "tick_count s mod 60 \<noteq> 0"
    using that by (rule spawn_phase_powerup_skip)
  show "tick_count (spawn_phase rnd s) = tick_count s" "difficulty (spawn_phase rnd s) = difficulty s"
    by simp_all
  show "spawn_obstacle rnd s = s" if "\<forall>i<MAX_OBS. o_alive (obstacles s ! i)"
    using that by (rule spawn_obstacle_full)
  show "spawn_coin rnd s = s" if "\<forall>i<MAX_COINS. c_alive (coins s ! i)"
    using that by (rule spawn_coin_full)
  show "spawn_powerup rnd s = s" if "\<forall>i<MAX_POWERUPS. p_alive (powerups s ! i)"
    using that by (rule spawn_powerup_full)
  show "spawn_phase rnd s = s"
    if "(\<forall>i<MAX_OBS. o_alive (obstacles s ! i)) \<and> (\<forall>i<MAX_COINS. c_alive (coins s ! i)) \<and>
    (\<forall>i<MAX_POWERUPS. p_alive (powerups s ! i))"
    using that by (simp add: spawn_phase_full)
next
  assume h: "i < MAX_OBS \<and> i < length (obstacles s) \<and> \<not> o_alive (obstacles s ! i) \<and>
    (\<forall>j<i. o_alive (obstacles s ! j))"
  then show e: "spawn_obstacle rnd s = new_obstacle rnd i s"
    by (simp add: spawn_obstacle_first)
  from h show "o_alive (obstacles (spawn_obstacle rnd s) ! i)"
    "o_y (obstacles (spawn_obstacle rnd s) ! i) = - 18"
    "\<forall>j. j \<noteq> i \<longrightarrow> obstacles (spawn_obstacle rnd s) ! j = obstacles s ! j"
    "coins (spawn_obstacle rnd s) = coins s" "powerups (spawn_obstacle rnd s) = powerups s"
    by (simp_all add: e new_obstacle_slot)
next
  assume h: "i < MAX_COINS \<and> i < length (coins s) \<and> \<not> c_alive (coins s ! i) \<and>
    (\<forall>j<i. c_alive (coins s ! j))"
  then show e: "spawn_coin rnd s = new_coin rnd i s"
    by (simp add: spawn_coin_first)
  from h show "c_alive (coins (spawn_coin rnd s) ! i)"
    "c_y (coins (spawn_coin rnd s) ! i) = - 12"
    "\<forall>j. j \<noteq> i \<longrightarrow> coins (spawn_coin rnd s) ! j = coins s ! j"
    "obstacles (spawn_coin rnd s) = obstacles s" "powerups (spawn_coin rnd s) = powerups s"
    by (simp_all add: e new_coin_slot) (simp_all add: new_coin_def rand_used_def)
next
  assume h: "i < MAX_POWERUPS \<and> i < length (powerups s) \<and> \<not> p_alive (powerups s ! i) \<and>
    (\<forall>j<i. p_alive (powerups s ! j))"
  then show e: "spawn_powerup rnd s = new_powerup rnd i s"
    by (simp add: spawn_powerup_first)
  from h show "p_alive (powerups (spawn_powerup rnd s) ! i)"
    "p_y (powerups (spawn_powerup rnd s) ! i) = - 12"
    "\<forall>j. j \<noteq> i \<longrightarrow> powerups (spawn_powerup rnd s) ! j = powerups s ! j"
    "obstacles (spawn_powerup rnd s) = obstacles s" "coins (spawn_powerup rnd s) = coins s"
    by (simp_all add: e new_powerup_slot) (simp_all add: new_powerup_def rand_used_def)
next
  assume h: "tick_count s mod ucast (diff_spawn (difficulty s)) = 0 \<and>
    i < MAX_OBS \<and> i < length (obstacles s) \<and> \<not> o_alive (obstacles s ! i) \<and>
    (\<forall>j<i. o_alive (obstacles s ! j))"
  then have p: "tick_count s mod ucast (diff_spawn (difficulty s)) = 0" "i < MAX_OBS" "i < length (obstacles s)" "\<not> o_alive (obstacles s ! i)"
    "\<forall>j<i. o_alive (obstacles s ! j)"
    by simp_all
  show "o_alive (obstacles (spawn_phase rnd s) ! i)"
    by (rule spawn_phase_obstacle_slot(1) [OF p])
  show "\<forall>j. j \<noteq> i \<longrightarrow> obstacles (spawn_phase rnd s) ! j = obstacles s ! j"
    by (rule spawn_phase_obstacle_slot(2) [OF p])
next
  assume h: "tick_count s mod 18 = 0 \<and>
    i < MAX_COINS \<and> i < length (coins s) \<and> \<not> c_alive (coins s ! i) \<and>
    (\<forall>j<i. c_alive (coins s ! j))"
  then have p: "tick_count s mod 18 = 0" "i < MAX_COINS" "i < length (coins s)" "\<not> c_alive (coins s ! i)"
    "\<forall>j<i. c_alive (coins s ! j)"
    by simp_all
  show "c_alive (coins (spawn_phase rnd s) ! i)"
    by (rule spawn_phase_coin_slot(1) [OF p])
  show "\<forall>j. j \<noteq> i \<longrightarrow> coins (spawn_phase rnd s) ! j = coins s ! j"
    by (rule spawn_phase_coin_slot(2) [OF p])
next
  assume h: "tick_count s mod 60 = 0 \<and>
    i < MAX_POWERUPS \<and> i < length (powerups s) \<and> \<not> p_alive (powerups s ! i) \<and>
    (\<forall>j<i. p_alive (powerups s ! j))"
  then have p: "tick_count s mod 60 = 0" "i < MAX_POWERUPS" "i < length (powerups s)" "\<not> p_alive (powerups s ! i)"
    "\<forall>j<i. p_alive (powerups s ! j)"
    by simp_all
  show "p_alive (powerups (spawn_phase rnd s) ! i)"
    by (rule spawn_phase_powerup_slot(1) [OF p])
  show "\<forall>j. j \<noteq> i \<longrightarrow> powerups (spawn_phase rnd s) ! j = powerups s ! j"
    by (rule spawn_phase_powerup_slot(2) [OF p])
qed

theorem C9_spawn_first_free_slot_witness:
  "spawn_obstacle rnd0 c9_full = c9_full \<and> spawn_coin rnd0 c9_full = c9_full \<and>
   spawn_powerup rnd0 c9_full = c9_full \<and> spawn_phase rnd0 c9_full = c9_full \<and>
   tick_count c9_full mod ucast (diff_spawn (difficulty c9_full)) = 0 \<and>
   tick_count c9_full mod 18 = 0 \<and> tick_count c9_full mod 60 = 0 \<and>
   (2 :: nat) < MAX_OBS \<and> 2 < length (obstacles c1_over) \<and>
   o_alive (obstacles c1_over ! 0) \<and> o_alive (obstacles c1_over ! 1) \<and>
   \<not> o_alive (obstacles c1_over ! 2) \<and>
   spawn_obstacle rnd0 c1_over = new_obstacle rnd0 2 c1_over \<and>
   o_alive (obstacles (spawn_obstacle rnd0 c1_over) ! 2) \<and>
   obstacles (spawn_obstacle rnd0 c1_over) ! 1 = obstacles c1_over ! 1 \<and>
   (1 :: nat) < MAX_COINS \<and> 1 < length (coins c4_first) \<and>
   c_alive (coins c4_first ! 0) \<and> \<not> c_alive (coins c4_first ! 1) \<and>
   spawn_coin rnd0 c4_first = new_coin rnd0 1 c4_first \<and>
   c_alive (coins (spawn_coin rnd0 c4_first) ! 1) \<and>
   (1 :: nat) < MAX_POWERUPS \<and> 1 < length (powerups c3_refuel) \<and>
   p_alive (powerups c3_refuel ! 0) \<and> \<not> p_alive (powerups c3_refuel ! 1) \<and>
   spawn_powerup rnd0 c3_refuel = new_powerup rnd0 1 c3_refuel \<and>
   p_alive (powerups (spawn_powerup rnd0 c3_refuel) ! 1) \<and>
   tick_count c9_retry mod ucast (diff_spawn (difficulty c9_retry)) = 0 \<and>
   tick_count c9_retry mod 18 = 0 \<and> tick_count c9_retry mod 60 = 0 \<and>
   (0 :: nat) < length (obstacles c9_retry) \<and> \<not> o_alive (obstacles c9_retry ! 0) \<and>
   o_alive (obstacles (spawn_phase rnd0 c9_retry) ! 0) \<and>
   (0 :: nat) < length (coins c9_retry) \<and> \<not> c_alive (coins c9_retry ! 0) \<and>
   c_alive (coins (spawn_phase rnd0 c9_retry) ! 0) \<and>
   (0 :: nat) < length (powerups c9_retry) \<and> \<not> p_alive (powerups c9_retry ! 0) \<and>
   p_alive (powerups (spawn_phase rnd0 c9_retry) ! 0) \<and>
   tick_count c4_first mod ucast (diff_spawn (difficulty c4_first)) \<noteq> 0 \<and>
   tick_count c4_first mod 18 \<noteq> 0 \<and> tick_count c4_first mod 60 \<noteq> 0 \<and>
   obstacles (spawn_phase rnd0 c4_first) = obstacles c4_first \<and>
   coins (spawn_phase rnd0 c4_first) = coins c4_first \<and>
   powerups (spawn_phase rnd0 c4_first) = powerups c4_first \<and>
   state c9_retry = StatePlaying \<and>
   game_tick rnd0 True c9_retry =
     (case resolve_collision rnd0 True
        (check_collections (spawn_phase rnd0
          (move_powerups (base_spd c9_retry) (move_coins (base_spd c9_retry)
            (move_obstacles (base_spd c9_retry)
               (move_scenery rnd0 (update_particles (tick_counters c9_retry)))))))) of
        (s1, returned) \<Rightarrow> if returned then s1 else level_up s1)"
proof -
  have fo: "\<forall>i<MAX_OBS. o_alive (obstacles c9_full ! i)"
    unfolding all_less_5 by code_simp
  have fc: "\<forall>i<MAX_COINS. c_alive (coins c9_full ! i)"
    unfolding all_less_3 by code_simp
  have fp: "\<forall>i<MAX_POWERUPS. p_alive (powerups c9_full ! i)"
    unfolding all_less_2 by code_simp
  have cad: "tick_count c9_full mod ucast (diff_spawn (difficulty c9_full)) = 0 \<and>
      tick_count c9_full mod 18 = 0 \<and> tick_count c9_full mod 60 = 0"
    by code_simp
  have o: "(2 :: nat) < MAX_OBS \<and> 2 < length (obstacles c1_over) \<and> \<not> o_alive (obstacles c1_over ! 2)"
    and o': "o_alive (obstacles c1_over ! 0) \<and> o_alive (obstacles c1_over ! 1)"
    and c: "(1 :: nat) < MAX_COINS \<and> 1 < length (coins c4_first) \<and> \<not> c_alive (coins c4_first ! 1)"
    and c': "c_alive (coins c4_first ! 0)"
    and p: "(1 :: nat) < MAX_POWERUPS \<and> 1 < length (powerups c3_refuel) \<and>
      \<not> p_alive (powerups c3_refuel ! 1)"
    and p': "p_alive (powerups c3_refuel ! 0)"
    and rc: "tick_count c9_retry mod ucast (diff_spawn (difficulty c9_retry)) = 0"
      "tick_count c9_retry mod 18 = 0" "tick_count c9_retry mod 60 = 0"
    and ro: "(0 :: nat) < MAX_OBS \<and> 0 < length (obstacles c9_retry) \<and> \<not> o_alive (obstacles c9_retry ! 0)"
    and rk: "(0 :: nat) < MAX_COINS \<and> 0 < length (coins c9_retry) \<and> \<not> c_alive (coins c9_retry ! 0)"
    and rp: "(0 :: nat) < MAX_POWERUPS \<and> 0 < length (powerups c9_retry) \<and>
      \<not> p_alive (powerups c9_retry ! 0)"
    and nc: "tick_count c4_first mod ucast (diff_spawn (difficulty c4_first)) \<noteq> 0"
      "tick_count c4_first mod 18 \<noteq> 0" "tick_count c4_first mod 60 \<noteq> 0"
    and rs: "state c9_retry = StatePlaying"
    by code_simp+
  from o' have o2: "\<forall>j<2. o_alive (obstacles c1_over ! j)" by (simp add: all_less_2)
  from c' have c2: "\<forall>j<1. c_alive (coins c4_first ! j)" by simp
  from p' have p2: "\<forall>j<1. p_alive (powerups c3_refuel ! j)" by simp
  note t0 = C9_spawn_first_free_slot [of c9_full rnd0 0 True]
  note t1 = C9_spawn_first_free_slot [of c1_over rnd0 2 True]
  note t2 = C9_spawn_first_free_slot [of c4_first rnd0 1 True]
  note t3 = C9_spawn_first_free_slot [of c3_refuel rnd0 1 True]
  note u0 = C9_spawn_first_free_slot [of c9_retry rnd0 0 True]
  note u1 = C9_spawn_first_free_slot [of c4_first rnd0 0 True]
  have f1: "spawn_obstacle rnd0 c9_full = c9_full"
    using fo by (rule t0 [THEN conjunct1, THEN mp])
  have f2: "spawn_coin rnd0 c9_full = c9_full"
    using fc by (rule t0 [THEN conjunct2, THEN conjunct1, THEN mp])
  have f3: "spawn_powerup rnd0 c9_full = c9_full"
    using fp by (rule t0 [THEN conjunct2, THEN conjunct2, THEN conjunct1, THEN mp])
  from fo fc fp have "(\<forall>i<MAX_OBS. o_alive (obstacles c9_full ! i)) \<and>
      (\<forall>i<MAX_COINS. c_alive (coins c9_full ! i)) \<and>
      (\<forall>i<MAX_POWERUPS. p_alive (powerups c9_full ! i))"
    by (intro conjI)
  then have f4: "spawn_phase rnd0 c9_full = c9_full"
    by (rule t0 [THEN conjunct2, THEN conjunct2, THEN conjunct2, THEN conjunct1, THEN mp])
  from o o2 have "(2 :: nat) < MAX_OBS \<and> 2 < length (obstacles c1_over) \<and>
      \<not> o_alive (obstacles c1_over ! 2) \<and> (\<forall>j<2. o_alive (obstacles c1_over ! j))"
    by simp
  note g1 = t1 [THEN conjunct2, THEN conjunct2, THEN conjunct2, THEN conjunct2, THEN conjunct1, THEN mp, OF this]
  have 1: "spawn_obstacle rnd0 c1_over = new_obstacle rnd0 2 c1_over"
    "o_alive (obstacles (spawn_obstacle rnd0 c1_over) ! 2)"
    using g1 by blast+
  have "(1 :: nat) \<noteq> 2" by simp
  then have k: "obstacles (spawn_obstacle rnd0 c1_over) ! 1 = obstacles c1_over ! 1"
    by (rule g1 [THEN conjunct2, THEN conjunct2, THEN conjunct2, THEN conjunct1, THEN spec, THEN mp])
  from c c2 have "(1 :: nat) < MAX_COINS \<and> 1 < length (coins c4_first) \<and>
      \<not> c_alive (coins c4_first ! 1) \<and> (\<forall>j<1. c_alive (coins c4_first ! j))"
    by simp
  note g2 = t2 [THEN conjunct2, THEN conjunct2, THEN conjunct2, THEN conjunct2, THEN conjunct2, THEN conjunct1, THEN mp, OF this]
  have 2: "spawn_coin rnd0 c4_first = new_coin rnd0 1 c4_first"
    "c_alive (coins (spawn_coin rnd0 c4_first) ! 1)"
    using g2 by blast+
  from p p2 have "(1 :: nat) < MAX_POWERUPS \<and> 1 < length (powerups c3_refuel) \<and>
      \<not> p_alive (powerups c3_refuel ! 1) \<and> (\<forall>j<1. p_alive (powerups c3_refuel ! j))"
    by simp
  note g3 = t3 [THEN conjunct2, THEN conjunct2, THEN conjunct2, THEN conjunct2, THEN conjunct2, THEN conjunct2, THEN conjunct1, THEN mp, OF this]
  have 3: "spawn_powerup rnd0 c3_refuel = new_powerup rnd0 1 c3_refuel"
    "p_alive (powerups (spawn_powerup rnd0 c3_refuel) ! 1)"
    using g3 by blast+
  from rc(1) ro have "tick_count c9_retry mod ucast (diff_spawn (difficulty c9_retry)) = 0 \<and>
      (0 :: nat) < MAX_OBS \<and> 0 < length (obstacles c9_retry) \<and>
      \<not> o_alive (obstacles c9_retry ! 0) \<and> (\<forall>j<0. o_alive (obstacles c9_retry ! j))"
    by simp
  note g4 = u0 [THEN conjunct2, THEN conjunct2, THEN conjunct2, THEN conjunct2, THEN conjunct2, THEN conjunct2, THEN conjunct2, THEN conjunct2, THEN conjunct2, THEN conjunct2, THEN conjunct1, THEN mp, OF this]
  have 4: "o_alive (obstacles (spawn_phase rnd0 c9_retry) ! 0)"
    using g4 by (rule conjunct1)
  from rc(2) rk have "tick_count c9_retry mod 18 = 0 \<and>
      (0 :: nat) < MAX_COINS \<and> 0 < length (coins c9_retry) \<and>
      \<not> c_alive (coins c9_retry ! 0) \<and> (\<forall>j<0. c_alive (coins c9_retry ! j))"
    by simp
  note g5 = u0 [THEN conjunct2, THEN conjunct2, THEN conjunct2, THEN conjunct2, THEN conjunct2, THEN conjunct2, THEN conjunct2, THEN conjunct2, THEN conjunct2, THEN conjunct2, THEN conjunct2, THEN conjunct2, THEN conjunct1, THEN mp, OF this]
  have 5: "c_alive (coins (spawn_phase rnd0 c9_retry) ! 0)"
    using g5 by (rule conjunct1)
  from rc(3) rp have "tick_count c9_retry mod 60 = 0 \<and>
      (0 :: nat) < MAX_POWERUPS \<and> 0 < length (powerups c9_retry) \<and>
      \<not> p_alive (powerups c9_retry ! 0) \<and> (\<forall>j<0. p_alive (powerups c9_retry ! j))"
    by simp
  note g6 = u0 [THEN conjunct2, THEN conjunct2, THEN conjunct2, THEN conjunct2, THEN conjunct2, THEN conjunct2, THEN conjunct2, THEN conjunct2, THEN conjunct2, THEN conjunct2, THEN conjunct2, THEN conjunct2, THEN conjunct2, THEN conjunct2, THEN conjunct1, THEN mp, OF this]
  have 6: "p_alive (powerups (spawn_phase rnd0 c9_retry) ! 0)"
    using g6 by (rule conjunct1)
  have 7: "obstacles (spawn_phase rnd0 c4_first) = obstacles c4_first"
    "coins (spawn_phase rnd0 c4_first) = coins c4_first"
    "powerups (spawn_phase rnd0 c4_first) = powerups c4_first"
    using nc(1) apply (rule u1 [THEN conjunct2, THEN conjunct2, THEN conjunct2, THEN conjunct2, THEN conjunct2, THEN conjunct2, THEN conjunct2, THEN conjunct2, THEN conjunct2, THEN conjunct2, THEN conjunct2, THEN conjunct1, THEN mp])
    using nc(2) apply (rule u1 [THEN conjunct2, THEN conjunct2, THEN conjunct2, THEN conjunct2, THEN conjunct2, THEN conjunct2, THEN conjunct2, THEN conjunct2, THEN conjunct2, THEN conjunct2, THEN conjunct2, THEN conjunct2, THEN conjunct2, THEN conjunct1, THEN mp])
    using nc(3) apply (rule u1 [THEN conjunct2, THEN conjunct2, THEN conjunct2, THEN conjunct2, THEN conjunct2, THEN conjunct2, THEN conjunct2, THEN conjunct2, THEN conjunct2, THEN conjunct2, THEN conjunct2, THEN conjunct2, THEN conjunct2, THEN conjunct2, THEN conjunct2, THEN conjunct1, THEN mp])
    done
  have 8: "game_tick rnd0 True c9_retry =
     (case resolve_collision rnd0 True
        (check_collections (spawn_phase rnd0
          (move_powerups (base_spd c9_retry) (move_coins (base_spd c9_retry)
            (move_obstacles (base_spd c9_retry)
               (move_scenery rnd0 (update_particles (tick_counters c9_retry)))))))) of
        (s1, returned) \<Rightarrow> if returned then s1 else level_up s1)"
    using rs by (rule u0 [THEN conjunct2, THEN conjunct2, THEN conjunct2, THEN conjunct2, THEN conjunct2, THEN conjunct2, THEN conjunct2, THEN conjunct2, THEN conjunct2, THEN conjunct2, THEN conjunct2, THEN conjunct2, THEN conjunct2, THEN conjunct2, THEN conjunct2, THEN conjunct2, THEN conjunct2, THEN conjunct2, THEN mp])
  show ?thesis
    using f1 f2 f3 f4 cad o o' 1 k c c' 2 p p' 3 rc ro rk rp 4 5 6 nc 7 rs 8
    by (intro conjI) simp_all
qed

text \<open>
  C10. On any single tick lives decreases by at most 1, however many active obstacles
  overlap the player's box: the collision block changes \<open>lives\<close> by \<open>0\<close> or by \<open>-1\<close>, and
  over the whole of \<^verbatim>\<open>game_tick\<close> the value after the tick is at least the value before
  minus one.
\<close>

theorem C10_lives_drop_at_most_one:
  "unat (lives s) \<le> unat (lives (game_tick rnd ok s)) + 1 \<and>
   (lives (fst (resolve_collision rnd ok s)) = lives s \<or>
    lives (fst (resolve_collision rnd ok s)) = lives s - 1)"
proof -
  let ?a = "advance rnd s"
  let ?r = "fst (resolve_collision rnd ok ?a)"
  have a: "unat (lives s) \<le> unat (lives ?a)"
    using lives_advance_le [of s rnd] by (simp add: word_le_nat_alt)
  have r: "unat (lives ?a) \<le> unat (lives ?r) + 1"
    using lives_resolve_collision [of rnd ok ?a]
    by (auto simp: unat_sub_if' split: if_splits)
  have "lives (game_tick rnd ok s) = lives s \<or> lives (game_tick rnd ok s) = lives ?r"
    by (simp add: game_tick_def split: prod.split)
  with a r show ?thesis
    using lives_resolve_collision [of rnd ok s] by auto
qed

end
